theory Spec2Isabelle
  imports Complex_Main "HOL-Library.Word"
begin

section \<open>Conventions\<close>

text \<open>
  The solver is the class \<^verbatim>\<open>DirectSteadyNavierStokes<dim>\<close>, instantiated in \<^verbatim>\<open>main\<close> with
  \<^verbatim>\<open>dim = 2\<close>. Two variants of it are in the repository:
  \<^item> \<^verbatim>\<open>gls_navier_stokes_sharp_edge.cc\<close>, called the GLS solver below, and
  \<^item> \<^verbatim>\<open>directSteadyNS.cpp\<close>, called the direct solver below; its definitions carry the
    prefix \<open>direct_\<close>.

  A C++ \<^verbatim>\<open>double\<close> is idealised as a \<^typ>\<open>real\<close>: rounding, infinities and NaN are
  not modelled. Where the C++ divides by zero the theorems below exclude the input by a
  hypothesis, except for the quotient \<^verbatim>\<open>x / (1 / sum_line)\<close>, which is \<open>0\<close> for
  \<^verbatim>\<open>sum_line == 0\<close> both in IEEE arithmetic (\<^verbatim>\<open>x / inf\<close>) and in HOL (\<open>x / 0 = 0\<close>).
\<close>

definition dim :: nat where
  "dim = 2"

type_synonym point = "real \<times> real"

text \<open>\<^verbatim>\<open>Point<2>\<close> and \<^verbatim>\<open>Tensor<1,2>\<close> with the operators the code uses on them.\<close>

definition padd :: "point \<Rightarrow> point \<Rightarrow> point" where
  "padd a b = (fst a + fst b, snd a + snd b)"

definition psub :: "point \<Rightarrow> point \<Rightarrow> point" where
  "psub a b = (fst a - fst b, snd a - snd b)"

definition pscale :: "real \<Rightarrow> point \<Rightarrow> point" where
  "pscale s a = (s * fst a, s * snd a)"

definition pdiv :: "point \<Rightarrow> real \<Rightarrow> point" where
  "pdiv a s = (fst a / s, snd a / s)"

definition pnorm :: "point \<Rightarrow> real" where
  "pnorm a = sqrt (fst a * fst a + snd a * snd a)"

section \<open>Stabilisation parameter of the GLS assembler\<close>

text \<open>
  \<^verbatim>\<open>assemble\<close>, lines 658 to 669 of the GLS solver. The variable \<^verbatim>\<open>h\<close> is declared
  before the cell loop and assigned only for \<^verbatim>\<open>dim == 2\<close> and \<^verbatim>\<open>dim == 3\<close>; for any
  other dimension it keeps the value \<open>h_prev\<close> it had.
\<close>

definition element_size :: "nat \<Rightarrow> real \<Rightarrow> real \<Rightarrow> real" where
  "element_size d cell_measure h_prev =
     (if d = 2 then sqrt (4 * cell_measure / pi)
      else if d = 3 then (6 * cell_measure / pi) powr (1 / 3)
      else h_prev)"

text \<open>\<^verbatim>\<open>Tensor<1,dim>::norm()\<close> of the interpolated velocity, a list of \<open>dim\<close> components.\<close>

definition tensor_norm :: "real list \<Rightarrow> real" where
  "tensor_norm v = sqrt (sum_list (map (\<lambda>x. x * x) v))"

definition stabilization_tau :: "real list \<Rightarrow> real \<Rightarrow> real \<Rightarrow> real" where
  "stabilization_tau present_velocity h viscosity =
     (let u_mag = max (tensor_norm present_velocity) (1 / 10 ^ 12)
      in 1 / sqrt ((2 * u_mag / h) ^ 2 + 9 * (4 * viscosity / (h * h)) ^ 2))"

text \<open>What \<^verbatim>\<open>assemble\<close> computes at a quadrature point of a cell of measure \<open>cell_measure\<close>.\<close>

definition quadrature_point_tau :: "nat \<Rightarrow> real \<Rightarrow> real \<Rightarrow> real list \<Rightarrow> real \<Rightarrow> real" where
  "quadrature_point_tau d cell_measure h_prev present_velocity viscosity =
     stabilization_tau present_velocity (element_size d cell_measure h_prev) viscosity"

text \<open>
  \<^verbatim>\<open>GLS_residual_trg\<close> of \<^verbatim>\<open>GLS_residual.h\<close>, lines 149 to 152: the residual of a
  triangle. The size \<^verbatim>\<open>h\<close> comes from \<^verbatim>\<open>trg_.size_el()\<close>, which is not in the sources,
  and the floor of the velocity magnitude is \<^verbatim>\<open>1e-3\<close>.
\<close>

definition trg_stabilization_tau :: "real list \<Rightarrow> real \<Rightarrow> real \<Rightarrow> real" where
  "trg_stabilization_tau interpolated_v h viscosity =
     (let u_mag = max (tensor_norm interpolated_v) (1 / 10 ^ 3)
      in 1 / sqrt ((2 * u_mag / h) ^ 2 + 9 * (4 * viscosity / (h * h)) ^ 2))"

section \<open>Sampling step of the traction integrator\<close>

text \<open>
  \<^verbatim>\<open>torque\<close>, lines 1237 and 1238 of the GLS solver; \<open>d\<close> is
  \<^verbatim>\<open>GridTools::minimal_cell_diameter(triangulation)\<close>.
\<close>

definition torque_dr :: "real \<Rightarrow> real" where
  "torque_dr d = (let dr = (d * d) / sqrt (2 * (d * d)) in dr * 2)"

text \<open>\<^verbatim>\<open>torque\<close> of the direct solver, line 1218: the same quotient, not doubled.\<close>

definition direct_torque_dr :: "real \<Rightarrow> real" where
  "direct_torque_dr d = (d * d) / sqrt (2 * (d * d))"

section \<open>Geometry of the sharp-edge stencil\<close>

text \<open>
  \<^verbatim>\<open>sharp_edge_V2\<close> of the GLS solver fixes the centre of both circles at
  \<^verbatim>\<open>(0.2, 0)\<close>; the direct solver fixes it at the origin.
\<close>

definition center_immersed :: point where
  "center_immersed = (2 / 10, 0)"

definition direct_center_immersed :: point where
  "direct_center_immersed = (0, 0)"

text \<open>Lines 996 to 1003 of the GLS solver: the pass over the circle of radius \<^verbatim>\<open>radius\<close>.\<close>

definition vect_dist_small :: "real \<Rightarrow> point \<Rightarrow> point" where
  "vect_dist_small radius x =
     psub (psub x center_immersed)
          (pdiv (pscale radius (psub x center_immersed)) (pnorm (psub x center_immersed)))"

definition second_point_small :: "real \<Rightarrow> point \<Rightarrow> point" where
  "second_point_small radius x = padd x (vect_dist_small radius x)"

text \<open>
  Lines 1122 to 1128 of the GLS solver: the pass over the circle of radius \<^verbatim>\<open>radius_2\<close>.
  The centre is not subtracted from the support point here.
\<close>

definition vect_dist_large :: "real \<Rightarrow> point \<Rightarrow> point" where
  "vect_dist_large radius_2 x =
     psub x (pdiv (pscale radius_2 (psub x center_immersed)) (pnorm (psub x center_immersed)))"

definition second_point_large :: "real \<Rightarrow> point \<Rightarrow> point" where
  "second_point_large radius_2 x = padd x (vect_dist_large radius_2 x)"

text \<open>Lines 944 to 953 and 1069 to 1077 of the direct solver: both passes, one expression.\<close>

definition direct_vect_dist :: "real \<Rightarrow> point \<Rightarrow> point" where
  "direct_vect_dist r x =
     psub x (pdiv (pscale r (psub x direct_center_immersed))
                  (pnorm (psub x direct_center_immersed)))"

definition direct_second_point :: "real \<Rightarrow> point \<Rightarrow> point" where
  "direct_second_point r x = padd x (direct_vect_dist r x)"

text \<open>
  The specification's words, for comparison with the code: the normal projection of \<open>x\<close>
  onto the circle of centre \<open>c\<close> and radius \<open>r\<close> is \<open>c + r (x - c) / \<parallel>x - c\<parallel>\<close>, and
  the mirror point is \<open>x + 2 (x_proj - x)\<close>.
\<close>

definition spec_projection :: "point \<Rightarrow> real \<Rightarrow> point \<Rightarrow> point" where
  "spec_projection c r x = padd c (pdiv (pscale r (psub x c)) (pnorm (psub x c)))"

definition spec_mirror_point :: "point \<Rightarrow> real \<Rightarrow> point \<Rightarrow> point" where
  "spec_mirror_point c r x = padd x (pscale 2 (psub (spec_projection c r x) x))"

section \<open>Mesh, finite element and linear system\<close>

text \<open>
  What the override reads from deal.II, as data. A cell (an \<^verbatim>\<open>active_cell_iterator\<close>)
  gives its global dof numbers (\<^verbatim>\<open>get_dof_indices\<close>), its vertex numbers
  (\<^verbatim>\<open>vertex_index\<close>) and the inverse of its \<^verbatim>\<open>MappingQ1\<close>
  (\<^verbatim>\<open>transform_real_to_unit_cell\<close>, \<open>None\<close> when it throws
  \<^verbatim>\<open>ExcTransformationFailed\<close>).
\<close>

record cell =
  dof_index :: "nat \<Rightarrow> nat"
  vertex_index :: "nat \<Rightarrow> nat"
  transform_real_to_unit_cell :: "point \<Rightarrow> point option"

text \<open>
  The mesh with its dof handler and element: the active cells in iteration order,
  \<^verbatim>\<open>fe.dofs_per_cell\<close>, \<^verbatim>\<open>dof_handler.n_dofs()\<close>, the map of
  \<^verbatim>\<open>map_dofs_to_support_points\<close>, the member \<^verbatim>\<open>vertices_to_cell\<close> built by
  \<^verbatim>\<open>vertices_cell_mapping\<close>, \<^verbatim>\<open>GridTools::find_active_cell_around_point\<close> (\<open>None\<close> when
  it throws \<^verbatim>\<open>ExcPointNotFound\<close>), \<^verbatim>\<open>fe.shape_value\<close>, and the members \<^verbatim>\<open>radius\<close>,
  \<^verbatim>\<open>radius_2\<close> and \<^verbatim>\<open>couette\<close>.
\<close>

record mesh =
  active_cells :: "cell list"
  dofs_per_cell :: nat
  n_dofs :: nat
  support_points :: "nat \<Rightarrow> point"
  vertices_to_cell :: "nat \<Rightarrow> cell list"
  find_active_cell_around_point :: "point \<Rightarrow> cell option"
  shape_value :: "nat \<Rightarrow> point \<Rightarrow> real"
  radius :: real
  radius_2 :: real
  couette :: bool

type_synonym matrix = "nat \<Rightarrow> nat \<Rightarrow> real"
type_synonym vec = "nat \<Rightarrow> real"

text \<open>
  The members of the solver that the Newton iteration changes. The sparsity pattern is
  not modelled: every entry of the matrix can be read and written.
\<close>

record solver =
  system_matrix :: matrix
  system_rhs :: vec
  present_solution :: vec
  newton_update :: vec
  evaluation_point :: vec
  last_vect :: vec

datatype error =
  ExcTransformationFailed | ExcPointNotFound | EmptyNeighbourList | SolverFailed | ExcIndexRange

text \<open>\<^verbatim>\<open>cell->get_dof_indices(v)\<close> fills a vector of size \<^verbatim>\<open>dofs_per_cell\<close>.\<close>

definition get_dof_indices :: "mesh \<Rightarrow> cell \<Rightarrow> nat list" where
  "get_dof_indices ms c = map (dof_index c) [0..<dofs_per_cell ms]"

text \<open>\<^verbatim>\<open>SparseMatrix::set\<close> and \<^verbatim>\<open>SparseMatrix::add\<close> on one entry.\<close>

definition mat_set :: "matrix \<Rightarrow> nat \<Rightarrow> nat \<Rightarrow> real \<Rightarrow> matrix" where
  "mat_set M i j v = M(i := (M i)(j := v))"

definition mat_add :: "matrix \<Rightarrow> nat \<Rightarrow> nat \<Rightarrow> real \<Rightarrow> matrix" where
  "mat_add M i j v = M(i := (M i)(j := M i j + v))"

text \<open>
  \<^verbatim>\<open>GeometryInfo<2>::distance_to_unit_cell\<close> of deal.II: the largest amount by which a
  coordinate leaves \<open>[0, 1]\<close>, and \<open>0\<close> for a point of the unit cell.
\<close>

definition distance_to_unit_cell :: "point \<Rightarrow> real" where
  "distance_to_unit_cell p =
     fold (\<lambda>x result. if - x > result then - x else if x - 1 > result then x - 1 else result)
          [fst p, snd p] 0"

section \<open>The sharp-edge override of the GLS solver\<close>

text \<open>
  The loops \<^verbatim>\<open>while (l < size) { ...; if (l < (dim + 1) * 4) l = l + dim + 1; else l = l + dim; }\<close>
  of lines 994 to 1110 and 1063 to 1072: the local indices visited from \<open>n\<close> on.
\<close>

function stride :: "nat \<Rightarrow> nat \<Rightarrow> nat list" where
  "stride n sz =
     (if n < sz then n # stride (if n < (dim + 1) * 4 then n + dim + 1 else n + dim) sz
      else [])"
  by pat_completeness auto
termination
  by (relation "measure (\<lambda>(n, sz). sz - n)") (auto simp: dim_def)

declare stride.simps [simp del]

text \<open>
  Lines 1011 to 1033: the search among the cells around the vertex for the one that
  holds the second point. \<^verbatim>\<open>cell_found\<close> starts at \<open>0\<close> and stays there when no cell
  matches; a failing transformation is caught and the next cell is tried.
\<close>

fun find_cell :: "cell list \<Rightarrow> point \<Rightarrow> nat \<Rightarrow> nat" where
  "find_cell [] second_point cell_index = 0"
| "find_cell (c # cs) second_point cell_index =
     (case transform_real_to_unit_cell c second_point of
        None \<Rightarrow> find_cell cs second_point (Suc cell_index)
      | Some p_cell \<Rightarrow>
          if distance_to_unit_cell p_cell = 0 then cell_index
          else find_cell cs second_point (Suc cell_index))"

text \<open>
  Line 1036, \<^verbatim>\<open>active_neighbors[cell_found]\<close>. Reading an empty vector is undefined
  behaviour in C++; the model reports it as an error.
\<close>

definition stencil_cell :: "cell list \<Rightarrow> point \<Rightarrow> error + cell" where
  "stencil_cell active_neighbors second_point =
     (let cell_found = find_cell active_neighbors second_point 0
      in if cell_found < length active_neighbors then Inr (active_neighbors ! cell_found)
         else Inl EmptyNeighbourList)"

text \<open>Lines 1005 to 1009: the cells around the vertex that carries local dof \<open>l\<close>.\<close>

definition neighbours :: "mesh \<Rightarrow> cell \<Rightarrow> nat \<Rightarrow> cell list" where
  "neighbours ms c l = vertices_to_cell ms (vertex_index c (l div (dim + 1)))"

text \<open>Lines 1047 to 1053: the entries of row \<open>i\<close> in the columns of all those cells are zeroed.\<close>

definition clear_row :: "mesh \<Rightarrow> cell list \<Rightarrow> nat \<Rightarrow> matrix \<Rightarrow> matrix" where
  "clear_row ms active_neighbors i M =
     fold (\<lambda>cell_3 M. fold (\<lambda>oo M. mat_set M i (get_dof_indices ms cell_3 ! oo) 0)
                            [0..<dofs_per_cell ms] M)
          active_neighbors M"

text \<open>
  Lines 1061 to 1072: the shape functions of the stencil cell at the second point are
  added, each divided by \<^verbatim>\<open>1 / sum_line\<close>.
\<close>

definition add_stencil ::
  "mesh \<Rightarrow> nat \<Rightarrow> nat list \<Rightarrow> point \<Rightarrow> real \<Rightarrow> nat \<Rightarrow> matrix \<Rightarrow> matrix" where
  "add_stencil ms k local_dof_indices_2 second_point_v sum_line i M =
     fold (\<lambda>n M. mat_add M i (local_dof_indices_2 ! n)
                    (shape_value ms n second_point_v / (1 / sum_line)))
          (stride k (length local_dof_indices_2)) M"

text \<open>Lines 1084 to 1093: the value written into the right-hand side for component \<open>k\<close>.\<close>

definition unit_normal :: "point \<Rightarrow> point \<Rightarrow> point" where
  "unit_normal c x = pdiv (psub x c) (pnorm (psub x c))"

definition boundary_value :: "nat \<Rightarrow> point \<Rightarrow> real" where
  "boundary_value k normal = (if k = 0 then 1 * snd normal else - 1 * fst normal)"

text \<open>
  Lines 996 to 1109: the body of the loop over \<open>l\<close> in the pass over the circle of radius
  \<^verbatim>\<open>radius\<close>, for the cell \<open>c\<close>, the velocity component \<open>k\<close> and the local dof \<open>l\<close>.
  The transformation of line 1038 is outside the \<^verbatim>\<open>try\<close> block: its exception leaves
  \<^verbatim>\<open>sharp_edge_V2\<close>.

  The test \<^verbatim>\<open>vect_dist.norm() != 0\<close> of line 1056 is made on the computed \<^verbatim>\<open>double\<close>; the
  model makes it on the real number. The two agree where the subtraction of the centre,
  the norm and the quotient are exact in binary floating point, as for the support point
  \<open>(0.2, 0.25)\<close> and the radius \<open>0.25\<close> (differences \<open>0\<close> and \<open>0.25\<close>, norm \<open>0.25\<close>,
  quotient \<open>0.25\<close>). At a support point whose real distance to the circle is zero but whose
  coordinates are not exact, such as \<open>(0.47, 0)\<close> with the radius \<open>0.27\<close>, rounding leaves
  a distance of the order of \<open>10\<^sup>-\<^sup>1\<^sup>7\<close> and the code takes the branch for a nonzero norm.
  The concrete inputs below whose distance is zero are of the first kind.
\<close>

definition rewrite_row_small ::
  "mesh \<Rightarrow> bool \<Rightarrow> cell \<Rightarrow> nat \<Rightarrow> nat \<Rightarrow> solver \<Rightarrow> error + solver" where
  "rewrite_row_small ms initial_step c k l S =
     (let local_dof_indices = get_dof_indices ms c;
          x = support_points ms (local_dof_indices ! l);
          vect_dist = vect_dist_small (radius ms) x;
          second_point = padd x vect_dist;
          active_neighbors = neighbours ms c l
      in case stencil_cell active_neighbors second_point of
           Inl e \<Rightarrow> Inl e
         | Inr cell_2 \<Rightarrow>
            (case transform_real_to_unit_cell cell_2 second_point of
               None \<Rightarrow> Inl ExcTransformationFailed
             | Some second_point_v \<Rightarrow>
                (let local_dof_indices_2 = get_dof_indices ms cell_2;
                     global_index_overrigth = local_dof_indices ! l;
                     sum_line = system_matrix S global_index_overrigth global_index_overrigth;
                     M1 = clear_row ms active_neighbors global_index_overrigth (system_matrix S);
                     M2 = (if pnorm vect_dist \<noteq> 0
                           then add_stencil ms k local_dof_indices_2 second_point_v sum_line
                                  global_index_overrigth
                                  (mat_set M1 global_index_overrigth global_index_overrigth
                                     (- 2 / (1 / sum_line)))
                           else mat_set M1 global_index_overrigth global_index_overrigth sum_line);
                     r1 = (if couette ms \<and> initial_step
                           then (system_rhs S)(global_index_overrigth :=
                                  boundary_value k (unit_normal center_immersed x) / (1 / sum_line))
                           else (system_rhs S)(global_index_overrigth := 0));
                     r2 = (if \<not> couette ms then r1(global_index_overrigth := 0) else r1)
                 in Inr (S\<lparr>system_matrix := M2, system_rhs := r2\<rparr>))))"

text \<open>
  Lines 1122 to 1193: the body of the loop over \<open>l\<close> in the pass over the circle of radius
  \<^verbatim>\<open>radius_2\<close>. There is no test of the distance here and the right-hand side is always
  set to zero.
\<close>

definition rewrite_row_large ::
  "mesh \<Rightarrow> cell \<Rightarrow> nat \<Rightarrow> nat \<Rightarrow> solver \<Rightarrow> error + solver" where
  "rewrite_row_large ms c k l S =
     (let local_dof_indices = get_dof_indices ms c;
          x = support_points ms (local_dof_indices ! l);
          vect_dist = vect_dist_large (radius_2 ms) x;
          second_point = padd x vect_dist;
          active_neighbors = neighbours ms c l
      in case stencil_cell active_neighbors second_point of
           Inl e \<Rightarrow> Inl e
         | Inr cell_2 \<Rightarrow>
            (case transform_real_to_unit_cell cell_2 second_point of
               None \<Rightarrow> Inl ExcTransformationFailed
             | Some second_point_v \<Rightarrow>
                (let local_dof_indices_2 = get_dof_indices ms cell_2;
                     global_index_overrigth = local_dof_indices ! l;
                     sum_line = system_matrix S global_index_overrigth global_index_overrigth;
                     M1 = clear_row ms active_neighbors global_index_overrigth (system_matrix S);
                     M2 = add_stencil ms k local_dof_indices_2 second_point_v sum_line
                            global_index_overrigth
                            (mat_set M1 global_index_overrigth global_index_overrigth
                               (- 2 / (1 / sum_line)))
                 in Inr (S\<lparr>system_matrix := M2,
                           system_rhs := (system_rhs S)(global_index_overrigth := 0)\<rparr>))))"

text \<open>A loop whose body may throw: the first exception ends it.\<close>

fun fold_err :: "('a \<Rightarrow> 's \<Rightarrow> error + 's) \<Rightarrow> 'a list \<Rightarrow> 's \<Rightarrow> error + 's" where
  "fold_err f [] S = Inr S"
| "fold_err f (x # xs) S = (case f x S of Inl e \<Rightarrow> Inl e | Inr S' \<Rightarrow> fold_err f xs S')"

text \<open>Lines 966 to 977: the dofs of the cell inside the circle of radius \<open>r\<close>.\<close>

definition count_inside :: "mesh \<Rightarrow> real \<Rightarrow> nat list \<Rightarrow> nat" where
  "count_inside ms r local_dof_indices =
     length (filter (\<lambda>j. pnorm (psub (support_points ms j) center_immersed) \<le> r)
                    local_dof_indices)"

text \<open>Lines 964 to 1198: the body of the loop over the cells.\<close>

definition override_cell :: "mesh \<Rightarrow> bool \<Rightarrow> cell \<Rightarrow> solver \<Rightarrow> error + solver" where
  "override_cell ms initial_step c S =
     (let local_dof_indices = get_dof_indices ms c;
          count_small = count_inside ms (radius ms) local_dof_indices;
          count_large = (if couette ms then count_inside ms (radius_2 ms) local_dof_indices
                         else 0)
      in case (if count_small \<noteq> 0 \<and> count_small \<noteq> length local_dof_indices
               then fold_err (\<lambda>k S. if k < dim
                                then fold_err (rewrite_row_small ms initial_step c k)
                                       (stride k (length local_dof_indices)) S
                                else Inr S)
                             [0..<dim + 1] S
               else Inr S) of
           Inl e \<Rightarrow> Inl e
         | Inr S1 \<Rightarrow>
            (if count_large \<noteq> 0 \<and> count_large \<noteq> length local_dof_indices
             then fold_err (\<lambda>k S. if k < 2
                              then fold_err (rewrite_row_large ms c k)
                                     (stride k (length local_dof_indices)) S
                              else Inr S)
                           [0..<dim + 1] S1
             else Inr S1))"

definition sharp_edge_V2 :: "mesh \<Rightarrow> bool \<Rightarrow> solver \<Rightarrow> error + solver" where
  "sharp_edge_V2 ms initial_step S = fold_err (override_cell ms initial_step) (active_cells ms) S"

section \<open>The sharp-edge override of the direct solver\<close>

text \<open>
  \<^verbatim>\<open>sharp_edge_V2()\<close> of the direct solver takes no argument and fixes \<^verbatim>\<open>radius = 0.21\<close>,
  \<^verbatim>\<open>radius_2 = 0.91\<close> and \<^verbatim>\<open>couette = true\<close> locally. Lines 940 to 995: the body of the
  loop over \<open>l\<close> in the pass over the circle of radius \<^verbatim>\<open>radius\<close>. The whole row is
  zeroed, the stencil cell is found by \<^verbatim>\<open>find_active_cell_around_point\<close>, and the
  entries are divided by the squared distance.
\<close>

definition direct_radius :: real where
  "direct_radius = 21 / 100"

definition direct_radius_2 :: real where
  "direct_radius_2 = 91 / 100"

definition clear_whole_row :: "mesh \<Rightarrow> nat \<Rightarrow> matrix \<Rightarrow> matrix" where
  "clear_whole_row ms i M = fold (\<lambda>m M. mat_set M i m 0) [0..<n_dofs ms] M"

definition direct_add_stencil ::
  "mesh \<Rightarrow> nat \<Rightarrow> nat list \<Rightarrow> point \<Rightarrow> real \<Rightarrow> nat \<Rightarrow> matrix \<Rightarrow> matrix" where
  "direct_add_stencil ms k local_dof_indices_2 second_point_v dist' i M =
     fold (\<lambda>n M. mat_add M i (local_dof_indices_2 ! n)
                    (shape_value ms n second_point_v / (dist' * dist')))
          (stride k (length local_dof_indices_2)) M"

definition direct_rewrite_row_small ::
  "mesh \<Rightarrow> cell \<Rightarrow> nat \<Rightarrow> nat \<Rightarrow> solver \<Rightarrow> error + solver" where
  "direct_rewrite_row_small ms c k l S =
     (let local_dof_indices = get_dof_indices ms c;
          x = support_points ms (local_dof_indices ! l);
          vect_dist = direct_vect_dist direct_radius x;
          dist' = sqrt (snd vect_dist * snd vect_dist + fst vect_dist * fst vect_dist);
          second_point = padd x vect_dist
      in case find_active_cell_around_point ms second_point of
           None \<Rightarrow> Inl ExcPointNotFound
         | Some cell_2 \<Rightarrow>
            (case transform_real_to_unit_cell cell_2 second_point of
               None \<Rightarrow> Inl ExcTransformationFailed
             | Some second_point_v \<Rightarrow>
                (let local_dof_indices_2 = get_dof_indices ms cell_2;
                     global_index_overrigth = local_dof_indices ! l;
                     M1 = clear_whole_row ms global_index_overrigth (system_matrix S);
                     M2 = direct_add_stencil ms k local_dof_indices_2 second_point_v dist'
                            global_index_overrigth
                            (mat_set M1 global_index_overrigth global_index_overrigth
                               (- 2 / (dist' * dist')))
                 in Inr (S\<lparr>system_matrix := M2,
                           system_rhs := (system_rhs S)(global_index_overrigth :=
                              boundary_value k (unit_normal direct_center_immersed x)
                                / (dist' * dist'))\<rparr>))))"

text \<open>Lines 1066 to 1107 of the direct solver: the same for the circle of radius \<^verbatim>\<open>radius_2\<close>.\<close>

definition direct_rewrite_row_large ::
  "mesh \<Rightarrow> cell \<Rightarrow> nat \<Rightarrow> nat \<Rightarrow> solver \<Rightarrow> error + solver" where
  "direct_rewrite_row_large ms c k l S =
     (let local_dof_indices = get_dof_indices ms c;
          x = support_points ms (local_dof_indices ! l);
          vect_dist = direct_vect_dist direct_radius_2 x;
          dist' = sqrt (snd vect_dist * snd vect_dist + fst vect_dist * fst vect_dist);
          second_point = padd x vect_dist
      in case find_active_cell_around_point ms second_point of
           None \<Rightarrow> Inl ExcPointNotFound
         | Some cell_2 \<Rightarrow>
            (case transform_real_to_unit_cell cell_2 second_point of
               None \<Rightarrow> Inl ExcTransformationFailed
             | Some second_point_v \<Rightarrow>
                (let local_dof_indices_2 = get_dof_indices ms cell_2;
                     global_index_overrigth = local_dof_indices ! l;
                     M1 = clear_whole_row ms global_index_overrigth (system_matrix S);
                     M2 = direct_add_stencil ms k local_dof_indices_2 second_point_v dist'
                            global_index_overrigth
                            (mat_set M1 global_index_overrigth global_index_overrigth
                               (- 2 / (dist' * dist')))
                 in Inr (S\<lparr>system_matrix := M2,
                           system_rhs := (system_rhs S)(global_index_overrigth := 0)\<rparr>))))"

text \<open>
  Lines 872 to 935 of the direct solver: the dofs of the cell inside the circle of radius
  \<open>r\<close> about the origin. \<^verbatim>\<open>couette\<close> is the constant \<^verbatim>\<open>true\<close> there, so the block of lines 882
  to 930 is never entered and \<^verbatim>\<open>count_large\<close> is never reset.
\<close>

definition direct_count_inside :: "mesh \<Rightarrow> real \<Rightarrow> nat list \<Rightarrow> nat" where
  "direct_count_inside ms r local_dof_indices =
     length (filter (\<lambda>j. pnorm (psub (support_points ms j) direct_center_immersed) \<le> r)
                    local_dof_indices)"

text \<open>
  Lines 868 to 1186 of the direct solver: the body of the loop over the cells.
  \<^verbatim>\<open>bridge_petit\<close> and \<^verbatim>\<open>bridge_gros\<close> are \<open>1\<close> throughout, so the branches for \<open>k = 2\<close> are
  never entered.
\<close>

definition direct_override_cell :: "mesh \<Rightarrow> cell \<Rightarrow> solver \<Rightarrow> error + solver" where
  "direct_override_cell ms c S =
     (let local_dof_indices = get_dof_indices ms c;
          count_small = direct_count_inside ms direct_radius local_dof_indices;
          count_large = direct_count_inside ms direct_radius_2 local_dof_indices
      in case (if count_small \<noteq> 0 \<and> count_small \<noteq> length local_dof_indices
               then fold_err (\<lambda>k S. if k < 2
                                then fold_err (direct_rewrite_row_small ms c k)
                                       (stride k (length local_dof_indices)) S
                                else Inr S)
                             [0..<3] S
               else Inr S) of
           Inl e \<Rightarrow> Inl e
         | Inr S1 \<Rightarrow>
            (if count_large \<noteq> 0 \<and> count_large \<noteq> length local_dof_indices
             then fold_err (\<lambda>k S. if k < 2
                              then fold_err (direct_rewrite_row_large ms c k)
                                     (stride k (length local_dof_indices)) S
                              else Inr S)
                           [0..<3] S1
             else Inr S1))"

text \<open>
  Lines 828 to 1192 of the direct solver: the whole function. \<open>minimal_cell_diameter\<close> is
  the value of \<^verbatim>\<open>GridTools::minimal_cell_diameter(triangulation)\<close>, from which line 864
  computes \<^verbatim>\<open>min_cell_d\<close>. After the loop over the cells, lines 1188 to 1191 zero the row
  of the last dof, put \<^verbatim>\<open>1 / (min_cell_d * min_cell_d)\<close> on its diagonal and set its entry
  of the right-hand side to zero. The index \<^verbatim>\<open>dof_handler.n_dofs() - 1\<close> is unsigned: without
  dofs it is out of range, which the model reports as an error.
\<close>

definition direct_sharp_edge_V2 :: "mesh \<Rightarrow> real \<Rightarrow> solver \<Rightarrow> error + solver" where
  "direct_sharp_edge_V2 ms minimal_cell_diameter S =
     (let min_cell_d = (minimal_cell_diameter * minimal_cell_diameter)
                         / sqrt (2 * (minimal_cell_diameter * minimal_cell_diameter))
      in case fold_err (direct_override_cell ms) (active_cells ms) S of
           Inl e \<Rightarrow> Inl e
         | Inr S1 \<Rightarrow>
            (if n_dofs ms = 0 then Inl ExcIndexRange
             else (let M1 = clear_whole_row ms (n_dofs ms - 1) (system_matrix S1);
                       M2 = mat_set M1 (n_dofs ms - 1) (n_dofs ms - 1)
                              (1 / (min_cell_d * min_cell_d))
                   in Inr (S1\<lparr>system_matrix := M2,
                             system_rhs := (system_rhs S1)(n_dofs ms - 1 := 0)\<rparr>))))"

text \<open>
  \<^verbatim>\<open>torque\<close> of the GLS solver, lines 1246 and 1247: the velocity \<^verbatim>\<open>(u_1, v_1)\<close> of the
  rotating surface at its point of angle \<open>\<theta>\<close>, where the outward unit normal is
  \<open>(cos \<theta>, sin \<theta>)\<close>.
\<close>

definition surface_velocity :: "real \<Rightarrow> point" where
  "surface_velocity theta = (- sin theta, cos theta)"

section \<open>Assembly\<close>

text \<open>
  What \<^verbatim>\<open>assemble\<close> and the Newton iteration take from deal.II and from the quadrature
  loop, as functions:
  \<^item> \<open>cell_contribution assemble_matrix evaluation_point cell\<close>: \<^verbatim>\<open>local_matrix\<close> and
    \<^verbatim>\<open>local_rhs\<close> after the loop over the quadrature points (lines 641 to 785);
  \<^item> \<open>distribute_local_to_global initial_step\<close> and \<open>distribute_rhs_to_global initial_step\<close>:
    the two overloads of \<^verbatim>\<open>AffineConstraints::distribute_local_to_global\<close> on
    \<^verbatim>\<open>nonzero_constraints\<close> (\<open>initial_step\<close>) or \<^verbatim>\<open>zero_constraints\<close>; the second
    overload receives the right-hand side only;
  \<^item> \<open>constraints_distribute nonzero\<close>: \<^verbatim>\<open>AffineConstraints::distribute\<close> of
    \<^verbatim>\<open>nonzero_constraints\<close> or \<^verbatim>\<open>zero_constraints\<close>;
  \<^item> \<open>direct_vmult\<close>: \<^verbatim>\<open>SparseDirectUMFPACK::initialize\<close> and \<^verbatim>\<open>vmult\<close>, \<open>None\<close> when
    the factorisation fails.
\<close>

record externals =
  cell_contribution :: "bool \<Rightarrow> vec \<Rightarrow> cell \<Rightarrow> matrix \<times> vec"
  distribute_local_to_global ::
    "bool \<Rightarrow> matrix \<Rightarrow> vec \<Rightarrow> nat list \<Rightarrow> matrix \<Rightarrow> vec \<Rightarrow> matrix \<times> vec"
  distribute_rhs_to_global :: "bool \<Rightarrow> vec \<Rightarrow> nat list \<Rightarrow> vec \<Rightarrow> vec"
  constraints_distribute :: "bool \<Rightarrow> vec \<Rightarrow> vec"
  direct_vmult :: "matrix \<Rightarrow> vec \<Rightarrow> vec option"

text \<open>Lines 641 to 804 of the GLS solver: the body of the loop over the cells.\<close>

definition assemble_cell ::
  "mesh \<Rightarrow> externals \<Rightarrow> bool \<Rightarrow> bool \<Rightarrow> cell \<Rightarrow> solver \<Rightarrow> solver" where
  "assemble_cell ms ex initial_step assemble_matrix c S =
     (let (local_matrix, local_rhs) = cell_contribution ex assemble_matrix (evaluation_point S) c;
          local_dof_indices = get_dof_indices ms c
      in if assemble_matrix
         then (let (M, r) = distribute_local_to_global ex initial_step local_matrix local_rhs
                              local_dof_indices (system_matrix S) (system_rhs S)
               in S\<lparr>system_matrix := M, system_rhs := r\<rparr>)
         else S\<lparr>system_rhs := distribute_rhs_to_global ex initial_step local_rhs
                                 local_dof_indices (system_rhs S)\<rparr>)"

text \<open>Lines 593 to 820 of the GLS solver (lines 373 to 587 of the direct solver).\<close>

definition assemble :: "mesh \<Rightarrow> externals \<Rightarrow> bool \<Rightarrow> bool \<Rightarrow> solver \<Rightarrow> solver" where
  "assemble ms ex initial_step assemble_matrix S =
     (let S0 = (if assemble_matrix then S\<lparr>system_matrix := (\<lambda>i j. 0)\<rparr> else S);
          S1 = S0\<lparr>system_rhs := (\<lambda>i. 0)\<rparr>
      in fold (assemble_cell ms ex initial_step assemble_matrix) (active_cells ms) S1)"

definition assemble_system :: "mesh \<Rightarrow> externals \<Rightarrow> bool \<Rightarrow> solver \<Rightarrow> solver" where
  "assemble_system ms ex initial_step S = assemble ms ex initial_step True S"

definition assemble_rhs :: "mesh \<Rightarrow> externals \<Rightarrow> bool \<Rightarrow> solver \<Rightarrow> solver" where
  "assemble_rhs ms ex initial_step S = assemble ms ex initial_step False S"

section \<open>Newton iteration\<close>

text \<open>\<^verbatim>\<open>initialize_system\<close>: the matrix and three of the vectors are reinitialised to zero.\<close>

definition initialize_system :: "solver \<Rightarrow> solver" where
  "initialize_system S =
     S\<lparr>system_matrix := (\<lambda>i j. 0), present_solution := (\<lambda>i. 0),
       newton_update := (\<lambda>i. 0), system_rhs := (\<lambda>i. 0)\<rparr>"

text \<open>\<^verbatim>\<open>solve\<close>: the direct solver, then the constraints on the update.\<close>

definition solve :: "externals \<Rightarrow> bool \<Rightarrow> solver \<Rightarrow> error + solver" where
  "solve ex initial_step S =
     (case direct_vmult ex (system_matrix S) (system_rhs S) of
        None \<Rightarrow> Inl SolverFailed
      | Some u \<Rightarrow> Inr (S\<lparr>newton_update := constraints_distribute ex initial_step u\<rparr>))"

definition l2_norm :: "nat \<Rightarrow> vec \<Rightarrow> real" where
  "l2_norm n v = sqrt (\<Sum>i\<leftarrow>[0..<n]. v i * v i)"

text \<open>
  Lines 1418 to 1436 of the GLS solver: one pass of the body of the loop over \<^verbatim>\<open>alpha\<close>,
  up to the comparison; \<open>fs\<close> is the local \<^verbatim>\<open>first_step\<close>. The trial vector is written to
  \<^verbatim>\<open>present_solution\<close> in every pass. Of the three statements on \<^verbatim>\<open>last_vect\<close> the
  last one decides its value.
\<close>

definition line_search_trial ::
  "mesh \<Rightarrow> externals \<Rightarrow> bool \<Rightarrow> real \<Rightarrow> solver \<Rightarrow> error + solver" where
  "line_search_trial ms ex fs alpha S =
     (let S1 = S\<lparr>evaluation_point := present_solution S\<rparr>;
          S2 = S1\<lparr>evaluation_point := (\<lambda>i. evaluation_point S1 i + alpha * newton_update S1 i)\<rparr>;
          S3 = S2\<lparr>evaluation_point := constraints_distribute ex True (evaluation_point S2)\<rparr>;
          S4 = assemble_rhs ms ex fs S3
      in case sharp_edge_V2 ms fs S4 of
           Inl e \<Rightarrow> Inl e
         | Inr S5 \<Rightarrow>
            (let S6 = S5\<lparr>present_solution := evaluation_point S5\<rparr>
             in Inr (S6\<lparr>last_vect := present_solution S6\<rparr>)))"

text \<open>
  The local variables \<^verbatim>\<open>first_step\<close>, \<^verbatim>\<open>current_res\<close> and \<^verbatim>\<open>last_res\<close> of
  \<^verbatim>\<open>newton_iteration\<close>.
\<close>

record newton_locals =
  first_step :: bool
  current_res :: real
  last_res :: real

text \<open>Lines 1416 to 1445 of the GLS solver: \<^verbatim>\<open>for (double alpha = 1.0; alpha > 1e-3; alpha *= 0.5)\<close>.\<close>

function line_search ::
  "mesh \<Rightarrow> externals \<Rightarrow> real \<Rightarrow> newton_locals \<times> solver \<Rightarrow> error + newton_locals \<times> solver" where
  "line_search ms ex alpha (v, S) =
     (if alpha > 1 / 1000
      then (case line_search_trial ms ex (first_step v) alpha S of
              Inl e \<Rightarrow> Inl e
            | Inr S' \<Rightarrow>
               (let v' = v\<lparr>current_res := l2_norm (n_dofs ms) (system_rhs S')\<rparr>
                in if current_res v' < last_res v' then Inr (v', S')
                   else line_search ms ex (alpha * (1 / 2))
                          (v'\<lparr>last_res := current_res v'\<rparr>, S')))
      else Inr (v, S))"
  by pat_completeness auto
termination
proof (relation "measure (\<lambda>(ms, ex, alpha, st). nat \<lceil>alpha * 1000\<rceil>)")
  show "wf (measure (\<lambda>(ms, ex, alpha, st). nat \<lceil>alpha * 1000\<rceil>))" by simp
next
  fix ms :: mesh and ex :: externals and alpha :: real and v :: newton_locals
    and S x2 :: solver and xa :: newton_locals
  assume a: "1 / 1000 < alpha"
  define c where "c = \<lceil>alpha * 1000\<rceil>"
  have up: "alpha * 1000 \<le> of_int c" unfolding c_def by linarith
  have "1 < alpha * 1000" using a by simp
  then have "1 < c" unfolding c_def by linarith
  then have two: "(2::real) \<le> of_int c" by linarith
  have "alpha * (1 / 2) * 1000 \<le> of_int c - 1"
  proof (cases "alpha * 1000 \<le> 2")
    case True
    with two show ?thesis by linarith
  next
    case False
    with up show ?thesis by linarith
  qed
  then have "alpha * (1 / 2) * 1000 \<le> of_int (c - 1)" by simp
  then have "\<lceil>alpha * (1 / 2) * 1000\<rceil> \<le> \<lceil>alpha * 1000\<rceil> - 1"
    unfolding c_def by (simp only: ceiling_le_iff)
  moreover have "0 < \<lceil>alpha * 1000\<rceil>" using a by (simp add: less_ceiling_iff)
  ultimately show "((ms, ex, alpha * (1 / 2), xa\<lparr>last_res := current_res xa\<rparr>, x2),
                    (ms, ex, alpha, v, S)) \<in> measure (\<lambda>(ms, ex, alpha, st). nat \<lceil>alpha * 1000\<rceil>)"
    by simp
qed

declare line_search.simps [simp del]

text \<open>Lines 1390 to 1406 of the GLS solver: the branch for the first step.\<close>

definition newton_first_step ::
  "mesh \<Rightarrow> externals \<Rightarrow> newton_locals \<times> solver \<Rightarrow> error + newton_locals \<times> solver" where
  "newton_first_step ms ex st =
     (let v = fst st; S = snd st;
          S1 = initialize_system S;
          S2 = S1\<lparr>evaluation_point := present_solution S1\<rparr>;
          S3 = assemble_system ms ex (first_step v) S2
      in case sharp_edge_V2 ms (first_step v) S3 of
           Inl e \<Rightarrow> Inl e
         | Inr S4 \<Rightarrow>
            (let v1 = v\<lparr>current_res := l2_norm (n_dofs ms) (system_rhs S4)\<rparr>
             in case solve ex (first_step v1) S4 of
                  Inl e \<Rightarrow> Inl e
                | Inr S5 \<Rightarrow>
                   (let S6 = S5\<lparr>present_solution := newton_update S5\<rparr>;
                        S7 = S6\<lparr>present_solution :=
                                  constraints_distribute ex True (present_solution S6)\<rparr>;
                        v2 = v1\<lparr>first_step := False\<rparr>;
                        S8 = S7\<lparr>evaluation_point := present_solution S7\<rparr>;
                        S9 = assemble_rhs ms ex (first_step v2) S8;
                        v3 = v2\<lparr>current_res := l2_norm (n_dofs ms) (system_rhs S9)\<rparr>;
                        v4 = v3\<lparr>last_res := current_res v3\<rparr>
                    in Inr (v4, S9\<lparr>last_vect := present_solution S9\<rparr>))))"

text \<open>Lines 1410 to 1445 of the GLS solver: the branch for the later steps.\<close>

definition newton_later_step ::
  "mesh \<Rightarrow> externals \<Rightarrow> newton_locals \<times> solver \<Rightarrow> error + newton_locals \<times> solver" where
  "newton_later_step ms ex st =
     (let v = fst st; S = snd st;
          S1 = S\<lparr>evaluation_point := present_solution S\<rparr>;
          S2 = assemble_system ms ex (first_step v) S1
      in case sharp_edge_V2 ms (first_step v) S2 of
           Inl e \<Rightarrow> Inl e
         | Inr S3 \<Rightarrow>
            (let v1 = v\<lparr>current_res := l2_norm (n_dofs ms) (system_rhs S3)\<rparr>
             in case solve ex (first_step v1) S3 of
                  Inl e \<Rightarrow> Inl e
                | Inr S4 \<Rightarrow> line_search ms ex 1 (v1, S4)))"

text \<open>
  Lines 1386 to 1449 of the GLS solver: the outer loop. \<^verbatim>\<open>outer_iteration\<close> and
  \<^verbatim>\<open>max_iteration\<close> are \<^verbatim>\<open>unsigned int\<close>.
\<close>

function newton_loop ::
  "mesh \<Rightarrow> externals \<Rightarrow> real \<Rightarrow> 32 word \<Rightarrow> 32 word \<times> newton_locals \<times> solver
     \<Rightarrow> error + 32 word \<times> newton_locals \<times> solver" where
  "newton_loop ms ex tolerance max_iteration (outer_iteration, v, S) =
     (if (first_step v \<or> current_res v > tolerance) \<and> outer_iteration < max_iteration
      then (case (if first_step v then newton_first_step ms ex (v, S)
                  else newton_later_step ms ex (v, S)) of
              Inl e \<Rightarrow> Inl e
            | Inr st' \<Rightarrow> newton_loop ms ex tolerance max_iteration (outer_iteration + 1, st'))
      else Inr (outer_iteration, v, S))"
  by pat_completeness auto
termination
proof (relation "measure (\<lambda>(ms, ex, tolerance, max_iteration, outer_iteration, st).
                    unat max_iteration - unat outer_iteration)")
  show "wf (measure (\<lambda>(ms, ex, tolerance, max_iteration, outer_iteration, st).
                    unat max_iteration - unat outer_iteration))"
    by simp
next
  fix ms :: mesh and ex :: externals and tolerance :: real
    and max_iteration outer_iteration :: "32 word"
    and v :: newton_locals and S :: solver and st' :: "newton_locals \<times> solver"
  assume "(first_step v \<or> tolerance < current_res v) \<and> outer_iteration < max_iteration"
  then have lt: "outer_iteration < max_iteration" by simp
  then have below: "unat outer_iteration < unat max_iteration" by (simp add: word_less_nat_alt)
  have "unat max_iteration < 2 ^ 32"
    using unsigned_less [of max_iteration, where ?'a = nat] by simp
  with below have "unat outer_iteration + unat (1 :: 32 word) < 2 ^ LENGTH(32)" by simp
  then have "unat (outer_iteration + 1) = unat outer_iteration + unat (1 :: 32 word)"
    by (simp only: unat_add_lem)
  then have "unat (outer_iteration + 1) = Suc (unat outer_iteration)" by simp
  with below show "((ms, ex, tolerance, max_iteration, outer_iteration + 1, st'),
                    (ms, ex, tolerance, max_iteration, outer_iteration, v, S))
                   \<in> measure (\<lambda>(ms, ex, tolerance, max_iteration, outer_iteration, st).
                        unat max_iteration - unat outer_iteration)"
    by simp
qed

declare newton_loop.simps [simp del]

definition newton_iteration ::
  "mesh \<Rightarrow> externals \<Rightarrow> real \<Rightarrow> 32 word \<Rightarrow> bool \<Rightarrow> solver
     \<Rightarrow> error + 32 word \<times> newton_locals \<times> solver" where
  "newton_iteration ms ex tolerance max_iteration is_initial_step S =
     newton_loop ms ex tolerance max_iteration
       (0, \<lparr>first_step = is_initial_step, current_res = 1, last_res = 1\<rparr>, S)"

text \<open>
  Lines 1327 to 1342 of the direct solver: the loop over \<^verbatim>\<open>alpha\<close> there. Every trial
  starts from the unchanged \<^verbatim>\<open>present_solution\<close>, the test of the residual is commented
  out, and after the loop the last trial vector is taken.
\<close>

function direct_line_search ::
  "mesh \<Rightarrow> externals \<Rightarrow> real \<Rightarrow> newton_locals \<times> solver \<Rightarrow> newton_locals \<times> solver" where
  "direct_line_search ms ex alpha (v, S) =
     (if alpha > 1 / 1000
      then (let S1 = S\<lparr>evaluation_point := present_solution S\<rparr>;
                S2 = S1\<lparr>evaluation_point :=
                          (\<lambda>i. evaluation_point S1 i + alpha * newton_update S1 i)\<rparr>;
                S3 = S2\<lparr>evaluation_point :=
                          constraints_distribute ex True (evaluation_point S2)\<rparr>;
                S4 = assemble_rhs ms ex (first_step v) S3;
                v' = v\<lparr>current_res := l2_norm (n_dofs ms) (system_rhs S4)\<rparr>
            in direct_line_search ms ex (alpha * (1 / 2)) (v', S4))
      else (v, S))"
  by pat_completeness auto
termination
proof (relation "measure (\<lambda>(ms, ex, alpha, st). nat \<lceil>alpha * 1000\<rceil>)")
  show "wf (measure (\<lambda>(ms, ex, alpha, st). nat \<lceil>alpha * 1000\<rceil>))" by simp
next
  fix ms :: mesh and ex :: externals and alpha :: real and v :: newton_locals
    and S x xa xb xc :: solver and xd :: newton_locals
  assume a: "1 / 1000 < alpha"
  define c where "c = \<lceil>alpha * 1000\<rceil>"
  have up: "alpha * 1000 \<le> of_int c" unfolding c_def by linarith
  have "1 < alpha * 1000" using a by simp
  then have "1 < c" unfolding c_def by linarith
  then have two: "(2::real) \<le> of_int c" by linarith
  have "alpha * (1 / 2) * 1000 \<le> of_int c - 1"
  proof (cases "alpha * 1000 \<le> 2")
    case True
    with two show ?thesis by linarith
  next
    case False
    with up show ?thesis by linarith
  qed
  then have "alpha * (1 / 2) * 1000 \<le> of_int (c - 1)" by simp
  then have "\<lceil>alpha * (1 / 2) * 1000\<rceil> \<le> \<lceil>alpha * 1000\<rceil> - 1"
    unfolding c_def by (simp only: ceiling_le_iff)
  moreover have "0 < \<lceil>alpha * 1000\<rceil>" using a by (simp add: less_ceiling_iff)
  ultimately show "((ms, ex, alpha * (1 / 2), xd, xc), (ms, ex, alpha, v, S))
                   \<in> measure (\<lambda>(ms, ex, alpha, st). nat \<lceil>alpha * 1000\<rceil>)"
    by simp
qed

declare direct_line_search.simps [simp del]

definition direct_line_search_commit :: "newton_locals \<times> solver \<Rightarrow> newton_locals \<times> solver" where
  "direct_line_search_commit st =
     ((fst st)\<lparr>last_res := current_res (fst st)\<rparr>,
      (snd st)\<lparr>present_solution := evaluation_point (snd st)\<rparr>)"

section \<open>The line search in the words of the specification\<close>

text \<open>
  For comparison with the code. The residual norm at the trial iterate
  \<open>present_solution + \<alpha> \<delta>\<close>, with the constraints distributed and the residual
  reassembled there:
\<close>

definition spec_trial_residual :: "mesh \<Rightarrow> externals \<Rightarrow> solver \<Rightarrow> real \<Rightarrow> real" where
  "spec_trial_residual ms ex S alpha =
     l2_norm (n_dofs ms)
       (system_rhs (assemble_rhs ms ex False
          (S\<lparr>evaluation_point :=
               constraints_distribute ex True
                 (\<lambda>i. present_solution S i + alpha * newton_update S i)\<rparr>)))"

text \<open>
  The step lengths \<open>1, 1/2, 1/4, \<dots>\<close> down to \<open>10\<^sup>-\<^sup>3\<close>; the first one whose residual norm
  is below \<open>last_res\<close> is accepted, and \<open>10\<^sup>-\<^sup>3\<close> when there is none.
\<close>

function spec_accepted_alpha :: "(real \<Rightarrow> real) \<Rightarrow> real \<Rightarrow> real \<Rightarrow> real" where
  "spec_accepted_alpha residual_at last_res' alpha =
     (if alpha \<ge> 1 / 1000
      then (if residual_at alpha < last_res' then alpha
            else spec_accepted_alpha residual_at last_res' (alpha / 2))
      else 1 / 1000)"
  by pat_completeness auto
termination
proof (relation "measure (\<lambda>(residual_at, last_res', alpha). nat \<lceil>alpha * 2000\<rceil>)")
  show "wf (measure (\<lambda>(residual_at :: real \<Rightarrow> real, last_res' :: real, alpha :: real).
              nat \<lceil>alpha * 2000\<rceil>))"
    by simp
next
  fix residual_at :: "real \<Rightarrow> real" and last_res' alpha :: real
  assume a: "1 / 1000 \<le> alpha"
  define c where "c = \<lceil>alpha * 2000\<rceil>"
  have up: "alpha * 2000 \<le> of_int c" unfolding c_def by linarith
  have "2 \<le> alpha * 2000" using a by simp
  with up have "alpha / 2 * 2000 \<le> of_int c - 1" by linarith
  then have "alpha / 2 * 2000 \<le> of_int (c - 1)" by simp
  then have "\<lceil>alpha / 2 * 2000\<rceil> \<le> \<lceil>alpha * 2000\<rceil> - 1"
    unfolding c_def by (simp only: ceiling_le_iff)
  moreover have "0 < \<lceil>alpha * 2000\<rceil>" using a by (simp add: less_ceiling_iff)
  ultimately show "((residual_at, last_res', alpha / 2), (residual_at, last_res', alpha))
                   \<in> measure (\<lambda>(residual_at, last_res', alpha). nat \<lceil>alpha * 2000\<rceil>)"
    by simp
qed

declare spec_accepted_alpha.simps [simp del]

section \<open>Notions used to state the theorems\<close>

text \<open>The global dof whose row the loop body rewrites (\<^verbatim>\<open>global_index_overrigth\<close>).\<close>

definition overridden_dof :: "mesh \<Rightarrow> cell \<Rightarrow> nat \<Rightarrow> nat" where
  "overridden_dof ms c l = get_dof_indices ms c ! l"

text \<open>The columns that \<open>clear_row\<close> zeroes: the dofs of all the cells around the vertex.\<close>

definition cleared_columns :: "mesh \<Rightarrow> cell list \<Rightarrow> nat set" where
  "cleared_columns ms active_neighbors =
     (\<Union>c \<in> set active_neighbors. dof_index c ` {0..<dofs_per_cell ms})"

text \<open>
  The sum of the shape functions \<open>N\<^sub>n(\<xi>)\<close> of the stencil cell over the local dofs \<open>n\<close>
  of component \<open>k\<close> whose global number is \<open>m\<close>. In a mesh a cell has distinct global
  dofs, and the sum has at most one term.
\<close>

definition stencil_weight :: "mesh \<Rightarrow> cell \<Rightarrow> nat \<Rightarrow> point \<Rightarrow> nat \<Rightarrow> real" where
  "stencil_weight ms cell_2 k xi m =
     (\<Sum>n\<leftarrow>stride k (dofs_per_cell ms).
         if dof_index cell_2 n = m then shape_value ms n xi else 0)"

text \<open>One entry of the result of a loop body, \<open>None\<close> when it threw.\<close>

definition matrix_entry_of :: "error + solver \<Rightarrow> nat \<Rightarrow> nat \<Rightarrow> real option" where
  "matrix_entry_of result i j =
     (case result of Inl e \<Rightarrow> None | Inr S \<Rightarrow> Some (system_matrix S i j))"

definition rhs_entry_of :: "error + solver \<Rightarrow> nat \<Rightarrow> real option" where
  "rhs_entry_of result i = (case result of Inl e \<Rightarrow> None | Inr S \<Rightarrow> Some (system_rhs S i))"

text \<open>
  Two properties of a step \<open>f\<close> of the override, used in the proofs about whole passes.
  \<open>rhs_zeroing f\<close>: whether \<open>f\<close> throws does not depend on the state, and when it does not
  throw it sets a fixed set \<open>Z\<close> of entries of the right-hand side to zero and leaves the
  others. \<open>system_only f\<close>: \<open>f\<close> changes the matrix and the right-hand side only.
\<close>

definition rhs_zeroing :: "(solver \<Rightarrow> error + solver) \<Rightarrow> bool" where
  "rhs_zeroing f \<longleftrightarrow>
     (\<forall>S. \<exists>e. f S = Inl e)
     \<or> (\<exists>Z. \<forall>S. \<exists>S'. f S = Inr S'
                \<and> system_rhs S' = (\<lambda>j. if j \<in> Z then 0 else system_rhs S j))"

definition system_only :: "(solver \<Rightarrow> error + solver) \<Rightarrow> bool" where
  "system_only f \<longleftrightarrow>
     (\<forall>S S'. f S = Inr S' \<longrightarrow>
        S' = S\<lparr>system_matrix := system_matrix S', system_rhs := system_rhs S'\<rparr>)"

text \<open>\<^verbatim>\<open>sharp_edge_V2\<close> called twice in succession with the same argument.\<close>

definition sharp_edge_V2_twice :: "mesh \<Rightarrow> bool \<Rightarrow> solver \<Rightarrow> error + solver" where
  "sharp_edge_V2_twice ms initial_step S =
     (case sharp_edge_V2 ms initial_step S of
        Inl e \<Rightarrow> Inl e
      | Inr S1 \<Rightarrow> sharp_edge_V2 ms initial_step S1)"

section \<open>Concrete inputs\<close>

text \<open>
  A mesh of two rectangles side by side, \<open>A = [0.35, 0.47] \<times> [0, 0.36]\<close> and
  \<open>B = [0.47, 0.68] \<times> [0, 0.36]\<close>, with Q1/Q1 elements: six vertices, the velocity dofs
  \<open>2 v\<close> and \<open>2 v + 1\<close> and the pressure dof \<open>12 + v\<close> at vertex \<open>v\<close>. The members
  \<^verbatim>\<open>radius\<close> and \<^verbatim>\<open>couette\<close> are left open. The circle of radius \<open>0.21\<close> about
  \<open>(0.2, 0)\<close> cuts \<open>A\<close>: only its vertex \<open>(0.35, 0)\<close> is inside.
\<close>

definition demo_vertices :: "point list" where
  "demo_vertices = [(35 / 100, 0), (47 / 100, 0), (68 / 100, 0),
                    (35 / 100, 36 / 100), (47 / 100, 36 / 100), (68 / 100, 36 / 100)]"

definition demo_cell_A :: cell where
  "demo_cell_A = \<lparr>dof_index = (\<lambda>j. [0, 1, 12, 2, 3, 13, 6, 7, 15, 8, 9, 16] ! j),
                   vertex_index = (\<lambda>v. [0, 1, 3, 4] ! v),
                   transform_real_to_unit_cell =
                     (\<lambda>p. Some ((fst p - 35 / 100) / (12 / 100), snd p / (36 / 100)))\<rparr>"

definition demo_cell_B :: cell where
  "demo_cell_B = \<lparr>dof_index = (\<lambda>j. [2, 3, 13, 4, 5, 14, 8, 9, 16, 10, 11, 17] ! j),
                   vertex_index = (\<lambda>v. [1, 2, 4, 5] ! v),
                   transform_real_to_unit_cell =
                     (\<lambda>p. Some ((fst p - 47 / 100) / (21 / 100), snd p / (36 / 100)))\<rparr>"

text \<open>The bilinear shape functions of the unit square; local dof \<open>n\<close> sits at vertex \<open>n div 3\<close>.\<close>

definition q1_shape_value :: "nat \<Rightarrow> point \<Rightarrow> real" where
  "q1_shape_value n p =
     [(1 - fst p) * (1 - snd p), fst p * (1 - snd p), (1 - fst p) * snd p, fst p * snd p]
       ! (n div 3)"

definition demo_mesh :: "real \<Rightarrow> bool \<Rightarrow> mesh" where
  "demo_mesh r cou =
     \<lparr>active_cells = [demo_cell_A, demo_cell_B], dofs_per_cell = 12, n_dofs = 18,
      support_points = (\<lambda>j. demo_vertices ! (if j < 12 then j div 2 else j - 12)),
      vertices_to_cell =
        (\<lambda>v. [[demo_cell_A], [demo_cell_A, demo_cell_B], [demo_cell_B],
              [demo_cell_A], [demo_cell_A, demo_cell_B], [demo_cell_B]] ! v),
      find_active_cell_around_point =
        (\<lambda>p. if 35 / 100 \<le> fst p \<and> fst p \<le> 47 / 100 \<and> 0 \<le> snd p \<and> snd p \<le> 36 / 100
             then Some demo_cell_A
             else if 47 / 100 \<le> fst p \<and> fst p \<le> 68 / 100 \<and> 0 \<le> snd p \<and> snd p \<le> 36 / 100
             then Some demo_cell_B
             else None),
      shape_value = q1_shape_value,
      radius = r, radius_2 = 91 / 100, couette = cou\<rparr>"

text \<open>A system with the identity matrix and the right-hand side \<open>1\<close> everywhere.\<close>

definition demo_solver :: solver where
  "demo_solver =
     \<lparr>system_matrix = (\<lambda>i j. if i = j then 1 else 0), system_rhs = (\<lambda>i. 1),
      present_solution = (\<lambda>i. 0), newton_update = (\<lambda>i. 0), evaluation_point = (\<lambda>i. 0),
      last_vect = (\<lambda>i. 0)\<rparr>"

text \<open>The same with \<open>a\<close> on the diagonal.\<close>

definition scaled_solver :: "real \<Rightarrow> solver" where
  "scaled_solver a =
     \<lparr>system_matrix = (\<lambda>i j. if i = j then a else 0), system_rhs = (\<lambda>i. 1),
      present_solution = (\<lambda>i. 0), newton_update = (\<lambda>i. 0), evaluation_point = (\<lambda>i. 0),
      last_vect = (\<lambda>i. 0)\<rparr>"

text \<open>
  A problem with one unknown \<open>u\<close> on one cell away from the circles: the residual is
  \<open>2/5 - u\<close> and the assembled matrix is the number \<open>jac\<close>, so that the Newton update
  is \<open>(2/5 - u) / jac\<close>. With \<open>jac = 1\<close> the first step solves the problem; with
  \<open>jac = 2/5\<close> every full step overshoots.
\<close>

definition toy_cell :: cell where
  "toy_cell = \<lparr>dof_index = (\<lambda>j. 0), vertex_index = (\<lambda>v. 0),
                transform_real_to_unit_cell = (\<lambda>p. Some p)\<rparr>"

definition toy_mesh :: mesh where
  "toy_mesh =
     \<lparr>active_cells = [toy_cell], dofs_per_cell = 1, n_dofs = 1,
      support_points = (\<lambda>j. (1, 0)), vertices_to_cell = (\<lambda>v. [toy_cell]),
      find_active_cell_around_point = (\<lambda>p. Some toy_cell),
      shape_value = (\<lambda>n p. 1), radius = 21 / 100, radius_2 = 91 / 100, couette = False\<rparr>"

definition toy_externals :: "real \<Rightarrow> externals" where
  "toy_externals jac =
     \<lparr>cell_contribution = (\<lambda>assemble_matrix ev c. ((\<lambda>i j. jac), (\<lambda>i. 2 / 5 - ev 0))),
      distribute_local_to_global = (\<lambda>initial_step lm lr ldi M r.
         (mat_add M (ldi ! 0) (ldi ! 0) (lm 0 0), r(ldi ! 0 := r (ldi ! 0) + lr 0))),
      distribute_rhs_to_global = (\<lambda>initial_step lr ldi r. r(ldi ! 0 := r (ldi ! 0) + lr 0)),
      constraints_distribute = (\<lambda>nonzero u. u),
      direct_vmult = (\<lambda>M r. if M 0 0 = 0 then None else Some (\<lambda>i. r 0 / M 0 0))\<rparr>"

text \<open>
  The state of that problem with \<open>jac = 2/5\<close> on entry to the line search of the second
  Newton iteration: the iterate is \<open>1\<close>, its residual norm \<open>3/5\<close>, the update \<open>-3/2\<close>.
\<close>

definition toy_search_entry :: solver where
  "toy_search_entry =
     \<lparr>system_matrix = mat_add (\<lambda>i j. 0) 0 0 (2 / 5), system_rhs = (\<lambda>i. 0)(0 := - (3 / 5)),
      present_solution = (\<lambda>i. 1), newton_update = (\<lambda>i. - (3 / 2)),
      evaluation_point = (\<lambda>i. 1), last_vect = (\<lambda>i. 1)\<rparr>"

definition toy_solver :: solver where
  "toy_solver =
     \<lparr>system_matrix = (\<lambda>i j. 0), system_rhs = (\<lambda>i. 0), present_solution = (\<lambda>i. 0),
      newton_update = (\<lambda>i. 0), evaluation_point = (\<lambda>i. 0), last_vect = (\<lambda>i. 0)\<rparr>"

text \<open>
  A mesh of one rectangle, \<open>[0.2, 0.8] \<times> [0.25, 0.8]\<close>, with Q1/Q1 elements: the local
  and the global numbers of its twelve dofs agree, dof \<open>j\<close> sits at vertex \<open>j div 3\<close>. Seen
  from the centre \<open>(0.2, 0)\<close> of the GLS solver its vertices are at the distances \<open>0.25\<close>,
  \<open>0.65\<close>, \<open>0.8\<close> and \<open>1\<close>, the first of them straight above the centre. The members
  \<^verbatim>\<open>radius\<close>, \<^verbatim>\<open>radius_2\<close> and \<^verbatim>\<open>couette\<close> are left open.
\<close>

definition plate_vertices :: "point list" where
  "plate_vertices = [(1 / 5, 1 / 4), (4 / 5, 1 / 4), (1 / 5, 4 / 5), (4 / 5, 4 / 5)]"

definition plate_cell :: cell where
  "plate_cell = \<lparr>dof_index = (\<lambda>j. j), vertex_index = (\<lambda>v. v),
                  transform_real_to_unit_cell =
                    (\<lambda>p. Some ((fst p - 1 / 5) / (3 / 5), (snd p - 1 / 4) / (11 / 20)))\<rparr>"

definition plate_mesh :: "real \<Rightarrow> real \<Rightarrow> bool \<Rightarrow> mesh" where
  "plate_mesh r r2 cou =
     \<lparr>active_cells = [plate_cell], dofs_per_cell = 12, n_dofs = 12,
      support_points = (\<lambda>j. plate_vertices ! (j div 3)),
      vertices_to_cell = (\<lambda>v. [plate_cell]),
      find_active_cell_around_point =
        (\<lambda>p. if 1 / 5 \<le> fst p \<and> fst p \<le> 4 / 5 \<and> 1 / 4 \<le> snd p \<and> snd p \<le> 4 / 5
             then Some plate_cell else None),
      shape_value = q1_shape_value,
      radius = r, radius_2 = r2, couette = cou\<rparr>"

text \<open>
  A mesh for the direct solver, whose circles are about the origin: three quadrilaterals
  in the first quadrant between the chords \<open>x + y = 0.05\<close>, \<open>0.15\<close>, \<open>0.27\<close> and \<open>0.48\<close>,
  with Q1/Q1 elements. The vertices \<open>0, \<dots>, 3\<close> are on the y-axis and \<open>4, \<dots>, 7\<close> on the
  x-axis, at these distances from the origin; the velocity dofs at vertex \<open>v\<close> are \<open>2 v\<close>
  and \<open>2 v + 1\<close>, the pressure dof is \<open>16 + v\<close>. The cell between the chords \<open>a < b\<close> has
  the vertices \<open>(0, b)\<close>, \<open>(0, a)\<close>, \<open>(b, 0)\<close>, \<open>(a, 0)\<close> in this order, and its bilinear
  map \<open>(\<xi>, \<eta>) \<mapsto> (b - \<xi> (b - a)) (\<eta>, 1 - \<eta>)\<close> has the inverse given below. The circle of
  radius \<open>0.21\<close> cuts the middle cell only, and all vertices are inside the circle of
  radius \<open>0.91\<close>. The smallest cell diameter is the diagonal \<open>\<surd>(1/40)\<close> of the innermost
  cell.
\<close>

definition sector_vertices :: "point list" where
  "sector_vertices = [(0, 1 / 20), (0, 3 / 20), (0, 27 / 100), (0, 12 / 25),
                      (1 / 20, 0), (3 / 20, 0), (27 / 100, 0), (12 / 25, 0)]"

definition sector_cell :: "nat list \<Rightarrow> real \<Rightarrow> real \<Rightarrow> cell" where
  "sector_cell vs a b =
     \<lparr>dof_index = (\<lambda>j. (if j mod 3 = 2 then 16 + vs ! (j div 3)
                          else 2 * (vs ! (j div 3)) + j mod 3)),
      vertex_index = (\<lambda>v. vs ! v),
      transform_real_to_unit_cell =
        (\<lambda>p. Some ((b - (fst p + snd p)) / (b - a), fst p / (fst p + snd p)))\<rparr>"

definition sector_cell_I :: cell where
  "sector_cell_I = sector_cell [1, 0, 5, 4] (1 / 20) (3 / 20)"

definition sector_cell_A :: cell where
  "sector_cell_A = sector_cell [2, 1, 6, 5] (3 / 20) (27 / 100)"

definition sector_cell_O :: cell where
  "sector_cell_O = sector_cell [3, 2, 7, 6] (27 / 100) (12 / 25)"

definition sector_mesh :: mesh where
  "sector_mesh =
     \<lparr>active_cells = [sector_cell_I, sector_cell_A, sector_cell_O],
      dofs_per_cell = 12, n_dofs = 24,
      support_points = (\<lambda>j. sector_vertices ! (if j < 16 then j div 2 else j - 16)),
      vertices_to_cell =
        (\<lambda>v. [[sector_cell_I], [sector_cell_I, sector_cell_A], [sector_cell_A, sector_cell_O],
              [sector_cell_O],
              [sector_cell_I], [sector_cell_I, sector_cell_A], [sector_cell_A, sector_cell_O],
              [sector_cell_O]] ! v),
      find_active_cell_around_point =
        (\<lambda>p. if 0 \<le> fst p \<and> 0 \<le> snd p \<and> 1 / 20 \<le> fst p + snd p \<and> fst p + snd p \<le> 3 / 20
             then Some sector_cell_I
             else if 0 \<le> fst p \<and> 0 \<le> snd p \<and> 3 / 20 \<le> fst p + snd p
                     \<and> fst p + snd p \<le> 27 / 100
             then Some sector_cell_A
             else if 0 \<le> fst p \<and> 0 \<le> snd p \<and> 27 / 100 \<le> fst p + snd p
                     \<and> fst p + snd p \<le> 12 / 25
             then Some sector_cell_O
             else None),
      shape_value = q1_shape_value,
      radius = 21 / 100, radius_2 = 91 / 100, couette = True\<rparr>"

section \<open>Helper facts\<close>

lemma sqrt_two_squares: "0 \<le> d \<Longrightarrow> sqrt (2 * (d * d)) = sqrt 2 * d"
  by (simp add: real_sqrt_mult)

lemma quotient_by_sqrt_two: "0 < d \<Longrightarrow> (d * d) / sqrt (2 * (d * d)) = d / sqrt 2"
  by (simp add: sqrt_two_squares)

lemma two_over_sqrt_two: "2 / sqrt 2 = sqrt (2::real)"
  by (simp add: real_div_sqrt)

lemma pnorm_on_axis: "pnorm (a, 0) = \<bar>a\<bar>"
  by (simp add: pnorm_def)

lemma equal_area_disc: "0 \<le> m \<Longrightarrow> pi * (element_size 2 m h0 / 2) ^ 2 = m"
  by (simp add: element_size_def power2_eq_square field_simps)

lemma cube_root_cubed: "0 < x \<Longrightarrow> (x powr (1 / 3)) ^ 3 = (x::real)"
  by (simp add: powr_power)

lemma equal_volume_ball:
  assumes m: "0 < m"
  shows "4 / 3 * pi * (element_size 3 m h0 / 2) ^ 3 = m"
proof -
  have p: "0 < 6 * m / pi" using m by simp
  have "((6 * m / pi) powr (1 / 3)) ^ 3 = 6 * m / pi" using p by (rule cube_root_cubed)
  then have "4 / 3 * pi * ((6 * m / pi) powr (1 / 3) / 2) ^ 3 = 4 / 3 * pi * ((6 * m / pi) / 8)"
    by (simp add: power_divide)
  also have "\<dots> = m" by simp
  finally show ?thesis by (simp add: element_size_def)
qed

lemmas point_ops = padd_def psub_def pscale_def pdiv_def

lemma stride_below: "n \<in> set (stride k sz) \<Longrightarrow> n < sz"
proof (induction k sz rule: stride.induct)
  case (1 k sz)
  show ?case
  proof (cases "k < sz")
    case True
    from "1.prems" True
    have "n = k \<or> n \<in> set (stride (if k < (dim + 1) * 4 then k + dim + 1 else k + dim) sz)"
      by (subst (asm) stride.simps) simp
    with True "1.IH" show ?thesis by auto
  next
    case False
    with "1.prems" show ?thesis by (subst (asm) stride.simps) simp
  qed
qed

lemma stride_distinct_increasing: "n \<in> set (stride k sz) \<Longrightarrow> k \<le> n"
proof (induction k sz rule: stride.induct)
  case (1 k sz)
  show ?case
  proof (cases "k < sz")
    case True
    from "1.prems" True
    have "n = k \<or> n \<in> set (stride (if k < (dim + 1) * 4 then k + dim + 1 else k + dim) sz)"
      by (subst (asm) stride.simps) simp
    with True "1.IH" show ?thesis by (auto split: if_splits)
  next
    case False
    with "1.prems" show ?thesis by (subst (asm) stride.simps) simp
  qed
qed

lemma get_dof_indices_nth: "n < dofs_per_cell ms \<Longrightarrow> get_dof_indices ms c ! n = dof_index c n"
  by (simp add: get_dof_indices_def)

lemma length_get_dof_indices: "length (get_dof_indices ms c) = dofs_per_cell ms"
  by (simp add: get_dof_indices_def)

lemma mat_set_apply: "mat_set M i j v a b = (if a = i \<and> b = j then v else M a b)"
  by (simp add: mat_set_def)

lemma mat_add_apply: "mat_add M i j v a b = (if a = i \<and> b = j then M a b + v else M a b)"
  by (simp add: mat_add_def)

lemma fold_mat_add_entry:
  "fold (\<lambda>n M. mat_add M i (f n) (g n)) ns M a b
     = (if a = i then M a b + (\<Sum>n\<leftarrow>ns. if f n = b then g n else 0) else M a b)"
proof (induction ns arbitrary: M)
  case Nil
  show ?case by simp
next
  case (Cons n ns)
  have "fold (\<lambda>n M. mat_add M i (f n) (g n)) (n # ns) M a b
          = fold (\<lambda>n M. mat_add M i (f n) (g n)) ns (mat_add M i (f n) (g n)) a b"
    by simp
  also have "\<dots> = (if a = i
                     then mat_add M i (f n) (g n) a b + (\<Sum>n\<leftarrow>ns. if f n = b then g n else 0)
                     else mat_add M i (f n) (g n) a b)"
    by (rule Cons.IH)
  also have "\<dots> = (if a = i then M a b + (\<Sum>n\<leftarrow>n # ns. if f n = b then g n else 0)
                     else M a b)"
    by (simp add: mat_add_apply)
  finally show ?case .
qed

lemma fold_mat_set_zero_entry:
  "fold (\<lambda>n M. mat_set M i (f n) 0) ns M a b
     = (if a = i \<and> b \<in> f ` set ns then 0 else M a b)"
proof (induction ns arbitrary: M)
  case Nil
  show ?case by simp
next
  case (Cons n ns)
  have "fold (\<lambda>n M. mat_set M i (f n) 0) (n # ns) M a b
          = fold (\<lambda>n M. mat_set M i (f n) 0) ns (mat_set M i (f n) 0) a b"
    by simp
  also have "\<dots> = (if a = i \<and> b \<in> f ` set ns then 0 else mat_set M i (f n) 0 a b)"
    by (rule Cons.IH)
  also have "\<dots> = (if a = i \<and> b \<in> f ` set (n # ns) then 0 else M a b)"
    by (auto simp: mat_set_apply)
  finally show ?case .
qed

lemma clear_cell_entry:
  "fold (\<lambda>oo M. mat_set M i (get_dof_indices ms c ! oo) 0) [0..<dofs_per_cell ms] M a b
     = (if a = i \<and> b \<in> dof_index c ` {0..<dofs_per_cell ms} then 0 else M a b)"
proof -
  have "(\<lambda>oo. get_dof_indices ms c ! oo) ` set [0..<dofs_per_cell ms]
          = dof_index c ` {0..<dofs_per_cell ms}"
    by (auto simp: get_dof_indices_nth image_iff)
  then show ?thesis by (simp only: fold_mat_set_zero_entry)
qed

lemma clear_row_entry:
  "clear_row ms active_neighbors i M a b
     = (if a = i \<and> b \<in> cleared_columns ms active_neighbors then 0 else M a b)"
proof (induction active_neighbors arbitrary: M)
  case Nil
  show ?case by (simp add: clear_row_def cleared_columns_def)
next
  case (Cons c cs)
  define M1 where
    "M1 = fold (\<lambda>oo M. mat_set M i (get_dof_indices ms c ! oo) 0) [0..<dofs_per_cell ms] M"
  have "clear_row ms (c # cs) i M a b = clear_row ms cs i M1 a b"
    by (simp add: clear_row_def M1_def)
  also have "\<dots> = (if a = i \<and> b \<in> cleared_columns ms cs then 0 else M1 a b)"
    by (rule Cons.IH)
  also have "\<dots> = (if a = i \<and> b \<in> cleared_columns ms (c # cs) then 0 else M a b)"
    unfolding M1_def by (auto simp: clear_cell_entry cleared_columns_def)
  finally show ?case .
qed

lemma stencil_sum:
  "(\<Sum>n\<leftarrow>stride k (dofs_per_cell ms).
      if get_dof_indices ms cell_2 ! n = b then shape_value ms n xi / (1 / sum_line) else 0)
   = sum_line * stencil_weight ms cell_2 k xi b"
proof -
  have "(\<Sum>n\<leftarrow>stride k (dofs_per_cell ms).
           if get_dof_indices ms cell_2 ! n = b then shape_value ms n xi / (1 / sum_line) else 0)
        = (\<Sum>n\<leftarrow>stride k (dofs_per_cell ms).
           sum_line * (if dof_index cell_2 n = b then shape_value ms n xi else 0))"
    by (rule arg_cong [where f = sum_list], rule map_cong)
       (auto simp: get_dof_indices_nth dest: stride_below)
  then show ?thesis by (simp only: stencil_weight_def sum_list_const_mult)
qed

lemma add_stencil_entry:
  "add_stencil ms k (get_dof_indices ms cell_2) xi sum_line i M a b
     = (if a = i then M a b + sum_line * stencil_weight ms cell_2 k xi b else M a b)"
  unfolding add_stencil_def length_get_dof_indices
  by (simp only: fold_mat_add_entry stencil_sum)

lemma find_cell_bound:
  "cs \<noteq> [] \<Longrightarrow> find_cell cs p j = 0 \<or> (j \<le> find_cell cs p j \<and> find_cell cs p j < j + length cs)"
proof (induction cs arbitrary: j)
  case Nil
  then show ?case by simp
next
  case (Cons c cs)
  show ?case
  proof (cases cs)
    case Nil
    then show ?thesis by (auto split: option.splits)
  next
    case (Cons d ds)
    then have "cs \<noteq> []" by simp
    from Cons.IH [OF this, of "Suc j"] show ?thesis
      by (auto split: option.splits)
  qed
qed

lemma stencil_cell_member: "stencil_cell cs p = Inr cell_2 \<Longrightarrow> cell_2 \<in> set cs"
  by (auto simp: stencil_cell_def Let_def split: if_splits)

lemma stencil_dofs_cleared:
  "cell_2 \<in> set cs \<Longrightarrow> n < dofs_per_cell ms \<Longrightarrow> dof_index cell_2 n \<in> cleared_columns ms cs"
  by (auto simp: cleared_columns_def intro!: bexI [of _ cell_2])

lemma rewrite_row_small_unfold:
  assumes cell_2: "stencil_cell (neighbours ms c l)
                     (second_point_small (radius ms) (support_points ms (overridden_dof ms c l)))
                   = Inr cell_2"
    and xi: "transform_real_to_unit_cell cell_2
               (second_point_small (radius ms) (support_points ms (overridden_dof ms c l)))
             = Some xi"
  shows "rewrite_row_small ms initial_step c k l S =
    Inr (S\<lparr>system_matrix :=
             (if pnorm (vect_dist_small (radius ms) (support_points ms (overridden_dof ms c l))) \<noteq> 0
              then add_stencil ms k (get_dof_indices ms cell_2) xi
                     (system_matrix S (overridden_dof ms c l) (overridden_dof ms c l))
                     (overridden_dof ms c l)
                     (mat_set (clear_row ms (neighbours ms c l) (overridden_dof ms c l) (system_matrix S))
                        (overridden_dof ms c l) (overridden_dof ms c l)
                        (- 2 / (1 / system_matrix S (overridden_dof ms c l) (overridden_dof ms c l))))
              else mat_set (clear_row ms (neighbours ms c l) (overridden_dof ms c l) (system_matrix S))
                     (overridden_dof ms c l) (overridden_dof ms c l)
                     (system_matrix S (overridden_dof ms c l) (overridden_dof ms c l))),
           system_rhs := (system_rhs S)(overridden_dof ms c l :=
             (if couette ms \<and> initial_step
              then boundary_value k (unit_normal center_immersed (support_points ms (overridden_dof ms c l)))
                     / (1 / system_matrix S (overridden_dof ms c l) (overridden_dof ms c l))
              else 0))\<rparr>)"
  using cell_2 xi
  by (simp add: rewrite_row_small_def Let_def overridden_dof_def second_point_small_def)

lemma small_matrix_row:
  assumes run: "rewrite_row_small ms initial_step c k l S = Inr S'"
    and cell_2: "stencil_cell (neighbours ms c l)
                     (second_point_small (radius ms) (support_points ms (overridden_dof ms c l)))
                   = Inr cell_2"
    and xi: "transform_real_to_unit_cell cell_2
               (second_point_small (radius ms) (support_points ms (overridden_dof ms c l)))
             = Some xi"
    and d: "pnorm (vect_dist_small (radius ms) (support_points ms (overridden_dof ms c l))) \<noteq> 0"
  shows "system_matrix S' (overridden_dof ms c l) b
         = (if b = overridden_dof ms c l
            then - 2 * system_matrix S (overridden_dof ms c l) (overridden_dof ms c l)
            else if b \<in> cleared_columns ms (neighbours ms c l) then 0
            else system_matrix S (overridden_dof ms c l) b)
           + system_matrix S (overridden_dof ms c l) (overridden_dof ms c l)
             * stencil_weight ms cell_2 k xi b"
proof -
  have "S' = S\<lparr>system_matrix :=
             add_stencil ms k (get_dof_indices ms cell_2) xi
                     (system_matrix S (overridden_dof ms c l) (overridden_dof ms c l))
                     (overridden_dof ms c l)
                     (mat_set (clear_row ms (neighbours ms c l) (overridden_dof ms c l) (system_matrix S))
                        (overridden_dof ms c l) (overridden_dof ms c l)
                        (- 2 / (1 / system_matrix S (overridden_dof ms c l) (overridden_dof ms c l)))),
           system_rhs := (system_rhs S)(overridden_dof ms c l :=
             (if couette ms \<and> initial_step
              then boundary_value k (unit_normal center_immersed (support_points ms (overridden_dof ms c l)))
                     / (1 / system_matrix S (overridden_dof ms c l) (overridden_dof ms c l))
              else 0))\<rparr>"
    using run d unfolding rewrite_row_small_unfold [OF cell_2 xi] by simp
  then show ?thesis
    by (simp add: add_stencil_entry mat_set_apply clear_row_entry)
qed

lemma sum_list_single:
  "distinct xs \<Longrightarrow> n \<in> set xs \<Longrightarrow> (\<Sum>j\<leftarrow>xs. if n = j then f j else (0::real)) = f n"
proof (induction xs)
  case Nil
  then show ?case by simp
next
  case (Cons x xs)
  show ?case
  proof (cases "n = x")
    case True
    with Cons.prems have "n \<notin> set xs" by simp
    then have "(\<Sum>j\<leftarrow>xs. if n = j then f j else 0) = 0"
      by (induction xs) auto
    with True show ?thesis by simp
  next
    case False
    with Cons show ?thesis by simp
  qed
qed

lemma distinct_stride: "distinct (stride k sz)"
proof (induction k sz rule: stride.induct)
  case (1 k sz)
  show ?case
  proof (cases "k < sz")
    case True
    define k' where "k' = (if k < (dim + 1) * 4 then k + dim + 1 else k + dim)"
    have gt: "k < k'" by (simp add: k'_def dim_def)
    have eq: "stride k sz = k # stride k' sz"
      using True by (subst stride.simps) (simp add: k'_def)
    have "k \<notin> set (stride k' sz)"
      using stride_distinct_increasing [of k k' sz] gt by auto
    moreover have "distinct (stride k' sz)"
      using "1.IH" True by (simp add: k'_def)
    ultimately show ?thesis by (simp add: eq)
  next
    case False
    then show ?thesis by (subst stride.simps) simp
  qed
qed

lemma stencil_weight_single:
  assumes inj: "inj_on (dof_index cell_2) {0..<dofs_per_cell ms}"
    and n: "n \<in> set (stride k (dofs_per_cell ms))"
  shows "stencil_weight ms cell_2 k xi (dof_index cell_2 n) = shape_value ms n xi"
proof -
  have "(\<Sum>j\<leftarrow>stride k (dofs_per_cell ms).
           if dof_index cell_2 j = dof_index cell_2 n then shape_value ms j xi else 0)
        = (\<Sum>j\<leftarrow>stride k (dofs_per_cell ms). if n = j then shape_value ms j xi else 0)"
  proof (rule arg_cong [where f = sum_list], rule map_cong)
    fix j assume "j \<in> set (stride k (dofs_per_cell ms))"
    then have "j < dofs_per_cell ms" by (rule stride_below)
    moreover have "n < dofs_per_cell ms" using n by (rule stride_below)
    ultimately have "dof_index cell_2 j = dof_index cell_2 n \<longleftrightarrow> n = j"
      using inj by (auto simp: inj_on_def)
    then show "(if dof_index cell_2 j = dof_index cell_2 n then shape_value ms j xi else 0)
               = (if n = j then shape_value ms j xi else 0)"
      by simp
  qed simp
  also have "\<dots> = shape_value ms n xi"
    using distinct_stride n by (rule sum_list_single)
  finally show ?thesis by (simp add: stencil_weight_def)
qed

lemma assemble_cell_frame:
  "assemble_cell ms ex initial_step False c S
     = S\<lparr>system_rhs := system_rhs (assemble_cell ms ex initial_step False c S)\<rparr>"
  by (simp add: assemble_cell_def Let_def split: prod.split)

lemma fold_assemble_cell_frame:
  "\<exists>r. fold (assemble_cell ms ex initial_step False) cs S = S\<lparr>system_rhs := r\<rparr>"
proof (induction cs arbitrary: S)
  case Nil
  have "S = S\<lparr>system_rhs := system_rhs S\<rparr>" by simp
  then show ?case by (metis fold_simps(1))
next
  case (Cons c cs)
  obtain r where r: "fold (assemble_cell ms ex initial_step False) cs
                       (assemble_cell ms ex initial_step False c S)
                     = (assemble_cell ms ex initial_step False c S)\<lparr>system_rhs := r\<rparr>"
    using Cons.IH by blast
  have "(assemble_cell ms ex initial_step False c S)\<lparr>system_rhs := r\<rparr> = S\<lparr>system_rhs := r\<rparr>"
    by (subst assemble_cell_frame) simp
  with r show ?case by auto
qed

lemma unat_succ_below:
  fixes i m :: "32 word"
  assumes "i < m" shows "unat (i + 1) = Suc (unat i)"
proof -
  have "unat i < unat m" using assms by (simp add: word_less_nat_alt)
  moreover have "unat m < 2 ^ 32" using unsigned_less [of m, where ?'a = nat] by simp
  ultimately have "unat i + unat (1 :: 32 word) < 2 ^ LENGTH(32)" by simp
  then have "unat (i + 1) = unat i + unat (1 :: 32 word)" by (simp only: unat_add_lem)
  then show ?thesis by simp
qed

lemma newton_loop_exit:
  "newton_loop ms ex tol mx st0 = Inr (it, v, S') \<Longrightarrow> fst st0 \<le> mx \<Longrightarrow>
     fst st0 \<le> it \<and> it \<le> mx \<and> \<not> ((first_step v \<or> current_res v > tol) \<and> it < mx)"
proof (induction ms ex tol mx st0 rule: newton_loop.induct)
  case (1 ms ex tolerance max_iteration outer_iteration v0 S)
  show ?case
  proof (cases "(first_step v0 \<or> current_res v0 > tolerance) \<and> outer_iteration < max_iteration")
    case False
    with "1.prems"(1) have "(it, v, S') = (outer_iteration, v0, S)"
      by (subst (asm) newton_loop.simps) simp
    with False "1.prems"(2) show ?thesis by auto
  next
    case True
    then obtain st' where
      body: "(if first_step v0 then newton_first_step ms ex (v0, S)
              else newton_later_step ms ex (v0, S)) = Inr st'"
      and rec: "newton_loop ms ex tolerance max_iteration (outer_iteration + 1, st') = Inr (it, v, S')"
      using "1.prems"(1) by (subst (asm) newton_loop.simps) (auto split: sum.splits if_splits)
    from True have lt: "outer_iteration < max_iteration" by simp
    then have le: "outer_iteration + 1 \<le> max_iteration" by (rule inc_le)
    have "outer_iteration \<le> outer_iteration + 1"
      using unat_succ_below [OF lt] by (simp add: word_le_nat_alt)
    moreover have "fst (outer_iteration + 1, st') \<le> it \<and> it \<le> max_iteration
        \<and> \<not> ((first_step v \<or> current_res v > tolerance) \<and> it < max_iteration)"
      using "1.IH" [OF True body rec] le by simp
    ultimately show ?thesis by auto
  qed
qed

subsection \<open>The one-unknown problem, evaluated\<close>

lemma toy_no_cut: "sharp_edge_V2 toy_mesh fs S = Inr S"
  by (simp add: sharp_edge_V2_def override_cell_def toy_mesh_def get_dof_indices_def
      count_inside_def center_immersed_def psub_def pnorm_on_axis)

lemma toy_assemble_rhs:
  "assemble_rhs toy_mesh (toy_externals jac) fs S
     = S\<lparr>system_rhs := (\<lambda>i. 0)(0 := 2 / 5 - evaluation_point S 0)\<rparr>"
  by (simp add: assemble_rhs_def assemble_def assemble_cell_def toy_mesh_def toy_externals_def
      get_dof_indices_def toy_cell_def)

lemma toy_assemble_system:
  "assemble_system toy_mesh (toy_externals jac) fs S
     = S\<lparr>system_matrix := mat_add (\<lambda>i j. 0) 0 0 jac,
         system_rhs := (\<lambda>i. 0)(0 := 2 / 5 - evaluation_point S 0)\<rparr>"
  by (simp add: assemble_system_def assemble_def assemble_cell_def toy_mesh_def toy_externals_def
      get_dof_indices_def toy_cell_def)

lemma toy_norm: "l2_norm (n_dofs toy_mesh) r = \<bar>r 0\<bar>"
  by (simp add: l2_norm_def toy_mesh_def)

lemma toy_solve:
  "solve (toy_externals jac) fs S =
     (if system_matrix S 0 0 = 0 then Inl SolverFailed
      else Inr (S\<lparr>newton_update := (\<lambda>i. system_rhs S 0 / system_matrix S 0 0)\<rparr>))"
  by (simp add: solve_def toy_externals_def)

lemma toy_distribute: "constraints_distribute (toy_externals jac) nonzero u = u"
  by (simp add: toy_externals_def)

lemmas toy_simps = toy_no_cut toy_assemble_rhs toy_assemble_system toy_norm toy_solve
  toy_distribute

lemma toy_first_step:
  "newton_first_step toy_mesh (toy_externals 1)
     (\<lparr>first_step = True, current_res = 1, last_res = 1\<rparr>, toy_solver)
   = Inr (\<lparr>first_step = False, current_res = 0, last_res = 0\<rparr>,
          \<lparr>system_matrix = mat_add (\<lambda>i j. 0) 0 0 1, system_rhs = (\<lambda>i. 0)(0 := 0),
           present_solution = (\<lambda>i. 2 / 5), newton_update = (\<lambda>i. 2 / 5),
           evaluation_point = (\<lambda>i. 2 / 5), last_vect = (\<lambda>i. 2 / 5)\<rparr>)"
  by (simp add: newton_first_step_def toy_simps Let_def initialize_system_def mat_add_def
      toy_solver_def)

lemma toy_newton_iteration:
  "newton_iteration toy_mesh (toy_externals 1) (1 / 10 ^ 6) 3 True toy_solver
   = Inr (1, \<lparr>first_step = False, current_res = 0, last_res = 0\<rparr>,
          \<lparr>system_matrix = mat_add (\<lambda>i j. 0) 0 0 1, system_rhs = (\<lambda>i. 0)(0 := 0),
           present_solution = (\<lambda>i. 2 / 5), newton_update = (\<lambda>i. 2 / 5),
           evaluation_point = (\<lambda>i. 2 / 5), last_vect = (\<lambda>i. 2 / 5)\<rparr>)"
  unfolding newton_iteration_def
  by (subst newton_loop.simps, simp add: toy_first_step, subst newton_loop.simps, simp)

subsection \<open>Rows of the other passes\<close>

lemma rewrite_row_large_unfold:
  assumes cell_2: "stencil_cell (neighbours ms c l)
                     (second_point_large (radius_2 ms) (support_points ms (overridden_dof ms c l)))
                   = Inr cell_2"
    and xi: "transform_real_to_unit_cell cell_2
               (second_point_large (radius_2 ms) (support_points ms (overridden_dof ms c l)))
             = Some xi"
  shows "rewrite_row_large ms c k l S =
    Inr (S\<lparr>system_matrix :=
             add_stencil ms k (get_dof_indices ms cell_2) xi
               (system_matrix S (overridden_dof ms c l) (overridden_dof ms c l))
               (overridden_dof ms c l)
               (mat_set (clear_row ms (neighbours ms c l) (overridden_dof ms c l) (system_matrix S))
                  (overridden_dof ms c l) (overridden_dof ms c l)
                  (- 2 / (1 / system_matrix S (overridden_dof ms c l) (overridden_dof ms c l)))),
           system_rhs := (system_rhs S)(overridden_dof ms c l := 0)\<rparr>)"
  using cell_2 xi
  by (simp add: rewrite_row_large_def Let_def overridden_dof_def second_point_large_def)

lemma rewrite_row_small_rhs:
  assumes "rewrite_row_small ms initial_step c k l S = Inr S'"
  shows "system_rhs S' = (system_rhs S)(overridden_dof ms c l :=
           (if couette ms \<and> initial_step
            then system_matrix S (overridden_dof ms c l) (overridden_dof ms c l)
                 * boundary_value k (unit_normal center_immersed
                                       (support_points ms (overridden_dof ms c l)))
            else 0))"
  using assms
  by (auto simp: rewrite_row_small_def Let_def overridden_dof_def
      split: sum.splits option.splits if_splits)

lemma rewrite_row_large_rhs:
  assumes "rewrite_row_large ms c k l S = Inr S'"
  shows "system_rhs S' = (system_rhs S)(overridden_dof ms c l := 0)"
  using assms
  by (auto simp: rewrite_row_large_def Let_def overridden_dof_def
      split: sum.splits option.splits)

lemma clear_whole_row_entry:
  "clear_whole_row ms i M a b = (if a = i \<and> b < n_dofs ms then 0 else M a b)"
  unfolding clear_whole_row_def by (simp add: fold_mat_set_zero_entry)

lemma direct_stencil_sum:
  "(\<Sum>n\<leftarrow>stride k (dofs_per_cell ms).
      if get_dof_indices ms cell_2 ! n = b then shape_value ms n xi / dd else 0)
   = stencil_weight ms cell_2 k xi b / dd"
proof -
  have "(\<Sum>n\<leftarrow>stride k (dofs_per_cell ms).
           if get_dof_indices ms cell_2 ! n = b then shape_value ms n xi / dd else 0)
        = (\<Sum>n\<leftarrow>stride k (dofs_per_cell ms).
           (1 / dd) * (if dof_index cell_2 n = b then shape_value ms n xi else 0))"
    by (rule arg_cong [where f = sum_list], rule map_cong)
       (auto simp: get_dof_indices_nth dest: stride_below)
  then show ?thesis by (simp only: stencil_weight_def sum_list_const_mult) simp
qed

lemma direct_add_stencil_entry:
  "direct_add_stencil ms k (get_dof_indices ms cell_2) xi d i M a b
     = (if a = i then M a b + stencil_weight ms cell_2 k xi b / (d * d) else M a b)"
  unfolding direct_add_stencil_def length_get_dof_indices
  by (simp only: fold_mat_add_entry direct_stencil_sum)

lemma direct_dist: "sqrt (snd v * snd v + fst v * fst v) = pnorm v"
  by (simp add: pnorm_def add.commute)

lemma direct_rewrite_row_small_unfold:
  assumes cell_2: "find_active_cell_around_point ms
                     (direct_second_point direct_radius (support_points ms (overridden_dof ms c l)))
                   = Some cell_2"
    and xi: "transform_real_to_unit_cell cell_2
               (direct_second_point direct_radius (support_points ms (overridden_dof ms c l)))
             = Some xi"
  shows "direct_rewrite_row_small ms c k l S =
    Inr (S\<lparr>system_matrix :=
             direct_add_stencil ms k (get_dof_indices ms cell_2) xi
               (pnorm (direct_vect_dist direct_radius (support_points ms (overridden_dof ms c l))))
               (overridden_dof ms c l)
               (mat_set (clear_whole_row ms (overridden_dof ms c l) (system_matrix S))
                  (overridden_dof ms c l) (overridden_dof ms c l)
                  (- 2 / (pnorm (direct_vect_dist direct_radius
                                   (support_points ms (overridden_dof ms c l)))
                          * pnorm (direct_vect_dist direct_radius
                                   (support_points ms (overridden_dof ms c l)))))),
           system_rhs := (system_rhs S)(overridden_dof ms c l :=
              boundary_value k (unit_normal direct_center_immersed
                                  (support_points ms (overridden_dof ms c l)))
              / (pnorm (direct_vect_dist direct_radius (support_points ms (overridden_dof ms c l)))
                 * pnorm (direct_vect_dist direct_radius
                            (support_points ms (overridden_dof ms c l)))))\<rparr>)"
  using cell_2 xi
  by (simp add: direct_rewrite_row_small_def Let_def overridden_dof_def direct_second_point_def
      direct_dist)

subsection \<open>The two-cell mesh, evaluated\<close>

lemma stride_12: "stride k 12 = (if k < 12 then k # stride (k + 3) 12 else [])"
  by (subst stride.simps) (simp add: dim_def eval_nat_numeral)

lemma stride_0_12: "stride 0 12 = [0, 3, 6, 9]"
  by (simp add: stride_12)

lemma demo_dofs_A:
  "get_dof_indices (demo_mesh r cou) demo_cell_A = [0, 1, 12, 2, 3, 13, 6, 7, 15, 8, 9, 16]"
  by (simp add: get_dof_indices_def demo_mesh_def demo_cell_A_def upt_rec)

lemma demo_dofs_B:
  "get_dof_indices (demo_mesh r cou) demo_cell_B = [2, 3, 13, 4, 5, 14, 8, 9, 16, 10, 11, 17]"
  by (simp add: get_dof_indices_def demo_mesh_def demo_cell_B_def upt_rec)

lemma demo_dpc: "dofs_per_cell (demo_mesh r cou) = 12"
  by (simp add: demo_mesh_def)

lemma demo_overridden:
  "overridden_dof (demo_mesh r cou) demo_cell_A 0 = 0" "overridden_dof (demo_mesh r cou) demo_cell_A 3 = 2"
  "overridden_dof (demo_mesh r cou) demo_cell_A (Suc 0) = Suc 0"
  "overridden_dof (demo_mesh r cou) demo_cell_A 4 = 3"
  by (simp_all add: overridden_dof_def demo_dofs_A)

lemma demo_support:
  "support_points (demo_mesh r cou) 0 = (7 / 20, 0)" "support_points (demo_mesh r cou) (Suc 0) = (7 / 20, 0)"
  "support_points (demo_mesh r cou) 2 = (47 / 100, 0)" "support_points (demo_mesh r cou) 3 = (47 / 100, 0)"
  by (simp_all add: demo_mesh_def demo_vertices_def)

lemma demo_neighbours:
  "neighbours (demo_mesh r cou) demo_cell_A 0 = [demo_cell_A]"
  "neighbours (demo_mesh r cou) demo_cell_A (Suc 0) = [demo_cell_A]"
  "neighbours (demo_mesh r cou) demo_cell_A 3 = [demo_cell_A, demo_cell_B]"
  "neighbours (demo_mesh r cou) demo_cell_A 4 = [demo_cell_A, demo_cell_B]"
  by (simp_all add: neighbours_def demo_mesh_def demo_cell_A_def dim_def)

lemma demo_vect_dist:
  "vect_dist_small (21 / 100) (7 / 20, 0) = (- (3 / 50), 0)"
  "vect_dist_small (21 / 100) (47 / 100, 0) = (3 / 50, 0)"
  by (simp_all add: vect_dist_small_def center_immersed_def point_ops pnorm_on_axis)

lemma demo_second_point:
  "second_point_small (21 / 100) (7 / 20, 0) = (29 / 100, 0)"
  "second_point_small (21 / 100) (47 / 100, 0) = (53 / 100, 0)"
  by (simp_all add: second_point_small_def demo_vect_dist padd_def)

lemma demo_stencil_cell:
  "stencil_cell [demo_cell_A] (29 / 100, 0) = Inr demo_cell_A"
  "stencil_cell [demo_cell_A, demo_cell_B] (53 / 100, 0) = Inr demo_cell_B"
  by (simp_all add: stencil_cell_def demo_cell_A_def demo_cell_B_def distance_to_unit_cell_def)

lemma demo_transform:
  "transform_real_to_unit_cell demo_cell_A (29 / 100, 0) = Some (- (1 / 2), 0)"
  "transform_real_to_unit_cell demo_cell_B (53 / 100, 0) = Some (2 / 7, 0)"
  by (simp_all add: demo_cell_A_def demo_cell_B_def)

lemma demo_fields: "radius (demo_mesh r cou) = r" "couette (demo_mesh r cou) = cou"
  "n_dofs (demo_mesh r cou) = 18" "radius_2 (demo_mesh r cou) = 91 / 100"
  by (simp_all add: demo_mesh_def)

lemmas demo_geometry = demo_overridden demo_support demo_neighbours demo_fields demo_vect_dist
  demo_second_point demo_stencil_cell demo_transform

lemma demo_weight_A:
  "stencil_weight (demo_mesh r cou) demo_cell_A 0 xi m
     = (if m = 0 then q1_shape_value 0 xi else 0) + (if m = 2 then q1_shape_value 3 xi else 0)
       + (if m = 6 then q1_shape_value 6 xi else 0) + (if m = 8 then q1_shape_value 9 xi else 0)"
  by (simp add: stencil_weight_def demo_dpc stride_0_12 demo_cell_A_def demo_mesh_def)

lemma demo_weight_B:
  "stencil_weight (demo_mesh r cou) demo_cell_B 0 xi m
     = (if m = 2 then q1_shape_value 0 xi else 0) + (if m = 4 then q1_shape_value 3 xi else 0)
       + (if m = 8 then q1_shape_value 6 xi else 0) + (if m = 10 then q1_shape_value 9 xi else 0)"
  by (simp add: stencil_weight_def demo_dpc stride_0_12 demo_cell_B_def demo_mesh_def)

lemma demo_stencil_0:
  "stencil_cell (neighbours (demo_mesh (21 / 100) cou) demo_cell_A 0)
     (second_point_small (radius (demo_mesh (21 / 100) cou))
        (support_points (demo_mesh (21 / 100) cou) (overridden_dof (demo_mesh (21 / 100) cou) demo_cell_A 0))) = Inr demo_cell_A"
  "transform_real_to_unit_cell demo_cell_A
     (second_point_small (radius (demo_mesh (21 / 100) cou))
        (support_points (demo_mesh (21 / 100) cou) (overridden_dof (demo_mesh (21 / 100) cou) demo_cell_A 0))) = Some (- (1 / 2), 0)"
  "pnorm (vect_dist_small (radius (demo_mesh (21 / 100) cou))
        (support_points (demo_mesh (21 / 100) cou) (overridden_dof (demo_mesh (21 / 100) cou) demo_cell_A 0))) \<noteq> 0"
  by (simp_all add: demo_geometry pnorm_on_axis)

lemma demo_row_small_0:
  "\<exists>S'. rewrite_row_small (demo_mesh (21 / 100) cou) initial_step demo_cell_A 0 0 demo_solver = Inr S'"
  by (simp add: rewrite_row_small_unfold [OF demo_stencil_0(1,2)])

lemma direct_matrix_row:
  assumes run: "direct_rewrite_row_small ms c k l S = Inr D'"
    and cell_2: "find_active_cell_around_point ms
                   (direct_second_point direct_radius (support_points ms (overridden_dof ms c l)))
                 = Some cell_2"
    and xi: "transform_real_to_unit_cell cell_2
               (direct_second_point direct_radius (support_points ms (overridden_dof ms c l)))
             = Some xi"
  shows "system_matrix D' (overridden_dof ms c l) b
         = (if b = overridden_dof ms c l
            then - 2 / (pnorm (direct_vect_dist direct_radius
                                 (support_points ms (overridden_dof ms c l))))\<^sup>2
            else if b < n_dofs ms then 0
            else system_matrix S (overridden_dof ms c l) b)
           + stencil_weight ms cell_2 k xi b
             / (pnorm (direct_vect_dist direct_radius
                         (support_points ms (overridden_dof ms c l))))\<^sup>2"
  using run unfolding direct_rewrite_row_small_unfold [OF cell_2 xi]
  by (auto simp: direct_add_stencil_entry mat_set_apply clear_whole_row_entry power2_eq_square)

lemma q1_values:
  "q1_shape_value 0 (x, y) = (1 - x) * (1 - y)" "q1_shape_value 3 (x, y) = x * (1 - y)"
  "q1_shape_value 6 (x, y) = (1 - x) * y" "q1_shape_value 9 (x, y) = x * y"
  by (simp_all add: q1_shape_value_def)

lemma stride_Suc0_12: "stride (Suc 0) 12 = [1, 4, 7, 10]"
  by (simp add: stride_12)

lemma rewrite_row_small_cases:
  assumes "rewrite_row_small ms initial_step c k l S = Inr S'"
  shows "\<exists>cell_2 xi.
           stencil_cell (neighbours ms c l)
             (second_point_small (radius ms) (support_points ms (overridden_dof ms c l)))
           = Inr cell_2
         \<and> transform_real_to_unit_cell cell_2
             (second_point_small (radius ms) (support_points ms (overridden_dof ms c l)))
           = Some xi"
  using assms
  by (auto simp: rewrite_row_small_def Let_def overridden_dof_def second_point_small_def
      split: sum.splits option.splits)

lemma direct_rewrite_row_small_rhs:
  assumes "direct_rewrite_row_small ms c k l S = Inr D'"
  shows "system_rhs D' = (system_rhs S)(overridden_dof ms c l :=
           boundary_value k (unit_normal direct_center_immersed
                               (support_points ms (overridden_dof ms c l)))
           / (pnorm (direct_vect_dist direct_radius (support_points ms (overridden_dof ms c l))))\<^sup>2)"
  using assms
  by (auto simp: direct_rewrite_row_small_def Let_def overridden_dof_def direct_dist
      power2_eq_square split: option.splits)

lemma rhs_zeroing_Inr: "rhs_zeroing Inr"
  unfolding rhs_zeroing_def
  by (rule disjI2, rule exI [of _ "{}"]) simp

lemma rhs_zeroing_compose:
  assumes f: "rhs_zeroing f" and g: "rhs_zeroing g"
  shows "rhs_zeroing (\<lambda>S. case f S of Inl e \<Rightarrow> Inl e | Inr S' \<Rightarrow> g S')"
proof (cases "\<forall>S. \<exists>e. f S = Inl e")
  case True
  then have "\<forall>S. \<exists>e. (case f S of Inl e \<Rightarrow> Inl e | Inr S' \<Rightarrow> g S') = Inl e"
    by (metis sum.case(1))
  then show ?thesis unfolding rhs_zeroing_def by (rule disjI1)
next
  case False
  then obtain Zf where Zf: "\<forall>S. \<exists>S'. f S = Inr S'
       \<and> system_rhs S' = (\<lambda>j. if j \<in> Zf then 0 else system_rhs S j)"
    using f unfolding rhs_zeroing_def by blast
  show ?thesis
  proof (cases "\<forall>S. \<exists>e. g S = Inl e")
    case True
    have "\<forall>S. \<exists>e. (case f S of Inl e \<Rightarrow> Inl e | Inr S' \<Rightarrow> g S') = Inl e"
    proof
      fix S
      obtain S' where "f S = Inr S'" using Zf by blast
      moreover obtain e where "g S' = Inl e" using True by blast
      ultimately show "\<exists>e. (case f S of Inl e \<Rightarrow> Inl e | Inr S' \<Rightarrow> g S') = Inl e" by simp
    qed
    then show ?thesis unfolding rhs_zeroing_def by (rule disjI1)
  next
    case False
    then obtain Zg where Zg: "\<forall>S. \<exists>S'. g S = Inr S'
         \<and> system_rhs S' = (\<lambda>j. if j \<in> Zg then 0 else system_rhs S j)"
      using g unfolding rhs_zeroing_def by blast
    have "\<forall>S. \<exists>S''. (case f S of Inl e \<Rightarrow> Inl e | Inr S' \<Rightarrow> g S') = Inr S''
         \<and> system_rhs S'' = (\<lambda>j. if j \<in> Zf \<union> Zg then 0 else system_rhs S j)"
    proof
      fix S
      obtain S' where S': "f S = Inr S'"
        "system_rhs S' = (\<lambda>j. if j \<in> Zf then 0 else system_rhs S j)"
        using Zf by blast
      obtain S'' where S'': "g S' = Inr S''"
        "system_rhs S'' = (\<lambda>j. if j \<in> Zg then 0 else system_rhs S' j)"
        using Zg by blast
      have "system_rhs S'' = (\<lambda>j. if j \<in> Zf \<union> Zg then 0 else system_rhs S j)"
        by (auto simp: S'(2) S''(2))
      with S'(1) S''(1)
      show "\<exists>S''. (case f S of Inl e \<Rightarrow> Inl e | Inr S' \<Rightarrow> g S') = Inr S''
         \<and> system_rhs S'' = (\<lambda>j. if j \<in> Zf \<union> Zg then 0 else system_rhs S j)"
        by simp
    qed
    then show ?thesis unfolding rhs_zeroing_def by blast
  qed
qed

lemma rhs_zeroing_fold_err:
  "(\<And>x. x \<in> set xs \<Longrightarrow> rhs_zeroing (f x)) \<Longrightarrow> rhs_zeroing (fold_err f xs)"
proof (induction xs)
  case Nil
  have "fold_err f [] = Inr" by (rule ext) simp
  then show ?case by (simp add: rhs_zeroing_Inr)
next
  case (Cons x xs)
  have "fold_err f (x # xs) = (\<lambda>S. case f x S of Inl e \<Rightarrow> Inl e | Inr S' \<Rightarrow> fold_err f xs S')"
    by (rule ext) simp
  moreover have "rhs_zeroing (f x)" using Cons.prems by simp
  moreover have "rhs_zeroing (fold_err f xs)" using Cons by simp
  ultimately show ?case by (simp add: rhs_zeroing_compose)
qed

lemma rhs_zeroing_twice:
  assumes "rhs_zeroing f" and "f S = Inr S1"
  shows "\<exists>S2. f S1 = Inr S2 \<and> system_rhs S2 = system_rhs S1"
proof -
  from assms obtain Z where Z: "\<forall>S. \<exists>S'. f S = Inr S'
       \<and> system_rhs S' = (\<lambda>j. if j \<in> Z then 0 else system_rhs S j)"
    unfolding rhs_zeroing_def by (metis Inl_Inr_False)
  from Z assms(2) have r1: "system_rhs S1 = (\<lambda>j. if j \<in> Z then 0 else system_rhs S j)"
    by (metis sum.inject(2))
  from Z obtain S2 where S2: "f S1 = Inr S2"
    "system_rhs S2 = (\<lambda>j. if j \<in> Z then 0 else system_rhs S1 j)"
    by blast
  have "system_rhs S2 = system_rhs S1" by (auto simp: S2(2) r1)
  with S2(1) show ?thesis by blast
qed

lemma rhs_zeroing_row_small:
  assumes "\<not> (couette ms \<and> initial_step)"
  shows "rhs_zeroing (rewrite_row_small ms initial_step c k l)"
proof (cases "stencil_cell (neighbours ms c l)
                (second_point_small (radius ms) (support_points ms (overridden_dof ms c l)))")
  case (Inl e)
  then have "\<forall>S. \<exists>e. rewrite_row_small ms initial_step c k l S = Inl e"
    by (simp add: rewrite_row_small_def Let_def overridden_dof_def second_point_small_def)
  then show ?thesis unfolding rhs_zeroing_def by (rule disjI1)
next
  case (Inr cell_2)
  show ?thesis
  proof (cases "transform_real_to_unit_cell cell_2
                (second_point_small (radius ms) (support_points ms (overridden_dof ms c l)))")
    case None
    with Inr have "\<forall>S. \<exists>e. rewrite_row_small ms initial_step c k l S = Inl e"
      by (simp add: rewrite_row_small_def Let_def overridden_dof_def second_point_small_def)
    then show ?thesis unfolding rhs_zeroing_def by (rule disjI1)
  next
    case (Some xi)
    have "\<forall>S. \<exists>S'. rewrite_row_small ms initial_step c k l S = Inr S'
         \<and> system_rhs S' = (\<lambda>j. if j \<in> {overridden_dof ms c l} then 0 else system_rhs S j)"
      using assms by (auto simp: rewrite_row_small_unfold [OF Inr Some])
    then show ?thesis unfolding rhs_zeroing_def by blast
  qed
qed

lemma rhs_zeroing_row_large: "rhs_zeroing (rewrite_row_large ms c k l)"
proof (cases "stencil_cell (neighbours ms c l)
                (second_point_large (radius_2 ms) (support_points ms (overridden_dof ms c l)))")
  case (Inl e)
  then have "\<forall>S. \<exists>e. rewrite_row_large ms c k l S = Inl e"
    by (simp add: rewrite_row_large_def Let_def overridden_dof_def second_point_large_def)
  then show ?thesis unfolding rhs_zeroing_def by (rule disjI1)
next
  case (Inr cell_2)
  show ?thesis
  proof (cases "transform_real_to_unit_cell cell_2
                (second_point_large (radius_2 ms) (support_points ms (overridden_dof ms c l)))")
    case None
    with Inr have "\<forall>S. \<exists>e. rewrite_row_large ms c k l S = Inl e"
      by (simp add: rewrite_row_large_def Let_def overridden_dof_def second_point_large_def)
    then show ?thesis unfolding rhs_zeroing_def by (rule disjI1)
  next
    case (Some xi)
    have "\<forall>S. \<exists>S'. rewrite_row_large ms c k l S = Inr S'
         \<and> system_rhs S' = (\<lambda>j. if j \<in> {overridden_dof ms c l} then 0 else system_rhs S j)"
      by (auto simp: rewrite_row_large_unfold [OF Inr Some])
    then show ?thesis unfolding rhs_zeroing_def by blast
  qed
qed

lemma rhs_zeroing_if: "rhs_zeroing f \<Longrightarrow> rhs_zeroing (\<lambda>S. if b then f S else Inr S)"
  by (cases b) (simp_all add: rhs_zeroing_Inr)

lemma rhs_zeroing_override_cell:
  assumes "\<not> (couette ms \<and> initial_step)"
  shows "rhs_zeroing (override_cell ms initial_step c)"
proof -
  let ?ldi = "get_dof_indices ms c"
  let ?small = "\<lambda>S. if count_inside ms (radius ms) ?ldi \<noteq> 0
                        \<and> count_inside ms (radius ms) ?ldi \<noteq> length ?ldi
               then fold_err (\<lambda>k S. if k < dim
                                then fold_err (rewrite_row_small ms initial_step c k)
                                       (stride k (length ?ldi)) S
                                else Inr S)
                             [0..<dim + 1] S
               else Inr S"
  let ?cl = "if couette ms then count_inside ms (radius_2 ms) ?ldi else 0"
  let ?large = "\<lambda>S1. if ?cl \<noteq> 0 \<and> ?cl \<noteq> length ?ldi
             then fold_err (\<lambda>k S. if k < 2
                              then fold_err (rewrite_row_large ms c k)
                                     (stride k (length ?ldi)) S
                              else Inr S)
                           [0..<dim + 1] S1
             else Inr S1"
  have s: "rhs_zeroing ?small"
    by (intro rhs_zeroing_if rhs_zeroing_fold_err rhs_zeroing_row_small assms)
  have l: "rhs_zeroing ?large"
    by (intro rhs_zeroing_if rhs_zeroing_fold_err rhs_zeroing_row_large)
  have "override_cell ms initial_step c
          = (\<lambda>S. case ?small S of Inl e \<Rightarrow> Inl e | Inr S1 \<Rightarrow> ?large S1)"
    by (rule ext) (simp add: override_cell_def Let_def)
  with rhs_zeroing_compose [OF s l] show ?thesis by simp
qed

lemma rhs_zeroing_sharp_edge_V2:
  assumes "\<not> (couette ms \<and> initial_step)"
  shows "rhs_zeroing (sharp_edge_V2 ms initial_step)"
proof -
  have "sharp_edge_V2 ms initial_step = fold_err (override_cell ms initial_step) (active_cells ms)"
    by (rule ext) (simp add: sharp_edge_V2_def)
  then show ?thesis
    by (simp add: rhs_zeroing_fold_err rhs_zeroing_override_cell [OF assms])
qed

lemma pnorm_eq_0_iff: "pnorm p = 0 \<longleftrightarrow> fst p = 0 \<and> snd p = 0"
  by (simp add: pnorm_def sum_squares_eq_zero_iff)

lemma pnorm_pythagoras: "0 \<le> n \<Longrightarrow> a * a + b * b = n * n \<Longrightarrow> pnorm (a, b) = n"
  by (simp add: pnorm_def)

lemma demo_norms: "pnorm (3 / 20, 9 / 25) = 39 / 100" "pnorm (27 / 100, 9 / 25) = 9 / 20"
  "pnorm (12 / 25, 9 / 25) = 3 / 5"
  by (rule pnorm_pythagoras; simp)+

lemma demo_count_A:
  "count_inside (demo_mesh (21 / 100) cou) (21 / 100) (get_dof_indices (demo_mesh (21 / 100) cou) demo_cell_A) = 3"
  by (simp add: count_inside_def demo_dofs_A) 
     (simp add: demo_mesh_def demo_vertices_def center_immersed_def psub_def demo_norms pnorm_on_axis)

lemma demo_count_B:
  "count_inside (demo_mesh (21 / 100) cou) (21 / 100) (get_dof_indices (demo_mesh (21 / 100) cou) demo_cell_B) = 0"
  by (simp add: count_inside_def demo_dofs_B) 
     (simp add: demo_mesh_def demo_vertices_def center_immersed_def psub_def demo_norms pnorm_on_axis)

lemma demo_overridden_more:
  "overridden_dof (demo_mesh r cou) demo_cell_A 6 = 6" "overridden_dof (demo_mesh r cou) demo_cell_A 7 = 7"
  "overridden_dof (demo_mesh r cou) demo_cell_A 9 = 8" "overridden_dof (demo_mesh r cou) demo_cell_A 10 = 9"
  by (simp_all add: overridden_dof_def demo_dofs_A)

lemma demo_support_more:
  "support_points (demo_mesh r cou) 6 = (7 / 20, 9 / 25)" "support_points (demo_mesh r cou) 7 = (7 / 20, 9 / 25)"
  "support_points (demo_mesh r cou) 8 = (47 / 100, 9 / 25)" "support_points (demo_mesh r cou) 9 = (47 / 100, 9 / 25)"
  by (simp_all add: demo_mesh_def demo_vertices_def)

lemma demo_neighbours_more:
  "neighbours (demo_mesh r cou) demo_cell_A 6 = [demo_cell_A]"
  "neighbours (demo_mesh r cou) demo_cell_A 7 = [demo_cell_A]"
  "neighbours (demo_mesh r cou) demo_cell_A 9 = [demo_cell_A, demo_cell_B]"
  "neighbours (demo_mesh r cou) demo_cell_A 10 = [demo_cell_A, demo_cell_B]"
  by (simp_all add: neighbours_def demo_mesh_def demo_cell_A_def dim_def)

lemma demo_vect_dist_more:
  "vect_dist_small (21 / 100) (7 / 20, 9 / 25) = (9 / 130, 54 / 325)"
  "vect_dist_small (21 / 100) (47 / 100, 9 / 25) = (18 / 125, 24 / 125)"
  by (simp_all add: vect_dist_small_def center_immersed_def point_ops demo_norms)

lemma demo_second_point_more:
  "second_point_small (21 / 100) (7 / 20, 9 / 25) = (109 / 260, 171 / 325)"
  "second_point_small (21 / 100) (47 / 100, 9 / 25) = (307 / 500, 69 / 125)"
  by (simp_all add: second_point_small_def demo_vect_dist_more padd_def)

lemma demo_stencil_cell_more:
  "stencil_cell [demo_cell_A] (109 / 260, 171 / 325) = Inr demo_cell_A"
  "stencil_cell [demo_cell_A, demo_cell_B] (307 / 500, 69 / 125) = Inr demo_cell_A"
  by (simp_all add: stencil_cell_def demo_cell_A_def demo_cell_B_def distance_to_unit_cell_def)

lemma demo_transform_more:
  "transform_real_to_unit_cell demo_cell_A (109 / 260, 171 / 325) = Some (15 / 26, 19 / 13)"
  "transform_real_to_unit_cell demo_cell_A (307 / 500, 69 / 125) = Some (11 / 5, 23 / 15)"
  by (simp_all add: demo_cell_A_def)

lemmas demo_geometry_more = demo_overridden_more demo_support_more demo_neighbours_more
  demo_vect_dist_more demo_second_point_more demo_stencil_cell_more demo_transform_more

lemma demo_row_0:
  "rewrite_row_small (demo_mesh (21 / 100) False) False demo_cell_A k 0 S =
     Inr (S\<lparr>system_matrix :=
            add_stencil (demo_mesh (21 / 100) False) k
              (get_dof_indices (demo_mesh (21 / 100) False) demo_cell_A) (- (1 / 2), 0)
              (system_matrix S 0 0) 0
              (mat_set (clear_row (demo_mesh (21 / 100) False) [demo_cell_A] 0 (system_matrix S))
                 0 0 (- 2 / (1 / system_matrix S 0 0))),
          system_rhs := (system_rhs S)(0 := 0)\<rparr>)"
proof -
  have a: "stencil_cell (neighbours (demo_mesh (21 / 100) False) demo_cell_A 0)
     (second_point_small (radius (demo_mesh (21 / 100) False))
        (support_points (demo_mesh (21 / 100) False)
           (overridden_dof (demo_mesh (21 / 100) False) demo_cell_A 0))) = Inr demo_cell_A"
    by (simp add: demo_geometry demo_geometry_more)
  have b: "transform_real_to_unit_cell demo_cell_A
     (second_point_small (radius (demo_mesh (21 / 100) False))
        (support_points (demo_mesh (21 / 100) False)
           (overridden_dof (demo_mesh (21 / 100) False) demo_cell_A 0))) = Some (- (1 / 2), 0)"
    by (simp add: demo_geometry demo_geometry_more)
  show ?thesis
    by (simp add: rewrite_row_small_unfold [OF a b] demo_geometry demo_geometry_more
        pnorm_eq_0_iff)
qed

lemma demo_row_1:
  "rewrite_row_small (demo_mesh (21 / 100) False) False demo_cell_A k (Suc 0) S =
     Inr (S\<lparr>system_matrix :=
            add_stencil (demo_mesh (21 / 100) False) k
              (get_dof_indices (demo_mesh (21 / 100) False) demo_cell_A) (- (1 / 2), 0)
              (system_matrix S (Suc 0) (Suc 0)) (Suc 0)
              (mat_set (clear_row (demo_mesh (21 / 100) False) [demo_cell_A] (Suc 0) (system_matrix S))
                 (Suc 0) (Suc 0) (- 2 / (1 / system_matrix S (Suc 0) (Suc 0)))),
          system_rhs := (system_rhs S)(Suc 0 := 0)\<rparr>)"
proof -
  have a: "stencil_cell (neighbours (demo_mesh (21 / 100) False) demo_cell_A (Suc 0))
     (second_point_small (radius (demo_mesh (21 / 100) False))
        (support_points (demo_mesh (21 / 100) False)
           (overridden_dof (demo_mesh (21 / 100) False) demo_cell_A (Suc 0)))) = Inr demo_cell_A"
    by (simp add: demo_geometry demo_geometry_more)
  have b: "transform_real_to_unit_cell demo_cell_A
     (second_point_small (radius (demo_mesh (21 / 100) False))
        (support_points (demo_mesh (21 / 100) False)
           (overridden_dof (demo_mesh (21 / 100) False) demo_cell_A (Suc 0)))) = Some (- (1 / 2), 0)"
    by (simp add: demo_geometry demo_geometry_more)
  show ?thesis
    by (simp add: rewrite_row_small_unfold [OF a b] demo_geometry demo_geometry_more
        pnorm_eq_0_iff)
qed

lemma demo_row_3:
  "rewrite_row_small (demo_mesh (21 / 100) False) False demo_cell_A k 3 S =
     Inr (S\<lparr>system_matrix :=
            add_stencil (demo_mesh (21 / 100) False) k
              (get_dof_indices (demo_mesh (21 / 100) False) demo_cell_B) (2 / 7, 0)
              (system_matrix S 2 2) 2
              (mat_set (clear_row (demo_mesh (21 / 100) False) [demo_cell_A, demo_cell_B] 2 (system_matrix S))
                 2 2 (- 2 / (1 / system_matrix S 2 2))),
          system_rhs := (system_rhs S)(2 := 0)\<rparr>)"
proof -
  have a: "stencil_cell (neighbours (demo_mesh (21 / 100) False) demo_cell_A 3)
     (second_point_small (radius (demo_mesh (21 / 100) False))
        (support_points (demo_mesh (21 / 100) False)
           (overridden_dof (demo_mesh (21 / 100) False) demo_cell_A 3))) = Inr demo_cell_B"
    by (simp add: demo_geometry demo_geometry_more)
  have b: "transform_real_to_unit_cell demo_cell_B
     (second_point_small (radius (demo_mesh (21 / 100) False))
        (support_points (demo_mesh (21 / 100) False)
           (overridden_dof (demo_mesh (21 / 100) False) demo_cell_A 3))) = Some (2 / 7, 0)"
    by (simp add: demo_geometry demo_geometry_more)
  show ?thesis
    by (simp add: rewrite_row_small_unfold [OF a b] demo_geometry demo_geometry_more
        pnorm_eq_0_iff)
qed

lemma demo_row_4:
  "rewrite_row_small (demo_mesh (21 / 100) False) False demo_cell_A k 4 S =
     Inr (S\<lparr>system_matrix :=
            add_stencil (demo_mesh (21 / 100) False) k
              (get_dof_indices (demo_mesh (21 / 100) False) demo_cell_B) (2 / 7, 0)
              (system_matrix S 3 3) 3
              (mat_set (clear_row (demo_mesh (21 / 100) False) [demo_cell_A, demo_cell_B] 3 (system_matrix S))
                 3 3 (- 2 / (1 / system_matrix S 3 3))),
          system_rhs := (system_rhs S)(3 := 0)\<rparr>)"
proof -
  have a: "stencil_cell (neighbours (demo_mesh (21 / 100) False) demo_cell_A 4)
     (second_point_small (radius (demo_mesh (21 / 100) False))
        (support_points (demo_mesh (21 / 100) False)
           (overridden_dof (demo_mesh (21 / 100) False) demo_cell_A 4))) = Inr demo_cell_B"
    by (simp add: demo_geometry demo_geometry_more)
  have b: "transform_real_to_unit_cell demo_cell_B
     (second_point_small (radius (demo_mesh (21 / 100) False))
        (support_points (demo_mesh (21 / 100) False)
           (overridden_dof (demo_mesh (21 / 100) False) demo_cell_A 4))) = Some (2 / 7, 0)"
    by (simp add: demo_geometry demo_geometry_more)
  show ?thesis
    by (simp add: rewrite_row_small_unfold [OF a b] demo_geometry demo_geometry_more
        pnorm_eq_0_iff)
qed

lemma demo_row_6:
  "rewrite_row_small (demo_mesh (21 / 100) False) False demo_cell_A k 6 S =
     Inr (S\<lparr>system_matrix :=
            add_stencil (demo_mesh (21 / 100) False) k
              (get_dof_indices (demo_mesh (21 / 100) False) demo_cell_A) (15 / 26, 19 / 13)
              (system_matrix S 6 6) 6
              (mat_set (clear_row (demo_mesh (21 / 100) False) [demo_cell_A] 6 (system_matrix S))
                 6 6 (- 2 / (1 / system_matrix S 6 6))),
          system_rhs := (system_rhs S)(6 := 0)\<rparr>)"
proof -
  have a: "stencil_cell (neighbours (demo_mesh (21 / 100) False) demo_cell_A 6)
     (second_point_small (radius (demo_mesh (21 / 100) False))
        (support_points (demo_mesh (21 / 100) False)
           (overridden_dof (demo_mesh (21 / 100) False) demo_cell_A 6))) = Inr demo_cell_A"
    by (simp add: demo_geometry demo_geometry_more)
  have b: "transform_real_to_unit_cell demo_cell_A
     (second_point_small (radius (demo_mesh (21 / 100) False))
        (support_points (demo_mesh (21 / 100) False)
           (overridden_dof (demo_mesh (21 / 100) False) demo_cell_A 6))) = Some (15 / 26, 19 / 13)"
    by (simp add: demo_geometry demo_geometry_more)
  show ?thesis
    by (simp add: rewrite_row_small_unfold [OF a b] demo_geometry demo_geometry_more
        pnorm_eq_0_iff)
qed

lemma demo_row_7:
  "rewrite_row_small (demo_mesh (21 / 100) False) False demo_cell_A k 7 S =
     Inr (S\<lparr>system_matrix :=
            add_stencil (demo_mesh (21 / 100) False) k
              (get_dof_indices (demo_mesh (21 / 100) False) demo_cell_A) (15 / 26, 19 / 13)
              (system_matrix S 7 7) 7
              (mat_set (clear_row (demo_mesh (21 / 100) False) [demo_cell_A] 7 (system_matrix S))
                 7 7 (- 2 / (1 / system_matrix S 7 7))),
          system_rhs := (system_rhs S)(7 := 0)\<rparr>)"
proof -
  have a: "stencil_cell (neighbours (demo_mesh (21 / 100) False) demo_cell_A 7)
     (second_point_small (radius (demo_mesh (21 / 100) False))
        (support_points (demo_mesh (21 / 100) False)
           (overridden_dof (demo_mesh (21 / 100) False) demo_cell_A 7))) = Inr demo_cell_A"
    by (simp add: demo_geometry demo_geometry_more)
  have b: "transform_real_to_unit_cell demo_cell_A
     (second_point_small (radius (demo_mesh (21 / 100) False))
        (support_points (demo_mesh (21 / 100) False)
           (overridden_dof (demo_mesh (21 / 100) False) demo_cell_A 7))) = Some (15 / 26, 19 / 13)"
    by (simp add: demo_geometry demo_geometry_more)
  show ?thesis
    by (simp add: rewrite_row_small_unfold [OF a b] demo_geometry demo_geometry_more
        pnorm_eq_0_iff)
qed

lemma demo_row_9:
  "rewrite_row_small (demo_mesh (21 / 100) False) False demo_cell_A k 9 S =
     Inr (S\<lparr>system_matrix :=
            add_stencil (demo_mesh (21 / 100) False) k
              (get_dof_indices (demo_mesh (21 / 100) False) demo_cell_A) (11 / 5, 23 / 15)
              (system_matrix S 8 8) 8
              (mat_set (clear_row (demo_mesh (21 / 100) False) [demo_cell_A, demo_cell_B] 8 (system_matrix S))
                 8 8 (- 2 / (1 / system_matrix S 8 8))),
          system_rhs := (system_rhs S)(8 := 0)\<rparr>)"
proof -
  have a: "stencil_cell (neighbours (demo_mesh (21 / 100) False) demo_cell_A 9)
     (second_point_small (radius (demo_mesh (21 / 100) False))
        (support_points (demo_mesh (21 / 100) False)
           (overridden_dof (demo_mesh (21 / 100) False) demo_cell_A 9))) = Inr demo_cell_A"
    by (simp add: demo_geometry demo_geometry_more)
  have b: "transform_real_to_unit_cell demo_cell_A
     (second_point_small (radius (demo_mesh (21 / 100) False))
        (support_points (demo_mesh (21 / 100) False)
           (overridden_dof (demo_mesh (21 / 100) False) demo_cell_A 9))) = Some (11 / 5, 23 / 15)"
    by (simp add: demo_geometry demo_geometry_more)
  show ?thesis
    by (simp add: rewrite_row_small_unfold [OF a b] demo_geometry demo_geometry_more
        pnorm_eq_0_iff)
qed

lemma demo_row_10:
  "rewrite_row_small (demo_mesh (21 / 100) False) False demo_cell_A k 10 S =
     Inr (S\<lparr>system_matrix :=
            add_stencil (demo_mesh (21 / 100) False) k
              (get_dof_indices (demo_mesh (21 / 100) False) demo_cell_A) (11 / 5, 23 / 15)
              (system_matrix S 9 9) 9
              (mat_set (clear_row (demo_mesh (21 / 100) False) [demo_cell_A, demo_cell_B] 9 (system_matrix S))
                 9 9 (- 2 / (1 / system_matrix S 9 9))),
          system_rhs := (system_rhs S)(9 := 0)\<rparr>)"
proof -
  have a: "stencil_cell (neighbours (demo_mesh (21 / 100) False) demo_cell_A 10)
     (second_point_small (radius (demo_mesh (21 / 100) False))
        (support_points (demo_mesh (21 / 100) False)
           (overridden_dof (demo_mesh (21 / 100) False) demo_cell_A 10))) = Inr demo_cell_A"
    by (simp add: demo_geometry demo_geometry_more)
  have b: "transform_real_to_unit_cell demo_cell_A
     (second_point_small (radius (demo_mesh (21 / 100) False))
        (support_points (demo_mesh (21 / 100) False)
           (overridden_dof (demo_mesh (21 / 100) False) demo_cell_A 10))) = Some (11 / 5, 23 / 15)"
    by (simp add: demo_geometry demo_geometry_more)
  show ?thesis
    by (simp add: rewrite_row_small_unfold [OF a b] demo_geometry demo_geometry_more
        pnorm_eq_0_iff)
qed

lemmas demo_rows = demo_row_0 demo_row_1 demo_row_3 demo_row_4 demo_row_6 demo_row_7 demo_row_9 demo_row_10

lemma demo_active_cells: "active_cells (demo_mesh r cou) = [demo_cell_A, demo_cell_B]"
  by (simp add: demo_mesh_def)

lemma case_sum_same: "(case r of Inl e \<Rightarrow> Inl e | Inr S \<Rightarrow> Inr S) = r"
  by (cases r) simp_all

lemma demo_override_cell_A:
  "override_cell (demo_mesh (21 / 100) False) False demo_cell_A S =
     fold_err (\<lambda>k S. if k < dim
                       then fold_err (rewrite_row_small (demo_mesh (21 / 100) False) False demo_cell_A k)
                              (stride k 12) S
                       else Inr S) [0..<dim + 1] S"
  by (simp add: override_cell_def Let_def demo_count_A demo_fields length_get_dof_indices demo_dpc
      case_sum_same cong: sum.case_cong if_cong)

lemma demo_override_cell_B:
  "override_cell (demo_mesh (21 / 100) False) False demo_cell_B S = Inr S"
  by (simp add: override_cell_def Let_def demo_count_B demo_fields length_get_dof_indices demo_dpc)

lemma demo_pass_entry:
  "matrix_entry_of (sharp_edge_V2 (demo_mesh (21 / 100) False) False S) 0 0
     = Some (- 2 * system_matrix S 0 0 + system_matrix S 0 0 * (3 / 2))"
  by (simp add: sharp_edge_V2_def demo_active_cells demo_override_cell_A demo_override_cell_B
      dim_def upt_rec stride_0_12 stride_Suc0_12 demo_rows matrix_entry_of_def
      add_stencil_entry mat_set_apply clear_row_entry demo_weight_A q1_values)

lemma matrix_entry_of_Some:
  "matrix_entry_of r i j = Some v \<Longrightarrow> \<exists>S. r = Inr S \<and> system_matrix S i j = v"
  by (cases r) (simp_all add: matrix_entry_of_def)

lemma system_only_Inr: "system_only Inr"
  by (simp add: system_only_def)

lemma system_only_compose:
  assumes f: "system_only f" and g: "system_only g"
  shows "system_only (\<lambda>S. case f S of Inl e \<Rightarrow> Inl e | Inr S' \<Rightarrow> g S')"
  unfolding system_only_def
proof (intro allI impI)
  fix S S''
  assume a: "(case f S of Inl e \<Rightarrow> Inl e | Inr S' \<Rightarrow> g S') = Inr S''"
  then obtain S' where S': "f S = Inr S'" and S'': "g S' = Inr S''"
    by (cases "f S") simp_all
  have 1: "S' = S\<lparr>system_matrix := system_matrix S', system_rhs := system_rhs S'\<rparr>"
    using f S' unfolding system_only_def by blast
  have 2: "S'' = S'\<lparr>system_matrix := system_matrix S'', system_rhs := system_rhs S''\<rparr>"
    using g S'' unfolding system_only_def by blast
  show "S'' = S\<lparr>system_matrix := system_matrix S'', system_rhs := system_rhs S''\<rparr>"
    by (subst 2, subst 1) simp
qed

lemma system_only_fold_err:
  "(\<And>x. x \<in> set xs \<Longrightarrow> system_only (f x)) \<Longrightarrow> system_only (fold_err f xs)"
proof (induction xs)
  case Nil
  have "fold_err f [] = Inr" by (rule ext) simp
  then show ?case by (simp add: system_only_Inr)
next
  case (Cons x xs)
  have "fold_err f (x # xs) = (\<lambda>S. case f x S of Inl e \<Rightarrow> Inl e | Inr S' \<Rightarrow> fold_err f xs S')"
    by (rule ext) simp
  moreover have "system_only (f x)" using Cons.prems by simp
  moreover have "system_only (fold_err f xs)" using Cons by simp
  ultimately show ?case by (simp add: system_only_compose)
qed

lemma system_only_if: "system_only f \<Longrightarrow> system_only (\<lambda>S. if b then f S else Inr S)"
  by (cases b) (simp_all add: system_only_Inr)

lemma system_only_row_small: "system_only (rewrite_row_small ms initial_step c k l)"
  unfolding system_only_def
  by (auto simp: rewrite_row_small_def Let_def split: sum.splits option.splits)

lemma system_only_row_large: "system_only (rewrite_row_large ms c k l)"
  unfolding system_only_def
  by (auto simp: rewrite_row_large_def Let_def split: sum.splits option.splits)

lemma system_only_override_cell: "system_only (override_cell ms initial_step c)"
proof -
  let ?ldi = "get_dof_indices ms c"
  let ?small = "\<lambda>S. if count_inside ms (radius ms) ?ldi \<noteq> 0
                        \<and> count_inside ms (radius ms) ?ldi \<noteq> length ?ldi
               then fold_err (\<lambda>k S. if k < dim
                                then fold_err (rewrite_row_small ms initial_step c k)
                                       (stride k (length ?ldi)) S
                                else Inr S)
                             [0..<dim + 1] S
               else Inr S"
  let ?cl = "if couette ms then count_inside ms (radius_2 ms) ?ldi else 0"
  let ?large = "\<lambda>S1. if ?cl \<noteq> 0 \<and> ?cl \<noteq> length ?ldi
             then fold_err (\<lambda>k S. if k < 2
                              then fold_err (rewrite_row_large ms c k)
                                     (stride k (length ?ldi)) S
                              else Inr S)
                           [0..<dim + 1] S1
             else Inr S1"
  have s: "system_only ?small"
    by (intro system_only_if system_only_fold_err system_only_row_small)
  have l: "system_only ?large"
    by (intro system_only_if system_only_fold_err system_only_row_large)
  have "override_cell ms initial_step c
          = (\<lambda>S. case ?small S of Inl e \<Rightarrow> Inl e | Inr S1 \<Rightarrow> ?large S1)"
    by (rule ext) (simp add: override_cell_def Let_def)
  with system_only_compose [OF s l] show ?thesis by simp
qed

lemma sharp_edge_V2_frame:
  assumes "sharp_edge_V2 ms initial_step S = Inr S'"
  shows "S' = S\<lparr>system_matrix := system_matrix S', system_rhs := system_rhs S'\<rparr>"
proof -
  have "sharp_edge_V2 ms initial_step = fold_err (override_cell ms initial_step) (active_cells ms)"
    by (rule ext) (simp add: sharp_edge_V2_def)
  then have "system_only (sharp_edge_V2 ms initial_step)"
    by (simp add: system_only_fold_err system_only_override_cell)
  with assms show ?thesis unfolding system_only_def by blast
qed

lemma assemble_rhs_frame:
  "present_solution (assemble_rhs ms ex fs S) = present_solution S"
  "newton_update (assemble_rhs ms ex fs S) = newton_update S"
  "evaluation_point (assemble_rhs ms ex fs S) = evaluation_point S"
  "last_vect (assemble_rhs ms ex fs S) = last_vect S"
  "system_matrix (assemble_rhs ms ex fs S) = system_matrix S"
proof -
  obtain r where r: "fold (assemble_cell ms ex fs False) (active_cells ms)
                       (S\<lparr>system_rhs := (\<lambda>i. 0)\<rparr>) = S\<lparr>system_rhs := (\<lambda>i. 0)\<rparr>\<lparr>system_rhs := r\<rparr>"
    using fold_assemble_cell_frame by blast
  then have e: "assemble_rhs ms ex fs S = S\<lparr>system_rhs := r\<rparr>"
    by (simp add: assemble_rhs_def assemble_def)
  show "present_solution (assemble_rhs ms ex fs S) = present_solution S"
    "newton_update (assemble_rhs ms ex fs S) = newton_update S"
    "evaluation_point (assemble_rhs ms ex fs S) = evaluation_point S"
    "last_vect (assemble_rhs ms ex fs S) = last_vect S"
    "system_matrix (assemble_rhs ms ex fs S) = system_matrix S"
    by (simp_all add: e)
qed

lemma line_search_trial_frame:
  assumes "line_search_trial ms ex fs alpha S = Inr S1"
  shows "present_solution S1
           = constraints_distribute ex True (\<lambda>i. present_solution S i + alpha * newton_update S i)"
    and "newton_update S1 = newton_update S"
    and "evaluation_point S1 = present_solution S1"
    and "last_vect S1 = present_solution S1"
proof -
  define S3 where "S3 = S\<lparr>evaluation_point :=
      constraints_distribute ex True (\<lambda>i. present_solution S i + alpha * newton_update S i)\<rparr>"
  obtain S5 where S5: "sharp_edge_V2 ms fs (assemble_rhs ms ex fs S3) = Inr S5"
    and S1: "S1 = S5\<lparr>present_solution := evaluation_point S5, last_vect := evaluation_point S5\<rparr>"
    using assms unfolding line_search_trial_def S3_def
    by (auto simp: Let_def split: sum.splits)
  have f: "S5 = (assemble_rhs ms ex fs S3)\<lparr>system_matrix := system_matrix S5,
                                              system_rhs := system_rhs S5\<rparr>"
    using S5 by (rule sharp_edge_V2_frame)
  have ev: "evaluation_point S5
              = constraints_distribute ex True (\<lambda>i. present_solution S i + alpha * newton_update S i)"
    by (subst f) (simp add: assemble_rhs_frame S3_def)
  have nu: "newton_update S5 = newton_update S"
    by (subst f) (simp add: assemble_rhs_frame S3_def)
  show "present_solution S1
           = constraints_distribute ex True (\<lambda>i. present_solution S i + alpha * newton_update S i)"
    and "newton_update S1 = newton_update S"
    and "evaluation_point S1 = present_solution S1"
    and "last_vect S1 = present_solution S1"
    by (simp_all add: S1 ev nu)
qed

lemma line_search_stop: "alpha \<le> 1 / 1000 \<Longrightarrow> line_search ms ex alpha (v, S) = Inr (v, S)"
  by (subst line_search.simps) simp

lemma line_search_accept:
  assumes "alpha > 1 / 1000"
    and "line_search_trial ms ex (first_step v) alpha S = Inr S1"
    and "l2_norm (n_dofs ms) (system_rhs S1) < last_res v"
  shows "line_search ms ex alpha (v, S)
           = Inr (v\<lparr>current_res := l2_norm (n_dofs ms) (system_rhs S1)\<rparr>, S1)"
  using assms by (subst line_search.simps) (simp add: Let_def)

lemma line_search_reject:
  assumes "alpha > 1 / 1000"
    and "line_search_trial ms ex (first_step v) alpha S = Inr S1"
    and "\<not> l2_norm (n_dofs ms) (system_rhs S1) < last_res v"
  shows "line_search ms ex alpha (v, S)
           = line_search ms ex (alpha / 2)
               (v\<lparr>current_res := l2_norm (n_dofs ms) (system_rhs S1),
                  last_res := l2_norm (n_dofs ms) (system_rhs S1)\<rparr>, S1)"
  using assms by (subst line_search.simps) (simp add: Let_def)

lemma direct_line_search_stop:
  "alpha \<le> 1 / 1000 \<Longrightarrow> direct_line_search ms ex alpha st = st"
  by (cases st) (simp add: direct_line_search.simps)

lemma direct_line_search_step:
  assumes "alpha > 1 / 1000"
  shows "\<exists>st'. direct_line_search ms ex alpha st = direct_line_search ms ex (alpha / 2) st'
     \<and> present_solution (snd st') = present_solution (snd st)
     \<and> newton_update (snd st') = newton_update (snd st)
     \<and> evaluation_point (snd st')
         = constraints_distribute ex True
             (\<lambda>i. present_solution (snd st) i + alpha * newton_update (snd st) i)"
proof -
  obtain v S where st: "st = (v, S)" by (cases st) auto
  define S4 where "S4 = assemble_rhs ms ex (first_step v)
     (S\<lparr>evaluation_point := constraints_distribute ex True
          (\<lambda>i. present_solution S i + alpha * newton_update S i)\<rparr>)"
  have "direct_line_search ms ex alpha st
        = direct_line_search ms ex (alpha / 2)
            (v\<lparr>current_res := l2_norm (n_dofs ms) (system_rhs S4)\<rparr>, S4)"
    using assms unfolding st S4_def
    by (subst direct_line_search.simps) (simp add: Let_def)
  moreover have "present_solution S4 = present_solution S" "newton_update S4 = newton_update S"
    "evaluation_point S4 = constraints_distribute ex True
          (\<lambda>i. present_solution S i + alpha * newton_update S i)"
    by (simp_all add: S4_def assemble_rhs_frame)
  ultimately show ?thesis unfolding st by (intro exI [of _ "(_, S4)"]) simp
qed

lemma direct_line_search_steps:
  "alpha / 2 ^ n > 1 / 1000 \<Longrightarrow>
   \<exists>st'. direct_line_search ms ex alpha st = direct_line_search ms ex (alpha / 2 ^ Suc n) st'
     \<and> present_solution (snd st') = present_solution (snd st)
     \<and> newton_update (snd st') = newton_update (snd st)
     \<and> evaluation_point (snd st')
         = constraints_distribute ex True
             (\<lambda>i. present_solution (snd st) i + alpha / 2 ^ n * newton_update (snd st) i)"
proof (induction n arbitrary: alpha st)
  case 0
  then have "alpha > 1 / 1000" by simp
  from direct_line_search_step [OF this, of ms ex st] show ?case by simp
next
  case (Suc n)
  have half: "alpha / 2 / 2 ^ n > 1 / 1000" using Suc.prems by (simp add: field_simps)
  have p: "(1::real) \<le> 2 ^ Suc n" by (rule one_le_power) simp
  have "1 / 1000 * 2 ^ Suc n < alpha"
    using Suc.prems by (simp only: pos_less_divide_eq zero_less_power zero_less_numeral)
  moreover have "(1::real) / 1000 * 1 \<le> 1 / 1000 * 2 ^ Suc n"
    using p by (intro mult_left_mono) simp_all
  ultimately have big: "alpha > 1 / 1000" by simp
  obtain st1 where st1: "direct_line_search ms ex alpha st
        = direct_line_search ms ex (alpha / 2) st1"
    "present_solution (snd st1) = present_solution (snd st)"
    "newton_update (snd st1) = newton_update (snd st)"
    using direct_line_search_step [OF big, of ms ex st] by blast
  obtain st' where st': "direct_line_search ms ex (alpha / 2) st1
        = direct_line_search ms ex (alpha / 2 / 2 ^ Suc n) st'"
    "present_solution (snd st') = present_solution (snd st1)"
    "newton_update (snd st') = newton_update (snd st1)"
    "evaluation_point (snd st')
         = constraints_distribute ex True
             (\<lambda>i. present_solution (snd st1) i + alpha / 2 / 2 ^ n * newton_update (snd st1) i)"
    using Suc.IH [OF half, of st1] by blast
  show ?case
    by (rule exI [of _ st']) (simp add: st1 st')
qed

lemma direct_line_search_takes_last:
  "present_solution (snd (direct_line_search ms ex 1 st)) = present_solution (snd st)
   \<and> newton_update (snd (direct_line_search ms ex 1 st)) = newton_update (snd st)
   \<and> evaluation_point (snd (direct_line_search ms ex 1 st))
       = constraints_distribute ex True
           (\<lambda>i. present_solution (snd st) i + 1 / 512 * newton_update (snd st) i)"
proof -
  have "(1::real) / 2 ^ 9 > 1 / 1000" by simp
  from direct_line_search_steps [OF this, of ms ex st]
  obtain st' where st': "direct_line_search ms ex 1 st = direct_line_search ms ex (1 / 2 ^ Suc 9) st'"
    "present_solution (snd st') = present_solution (snd st)"
    "newton_update (snd st') = newton_update (snd st)"
    "evaluation_point (snd st')
         = constraints_distribute ex True
             (\<lambda>i. present_solution (snd st) i + 1 / 2 ^ 9 * newton_update (snd st) i)"
    by blast
  have "direct_line_search ms ex (1 / 2 ^ Suc 9) st' = st'"
    by (rule direct_line_search_stop) simp
  with st' show ?thesis by simp
qed

lemma toy_trial:
  "line_search_trial toy_mesh (toy_externals jac) fs alpha S =
     Inr (S\<lparr>evaluation_point := (\<lambda>i. present_solution S i + alpha * newton_update S i),
           system_rhs := (\<lambda>i. 0)(0 := 2 / 5 - (present_solution S 0 + alpha * newton_update S 0)),
           present_solution := (\<lambda>i. present_solution S i + alpha * newton_update S i),
           last_vect := (\<lambda>i. present_solution S i + alpha * newton_update S i)\<rparr>)"
  by (simp add: line_search_trial_def Let_def toy_simps)

lemma toy_line_search:
  "line_search toy_mesh (toy_externals (2 / 5)) 1
     (\<lparr>first_step = False, current_res = 3 / 5, last_res = 3 / 5\<rparr>, toy_search_entry)
   = Inr (\<lparr>first_step = False, current_res = 12273 / 5120, last_res = 12273 / 5120\<rparr>,
          \<lparr>system_matrix = mat_add (\<lambda>i j. 0) 0 0 (2 / 5),
           system_rhs = (\<lambda>i. 0)(0 := 12273 / 5120),
           present_solution = (\<lambda>i. - (2045 / 1024)), newton_update = (\<lambda>i. - (3 / 2)),
           evaluation_point = (\<lambda>i. - (2045 / 1024)), last_vect = (\<lambda>i. - (2045 / 1024))\<rparr>)"
  by (simp add: line_search.simps toy_trial toy_norm toy_search_entry_def)

lemma toy_spec_residual:
  "spec_trial_residual toy_mesh (toy_externals jac) S alpha
     = \<bar>2 / 5 - (present_solution S 0 + alpha * newton_update S 0)\<bar>"
  by (simp add: spec_trial_residual_def toy_simps)

lemma toy_first_step_overshoot:
  "newton_first_step toy_mesh (toy_externals (2 / 5))
     (\<lparr>first_step = True, current_res = 1, last_res = 1\<rparr>, toy_solver)
   = Inr (\<lparr>first_step = False, current_res = 3 / 5, last_res = 3 / 5\<rparr>,
          \<lparr>system_matrix = mat_add (\<lambda>i j. 0) 0 0 (2 / 5),
           system_rhs = (\<lambda>i. 0)(0 := - (3 / 5)),
           present_solution = (\<lambda>i. 1), newton_update = (\<lambda>i. 1),
           evaluation_point = (\<lambda>i. 1), last_vect = (\<lambda>i. 1)\<rparr>)"
  by (simp add: newton_first_step_def toy_simps Let_def initialize_system_def mat_add_def
      toy_solver_def)

lemma toy_later_step_overshoot:
  "newton_later_step toy_mesh (toy_externals (2 / 5))
     (\<lparr>first_step = False, current_res = 3 / 5, last_res = 3 / 5\<rparr>,
          \<lparr>system_matrix = mat_add (\<lambda>i j. 0) 0 0 (2 / 5),
           system_rhs = (\<lambda>i. 0)(0 := - (3 / 5)),
           present_solution = (\<lambda>i. 1), newton_update = (\<lambda>i. 1),
           evaluation_point = (\<lambda>i. 1), last_vect = (\<lambda>i. 1)\<rparr>)
   = line_search toy_mesh (toy_externals (2 / 5)) 1
       (\<lparr>first_step = False, current_res = 3 / 5, last_res = 3 / 5\<rparr>, toy_search_entry)"
  by (simp add: newton_later_step_def toy_simps Let_def mat_add_def toy_search_entry_def)

lemma tensor_norm_2: "tensor_norm [vx, vy] = sqrt (vx\<^sup>2 + vy\<^sup>2)"
  by (simp add: tensor_norm_def power2_eq_square)

lemma tensor_norm_3: "tensor_norm [vx, vy, vz] = sqrt (vx\<^sup>2 + vy\<^sup>2 + vz\<^sup>2)"
  by (simp add: tensor_norm_def power2_eq_square add.assoc)

lemma sqrt_25: "sqrt 25 = 5"
  using real_sqrt_abs [of 5] by simp

lemma sqrt_4: "sqrt 4 = 2"
  using real_sqrt_abs [of 2] by simp

lemma line_search_trial_override:
  assumes "line_search_trial ms ex fs alpha S = Inr S1"
  shows "\<exists>S5. sharp_edge_V2 ms fs
                 (assemble_rhs ms ex fs
                    (S\<lparr>evaluation_point :=
                         constraints_distribute ex True
                           (\<lambda>i. present_solution S i + alpha * newton_update S i)\<rparr>))
               = Inr S5
             \<and> system_rhs S1 = system_rhs S5 \<and> system_matrix S1 = system_matrix S5"
  using assms unfolding line_search_trial_def
  by (auto simp: Let_def split: sum.splits)

lemma toy_line_search_half:
  "line_search toy_mesh (toy_externals (2 / 5)) (1 / 2)
     (\<lparr>first_step = False, current_res = 3 / 5, last_res = 3 / 5\<rparr>, toy_search_entry)
   = Inr (\<lparr>first_step = False, current_res = 3 / 20, last_res = 3 / 5\<rparr>,
          \<lparr>system_matrix = mat_add (\<lambda>i j. 0) 0 0 (2 / 5),
           system_rhs = (\<lambda>i. 0)(0 := 3 / 20),
           present_solution = (\<lambda>i. 1 / 4), newton_update = (\<lambda>i. - (3 / 2)),
           evaluation_point = (\<lambda>i. 1 / 4), last_vect = (\<lambda>i. 1 / 4)\<rparr>)"
  by (simp add: line_search.simps toy_trial toy_norm toy_search_entry_def)

lemma pnorm_on_y_axis: "pnorm (0, a) = \<bar>a\<bar>"
  by (simp add: pnorm_def)

lemma stencil_cell_single: "stencil_cell [c] p = Inr c"
  by (simp add: stencil_cell_def split: option.splits)

lemma plate_fields:
  "dofs_per_cell (plate_mesh r r2 cou) = 12" "n_dofs (plate_mesh r r2 cou) = 12"
  "radius (plate_mesh r r2 cou) = r" "radius_2 (plate_mesh r r2 cou) = r2"
  "couette (plate_mesh r r2 cou) = cou" "active_cells (plate_mesh r r2 cou) = [plate_cell]"
  "shape_value (plate_mesh r r2 cou) = q1_shape_value"
  by (simp_all add: plate_mesh_def)

lemma plate_dofs: "get_dof_indices (plate_mesh r r2 cou) plate_cell = [0..<12]"
  by (simp add: get_dof_indices_def plate_fields plate_cell_def)

lemma plate_overridden: "l < 12 \<Longrightarrow> overridden_dof (plate_mesh r r2 cou) plate_cell l = l"
  by (simp add: overridden_dof_def plate_dofs)

lemma plate_support: "support_points (plate_mesh r r2 cou) j = plate_vertices ! (j div 3)"
  by (simp add: plate_mesh_def)

lemma plate_neighbours: "neighbours (plate_mesh r r2 cou) plate_cell l = [plate_cell]"
  by (simp add: neighbours_def plate_mesh_def)

lemma plate_transform:
  "transform_real_to_unit_cell plate_cell p
     = Some ((fst p - 1 / 5) / (3 / 5), (snd p - 1 / 4) / (11 / 20))"
  by (simp add: plate_cell_def)

lemma plate_row_small:
  assumes "l < 12"
  shows "rewrite_row_small (plate_mesh r r2 cou) initial_step plate_cell k l S =
    Inr (S\<lparr>system_matrix :=
             (if pnorm (vect_dist_small r (plate_vertices ! (l div 3))) \<noteq> 0
              then add_stencil (plate_mesh r r2 cou) k
                     (get_dof_indices (plate_mesh r r2 cou) plate_cell)
                     ((fst (second_point_small r (plate_vertices ! (l div 3))) - 1 / 5) / (3 / 5),
                      (snd (second_point_small r (plate_vertices ! (l div 3))) - 1 / 4) / (11 / 20))
                     (system_matrix S l l) l
                     (mat_set (clear_row (plate_mesh r r2 cou) [plate_cell] l (system_matrix S))
                        l l (- 2 / (1 / system_matrix S l l)))
              else mat_set (clear_row (plate_mesh r r2 cou) [plate_cell] l (system_matrix S))
                     l l (system_matrix S l l)),
           system_rhs := (system_rhs S)(l :=
             (if cou \<and> initial_step
              then boundary_value k (unit_normal center_immersed (plate_vertices ! (l div 3)))
                     / (1 / system_matrix S l l)
              else 0))\<rparr>)"
proof -
  have a: "stencil_cell (neighbours (plate_mesh r r2 cou) plate_cell l)
     (second_point_small (radius (plate_mesh r r2 cou))
        (support_points (plate_mesh r r2 cou) (overridden_dof (plate_mesh r r2 cou) plate_cell l)))
     = Inr plate_cell"
    by (simp add: plate_neighbours stencil_cell_single)
  show ?thesis
    using assms
    by (simp add: rewrite_row_small_unfold [OF a plate_transform] plate_overridden plate_support
        plate_fields plate_neighbours)
qed

lemma plate_norms:
  "pnorm (psub (plate_vertices ! 0) center_immersed) = 1 / 4"
  "pnorm (psub (plate_vertices ! Suc 0) center_immersed) = 13 / 20"
  "pnorm (psub (plate_vertices ! 2) center_immersed) = 4 / 5"
  "pnorm (psub (plate_vertices ! 3) center_immersed) = 1"
proof -
  have n: "pnorm (3 / 5, 1 / 4) = 13 / 20" "pnorm (3 / 5, 4 / 5) = 1"
    by (rule pnorm_pythagoras; simp)+
  show "pnorm (psub (plate_vertices ! 0) center_immersed) = 1 / 4"
    "pnorm (psub (plate_vertices ! Suc 0) center_immersed) = 13 / 20"
    "pnorm (psub (plate_vertices ! 2) center_immersed) = 4 / 5"
    "pnorm (psub (plate_vertices ! 3) center_immersed) = 1"
    by (simp_all add: plate_vertices_def center_immersed_def psub_def pnorm_on_y_axis n)
qed

lemma plate_count:
  "count_inside (plate_mesh r r2 cou) rho (get_dof_indices (plate_mesh r r2 cou) plate_cell)
     = (if 1 / 4 \<le> rho then 3 else 0) + (if 13 / 20 \<le> rho then 3 else 0)
       + (if 4 / 5 \<le> rho then 3 else 0) + (if 1 \<le> rho then 3 else 0)"
  by (simp add: count_inside_def plate_dofs plate_support upt_rec plate_norms)

lemma plate_cleared: "cleared_columns (plate_mesh r r2 cou) [plate_cell] = {0..<12}"
  by (simp add: cleared_columns_def plate_fields plate_cell_def)

lemma fold_err_invariant:
  assumes "\<And>x S S'. x \<in> set xs \<Longrightarrow> f x S = Inr S' \<Longrightarrow> g S' = g S"
    and "fold_err f xs S = Inr S'"
  shows "g S' = g S"
  using assms
proof (induction xs arbitrary: S)
  case Nil
  then show ?case by simp
next
  case (Cons x xs)
  from Cons.prems(2) obtain S1 where S1: "f x S = Inr S1" and rest: "fold_err f xs S1 = Inr S'"
    by (auto split: sum.splits)
  have "g S' = g S1"
    using Cons.prems(1) rest by (intro Cons.IH) auto
  moreover have "g S1 = g S" using Cons.prems(1) S1 by auto
  ultimately show ?case by simp
qed

lemma fold_err_single: "fold_err f [x] S = f x S"
  by (cases "f x S") simp_all

lemma fold_err_total:
  assumes "\<And>x S. x \<in> set xs \<Longrightarrow> \<exists>S'. f x S = Inr S'"
  shows "\<exists>S'. fold_err f xs S = Inr S'"
  using assms
proof (induction xs arbitrary: S)
  case Nil
  then show ?case by simp
next
  case (Cons x xs)
  obtain S1 where S1: "f x S = Inr S1" using Cons.prems by force
  have "\<exists>S'. fold_err f xs S1 = Inr S'" using Cons.prems by (intro Cons.IH) auto
  with S1 show ?case by simp
qed

lemma rewrite_row_small_other_rows:
  assumes run: "rewrite_row_small ms initial_step c k l S = Inr S'"
    and a: "a \<noteq> overridden_dof ms c l"
  shows "system_matrix S' a = system_matrix S a \<and> system_rhs S' a = system_rhs S a"
proof -
  obtain cell_2 xi where
    cell_2: "stencil_cell (neighbours ms c l)
               (second_point_small (radius ms) (support_points ms (overridden_dof ms c l)))
             = Inr cell_2"
    and xi: "transform_real_to_unit_cell cell_2
               (second_point_small (radius ms) (support_points ms (overridden_dof ms c l)))
             = Some xi"
    using rewrite_row_small_cases [OF run] by blast
  have m: "system_matrix S' a b = system_matrix S a b" for b
    using run a unfolding rewrite_row_small_unfold [OF cell_2 xi]
    by (auto simp: add_stencil_entry mat_set_apply clear_row_entry)
  have r: "system_rhs S' a = system_rhs S a"
    using a unfolding rewrite_row_small_rhs [OF run] by simp
  from m r show ?thesis by auto
qed

lemma plate_small_pass:
  assumes "1 / 4 \<le> r" and "r < 1" and "\<not> cou \<or> r2 < 1 / 4 \<or> 1 \<le> r2"
  shows "sharp_edge_V2 (plate_mesh r r2 cou) initial_step S =
     fold_err (\<lambda>k S. if k < dim
                       then fold_err (rewrite_row_small (plate_mesh r r2 cou) initial_step
                                        plate_cell k)
                              (stride k 12) S
                       else Inr S) [0..<dim + 1] S"
proof -
  have small: "count_inside (plate_mesh r r2 cou) r
                 (get_dof_indices (plate_mesh r r2 cou) plate_cell) \<noteq> 0"
    "count_inside (plate_mesh r r2 cou) r
                 (get_dof_indices (plate_mesh r r2 cou) plate_cell) \<noteq> 12"
    using assms(1,2) by (simp_all add: plate_count)
  have large: "cou \<Longrightarrow> count_inside (plate_mesh r r2 cou) r2
                 (get_dof_indices (plate_mesh r r2 cou) plate_cell) = 0
               \<or> count_inside (plate_mesh r r2 cou) r2
                 (get_dof_indices (plate_mesh r r2 cou) plate_cell) = 12"
    using assms(3) by (auto simp: plate_count)
  have ovr: "override_cell (plate_mesh r r2 cou) initial_step plate_cell S =
     fold_err (\<lambda>k S. if k < dim
                       then fold_err (rewrite_row_small (plate_mesh r r2 cou) initial_step
                                        plate_cell k)
                              (stride k 12) S
                       else Inr S) [0..<dim + 1] S"
    using small large
    by (auto simp: override_cell_def Let_def plate_fields length_get_dof_indices
        case_sum_same cong: sum.case_cong if_cong)
  show ?thesis
    by (simp only: sharp_edge_V2_def plate_fields fold_err_single ovr)
qed

lemma plate_small_pass_first_row:
  assumes "1 / 4 \<le> r" and "r < 1" and "\<not> cou \<or> r2 < 1 / 4 \<or> 1 \<le> r2"
  shows "\<exists>S1 Sf. rewrite_row_small (plate_mesh r r2 cou) initial_step plate_cell 0 0 S = Inr S1
           \<and> sharp_edge_V2 (plate_mesh r r2 cou) initial_step S = Inr Sf
           \<and> system_matrix Sf 0 = system_matrix S1 0 \<and> system_rhs Sf 0 = system_rhs S1 0"
proof -
  let ?ms = "plate_mesh r r2 cou"
  let ?g = "\<lambda>S. (system_matrix S 0, system_rhs S 0)"
  obtain S1 where S1: "rewrite_row_small ?ms initial_step plate_cell 0 0 S = Inr S1"
    by (simp add: plate_row_small)
  have total: "\<exists>S'. rewrite_row_small ?ms initial_step plate_cell k l S = Inr S'"
    if "l < 12" for k l S
    using that by (simp add: plate_row_small)
  have keeps: "?g S' = ?g S"
    if "rewrite_row_small ?ms initial_step plate_cell k l S = Inr S'" "l < 12" "l \<noteq> 0"
    for k l S S'
    using rewrite_row_small_other_rows [OF that(1), of 0] that(2,3)
    by (simp add: plate_overridden)
  have "\<exists>Sa. fold_err (rewrite_row_small ?ms initial_step plate_cell 0) [3, 6, 9] S1 = Inr Sa"
    by (rule fold_err_total, rule total) auto
  then obtain Sa where
    Sa: "fold_err (rewrite_row_small ?ms initial_step plate_cell 0) [3, 6, 9] S1 = Inr Sa" ..
  have "\<exists>Sb. fold_err (rewrite_row_small ?ms initial_step plate_cell (Suc 0))
                         [1, 4, 7, 10] Sa = Inr Sb"
    by (rule fold_err_total, rule total) auto
  then obtain Sb where
    Sb: "fold_err (rewrite_row_small ?ms initial_step plate_cell (Suc 0))
                         [1, 4, 7, 10] Sa = Inr Sb" ..
  have ga: "?g Sa = ?g S1"
  proof (rule fold_err_invariant [OF _ Sa])
    fix x S S'
    assume x: "x \<in> set [3, 6, 9]"
      and run: "rewrite_row_small ?ms initial_step plate_cell 0 x S = Inr S'"
    from x show "?g S' = ?g S" by (intro keeps [OF run]) auto
  qed
  have gb: "?g Sb = ?g Sa"
  proof (rule fold_err_invariant [OF _ Sb])
    fix x S S'
    assume x: "x \<in> set [1, 4, 7, 10]"
      and run: "rewrite_row_small ?ms initial_step plate_cell (Suc 0) x S = Inr S'"
    from x show "?g S' = ?g S" by (intro keeps [OF run]) auto
  qed
  have k0: "fold_err (rewrite_row_small ?ms initial_step plate_cell 0) (stride 0 12) S = Inr Sa"
    by (simp only: stride_0_12 fold_err.simps(2) [of _ 0] S1 sum.case Sa)
  have k1: "fold_err (rewrite_row_small ?ms initial_step plate_cell (Suc 0)) (stride (Suc 0) 12) Sa
            = Inr Sb"
    by (simp only: stride_Suc0_12 Sb)
  have ks: "[0..<dim + 1] = [0, Suc 0, 2]" by (simp add: dim_def upt_rec)
  have "sharp_edge_V2 ?ms initial_step S = Inr Sb"
    unfolding plate_small_pass [OF assms] ks by (simp add: dim_def k0 k1)
  with S1 ga gb show ?thesis by auto
qed

lemma plate_small_pass_entries:
  assumes "1 / 4 \<le> r" and "r < 1" and "\<not> cou \<or> r2 < 1 / 4 \<or> 1 \<le> r2"
  shows "matrix_entry_of (sharp_edge_V2 (plate_mesh r r2 cou) initial_step S) 0 b
           = matrix_entry_of
               (rewrite_row_small (plate_mesh r r2 cou) initial_step plate_cell 0 0 S) 0 b"
    and "rhs_entry_of (sharp_edge_V2 (plate_mesh r r2 cou) initial_step S) 0
           = rhs_entry_of
               (rewrite_row_small (plate_mesh r r2 cou) initial_step plate_cell 0 0 S) 0"
  using plate_small_pass_first_row [OF assms, of initial_step S]
  by (auto simp: matrix_entry_of_def rhs_entry_of_def)

lemma plate_on_surface:
  "support_points (plate_mesh r r2 cou) 0 = (1 / 5, 1 / 4)"
  "pnorm (vect_dist_small (1 / 4) (1 / 5, 1 / 4)) = 0"
  "unit_normal center_immersed (1 / 5, 1 / 4) = (0, 1)"
  by (simp_all add: plate_support plate_vertices_def vect_dist_small_def unit_normal_def
      center_immersed_def point_ops pnorm_on_y_axis)

lemma plate_first_row_quarter:
  "rewrite_row_small (plate_mesh (1 / 4) r2 cou) initial_step plate_cell 0 0 S =
     Inr (S\<lparr>system_matrix :=
              mat_set (clear_row (plate_mesh (1 / 4) r2 cou) [plate_cell] 0 (system_matrix S))
                0 0 (system_matrix S 0 0),
            system_rhs := (system_rhs S)(0 :=
              (if cou \<and> initial_step then system_matrix S 0 0 else 0))\<rparr>)"
  using plate_on_surface(2,3)
  by (simp add: plate_row_small plate_vertices_def boundary_value_def)

lemma direct_rewrite_row_small_cases:
  assumes "direct_rewrite_row_small ms c k l S = Inr D'"
  shows "\<exists>cell_2 xi.
           find_active_cell_around_point ms
             (direct_second_point direct_radius (support_points ms (overridden_dof ms c l)))
           = Some cell_2
         \<and> transform_real_to_unit_cell cell_2
             (direct_second_point direct_radius (support_points ms (overridden_dof ms c l)))
           = Some xi"
  using assms
  by (auto simp: direct_rewrite_row_small_def Let_def overridden_dof_def direct_second_point_def
      split: option.splits)

lemma direct_rewrite_row_small_other_rows:
  assumes run: "direct_rewrite_row_small ms c k l S = Inr D'"
    and a: "a \<noteq> overridden_dof ms c l"
  shows "system_matrix D' a = system_matrix S a \<and> system_rhs D' a = system_rhs S a"
proof -
  obtain cell_2 xi where
    cell_2: "find_active_cell_around_point ms
               (direct_second_point direct_radius (support_points ms (overridden_dof ms c l)))
             = Some cell_2"
    and xi: "transform_real_to_unit_cell cell_2
               (direct_second_point direct_radius (support_points ms (overridden_dof ms c l)))
             = Some xi"
    using direct_rewrite_row_small_cases [OF run] by blast
  have m: "system_matrix D' a b = system_matrix S a b" for b
    using run a unfolding direct_rewrite_row_small_unfold [OF cell_2 xi]
    by (auto simp: direct_add_stencil_entry mat_set_apply clear_whole_row_entry)
  have r: "system_rhs D' a = system_rhs S a"
    using a unfolding direct_rewrite_row_small_rhs [OF run] by simp
  from m r show ?thesis by auto
qed

lemma sector_fields:
  "dofs_per_cell sector_mesh = 12" "n_dofs sector_mesh = 24"
  "active_cells sector_mesh = [sector_cell_I, sector_cell_A, sector_cell_O]"
  "shape_value sector_mesh = q1_shape_value"
  by (simp_all add: sector_mesh_def)

lemma sector_dofs:
  "get_dof_indices sector_mesh sector_cell_I = [2, 3, 17, 0, 1, 16, 10, 11, 21, 8, 9, 20]"
  "get_dof_indices sector_mesh sector_cell_A = [4, 5, 18, 2, 3, 17, 12, 13, 22, 10, 11, 21]"
  "get_dof_indices sector_mesh sector_cell_O = [6, 7, 19, 4, 5, 18, 14, 15, 23, 12, 13, 22]"
  by (simp_all add: get_dof_indices_def sector_fields sector_cell_I_def sector_cell_A_def
      sector_cell_O_def sector_cell_def upt_rec)

lemma sector_support:
  "support_points sector_mesh 0 = (0, 1 / 20)" "support_points sector_mesh (Suc 0) = (0, 1 / 20)"
  "support_points sector_mesh 2 = (0, 3 / 20)" "support_points sector_mesh 3 = (0, 3 / 20)"
  "support_points sector_mesh 4 = (0, 27 / 100)" "support_points sector_mesh 5 = (0, 27 / 100)"
  "support_points sector_mesh 6 = (0, 12 / 25)" "support_points sector_mesh 7 = (0, 12 / 25)"
  "support_points sector_mesh 8 = (1 / 20, 0)" "support_points sector_mesh 9 = (1 / 20, 0)"
  "support_points sector_mesh 10 = (3 / 20, 0)" "support_points sector_mesh 11 = (3 / 20, 0)"
  "support_points sector_mesh 12 = (27 / 100, 0)" "support_points sector_mesh 13 = (27 / 100, 0)"
  "support_points sector_mesh 14 = (12 / 25, 0)" "support_points sector_mesh 15 = (12 / 25, 0)"
  "support_points sector_mesh 16 = (0, 1 / 20)" "support_points sector_mesh 17 = (0, 3 / 20)"
  "support_points sector_mesh 18 = (0, 27 / 100)" "support_points sector_mesh 19 = (0, 12 / 25)"
  "support_points sector_mesh 20 = (1 / 20, 0)" "support_points sector_mesh 21 = (3 / 20, 0)"
  "support_points sector_mesh 22 = (27 / 100, 0)" "support_points sector_mesh 23 = (12 / 25, 0)"
  by (simp_all add: sector_mesh_def sector_vertices_def)

lemma sector_count:
  "direct_count_inside sector_mesh direct_radius (get_dof_indices sector_mesh sector_cell_I) = 12"
  "direct_count_inside sector_mesh direct_radius (get_dof_indices sector_mesh sector_cell_A) = 6"
  "direct_count_inside sector_mesh direct_radius (get_dof_indices sector_mesh sector_cell_O) = 0"
  "direct_count_inside sector_mesh direct_radius_2 (get_dof_indices sector_mesh sector_cell_I) = 12"
  "direct_count_inside sector_mesh direct_radius_2 (get_dof_indices sector_mesh sector_cell_A) = 12"
  "direct_count_inside sector_mesh direct_radius_2 (get_dof_indices sector_mesh sector_cell_O) = 12"
  by (simp_all add: direct_count_inside_def sector_dofs sector_support direct_center_immersed_def
      psub_def pnorm_on_axis pnorm_on_y_axis direct_radius_def direct_radius_2_def)

lemma sector_overridden:
  "overridden_dof sector_mesh sector_cell_A 0 = 4"
  "overridden_dof sector_mesh sector_cell_A (Suc 0) = 5"
  "overridden_dof sector_mesh sector_cell_A 3 = 2"
  "overridden_dof sector_mesh sector_cell_A 4 = 3"
  "overridden_dof sector_mesh sector_cell_A 6 = 12"
  "overridden_dof sector_mesh sector_cell_A 7 = 13"
  "overridden_dof sector_mesh sector_cell_A 9 = 10"
  "overridden_dof sector_mesh sector_cell_A 10 = 11"
  by (simp_all add: overridden_dof_def sector_dofs)

lemma sector_vect_dist:
  "direct_vect_dist direct_radius (0, 27 / 100) = (0, 3 / 50)"
  "direct_vect_dist direct_radius (0, 3 / 20) = (0, - (3 / 50))"
  "direct_vect_dist direct_radius (27 / 100, 0) = (3 / 50, 0)"
  "direct_vect_dist direct_radius (3 / 20, 0) = (- (3 / 50), 0)"
  by (simp_all add: direct_vect_dist_def direct_radius_def direct_center_immersed_def point_ops
      pnorm_on_axis pnorm_on_y_axis)

lemma sector_second_point:
  "direct_second_point direct_radius (0, 27 / 100) = (0, 33 / 100)"
  "direct_second_point direct_radius (0, 3 / 20) = (0, 9 / 100)"
  "direct_second_point direct_radius (27 / 100, 0) = (33 / 100, 0)"
  "direct_second_point direct_radius (3 / 20, 0) = (9 / 100, 0)"
  by (simp_all add: direct_second_point_def sector_vect_dist padd_def)

lemma sector_find:
  "find_active_cell_around_point sector_mesh (0, 33 / 100) = Some sector_cell_O"
  "find_active_cell_around_point sector_mesh (0, 9 / 100) = Some sector_cell_I"
  "find_active_cell_around_point sector_mesh (33 / 100, 0) = Some sector_cell_O"
  "find_active_cell_around_point sector_mesh (9 / 100, 0) = Some sector_cell_I"
  by (simp_all add: sector_mesh_def)

lemma sector_transform:
  "transform_real_to_unit_cell sector_cell_O (0, 33 / 100) = Some (5 / 7, 0)"
  "transform_real_to_unit_cell sector_cell_I (0, 9 / 100) = Some (3 / 5, 0)"
  "transform_real_to_unit_cell sector_cell_O (33 / 100, 0) = Some (5 / 7, 1)"
  "transform_real_to_unit_cell sector_cell_I (9 / 100, 0) = Some (3 / 5, 1)"
  by (simp_all add: sector_cell_O_def sector_cell_I_def sector_cell_def)

lemmas sector_geometry = sector_overridden sector_support sector_vect_dist sector_second_point
  sector_find sector_transform

lemma sector_stencil_0:
  "find_active_cell_around_point sector_mesh
     (direct_second_point direct_radius
        (support_points sector_mesh (overridden_dof sector_mesh sector_cell_A 0)))
   = Some sector_cell_O"
  "transform_real_to_unit_cell sector_cell_O
     (direct_second_point direct_radius
        (support_points sector_mesh (overridden_dof sector_mesh sector_cell_A 0)))
   = Some (5 / 7, 0)"
  "pnorm (direct_vect_dist direct_radius
        (support_points sector_mesh (overridden_dof sector_mesh sector_cell_A 0))) = 3 / 50"
  by (simp_all add: sector_geometry pnorm_on_y_axis)

lemma sector_row_total:
  assumes "l \<in> {0, 3, 6, 9, 1, 4, 7, 10}"
  shows "\<exists>D'. direct_rewrite_row_small sector_mesh sector_cell_A k l S = Inr D'"
  using assms
  by (elim insertE emptyE)
    (simp_all add: direct_rewrite_row_small_def Let_def sector_dofs,
     simp_all add: sector_mesh_def sector_vertices_def direct_vect_dist_def direct_radius_def
       direct_center_immersed_def point_ops pnorm_on_axis pnorm_on_y_axis,
     simp_all add: sector_cell_O_def sector_cell_I_def sector_cell_def)

lemma sector_override_cells:
  "direct_override_cell sector_mesh sector_cell_I S = Inr S"
  "direct_override_cell sector_mesh sector_cell_O S = Inr S"
  "direct_override_cell sector_mesh sector_cell_A S =
     fold_err (\<lambda>k S. if k < 2
                       then fold_err (direct_rewrite_row_small sector_mesh sector_cell_A k)
                              (stride k 12) S
                       else Inr S) [0..<3] S"
  by (simp_all add: direct_override_cell_def Let_def sector_count length_get_dof_indices
      sector_fields case_sum_same cong: sum.case_cong if_cong)

lemma sector_pass_first_row:
  "\<exists>D1 D2 Df. direct_rewrite_row_small sector_mesh sector_cell_A 0 0 S = Inr D1
       \<and> fold_err (direct_override_cell sector_mesh) (active_cells sector_mesh) S = Inr D2
       \<and> direct_sharp_edge_V2 sector_mesh h S = Inr Df
       \<and> system_matrix D2 4 = system_matrix D1 4 \<and> system_rhs D2 4 = system_rhs D1 4
       \<and> system_matrix D2 23 = system_matrix S 23 \<and> system_rhs D2 23 = system_rhs S 23
       \<and> system_matrix Df 4 = system_matrix D1 4 \<and> system_rhs Df 4 = system_rhs D1 4
       \<and> system_rhs Df 23 = 0
       \<and> system_matrix Df 23 23
           = 1 / ((h * h) / sqrt (2 * (h * h)) * ((h * h) / sqrt (2 * (h * h))))
       \<and> (\<forall>b < 23. system_matrix Df 23 b = 0)"
proof -
  let ?row = "direct_rewrite_row_small sector_mesh sector_cell_A"
  let ?g = "\<lambda>S. (system_matrix S 4, system_rhs S 4, system_matrix S 23, system_rhs S 23)"
  let ?h = "\<lambda>S. (system_matrix S 23, system_rhs S 23)"
  obtain D1 where D1: "?row 0 0 S = Inr D1"
    using sector_row_total [of 0 0 S] by auto
  have keeps: "?g S' = ?g S"
    if "?row k l S = Inr S'" "l \<in> {3, 6, 9, 1, 4, 7, 10}" for k l S S'
    using direct_rewrite_row_small_other_rows [OF that(1), of 4]
      direct_rewrite_row_small_other_rows [OF that(1), of 23] that(2)
    by (auto simp: sector_overridden)
  have h1: "?h D1 = ?h S"
    using direct_rewrite_row_small_other_rows [OF D1, of 23] by (simp add: sector_overridden)
  have "\<exists>Sa. fold_err (?row 0) [3, 6, 9] D1 = Inr Sa"
    by (rule fold_err_total, rule sector_row_total) auto
  then obtain Sa where Sa: "fold_err (?row 0) [3, 6, 9] D1 = Inr Sa" ..
  have "\<exists>Sb. fold_err (?row (Suc 0)) [1, 4, 7, 10] Sa = Inr Sb"
    by (rule fold_err_total, rule sector_row_total) auto
  then obtain Sb where Sb: "fold_err (?row (Suc 0)) [1, 4, 7, 10] Sa = Inr Sb" ..
  have ga: "?g Sa = ?g D1"
  proof (rule fold_err_invariant [OF _ Sa])
    fix x S S'
    assume x: "x \<in> set [3, 6, 9]" and run: "?row 0 x S = Inr S'"
    from x show "?g S' = ?g S" by (intro keeps [OF run]) auto
  qed
  have gb: "?g Sb = ?g Sa"
  proof (rule fold_err_invariant [OF _ Sb])
    fix x S S'
    assume x: "x \<in> set [1, 4, 7, 10]" and run: "?row (Suc 0) x S = Inr S'"
    from x show "?g S' = ?g S" by (intro keeps [OF run]) auto
  qed
  have k0: "fold_err (?row 0) (stride 0 12) S = Inr Sa"
    by (simp only: stride_0_12 fold_err.simps(2) [of _ 0] D1 sum.case Sa)
  have k1: "fold_err (?row (Suc 0)) (stride (Suc 0) 12) Sa = Inr Sb"
    by (simp only: stride_Suc0_12 Sb)
  have ks: "[0..<3] = [0, Suc 0, 2]" by (simp add: upt_rec)
  have A: "direct_override_cell sector_mesh sector_cell_A S = Inr Sb"
    unfolding sector_override_cells ks by (simp add: k0 k1)
  have D2: "fold_err (direct_override_cell sector_mesh) (active_cells sector_mesh) S = Inr Sb"
    by (simp add: sector_fields sector_override_cells(1,2) A)
  have Df: "direct_sharp_edge_V2 sector_mesh h S =
    Inr (Sb\<lparr>system_matrix :=
              mat_set (clear_whole_row sector_mesh 23 (system_matrix Sb)) 23 23
                (1 / ((h * h) / sqrt (2 * (h * h)) * ((h * h) / sqrt (2 * (h * h))))),
            system_rhs := (system_rhs Sb)(23 := 0)\<rparr>)"
    unfolding direct_sharp_edge_V2_def D2 by (simp add: Let_def sector_fields(2))
  show ?thesis
    using D1 D2 Df ga gb h1
    by (auto simp: mat_set_apply clear_whole_row_entry sector_fields fun_eq_iff)
qed

lemma rewrite_row_large_cases:
  assumes "rewrite_row_large ms c k l S = Inr S'"
  shows "\<exists>cell_2 xi.
           stencil_cell (neighbours ms c l)
             (second_point_large (radius_2 ms) (support_points ms (overridden_dof ms c l)))
           = Inr cell_2
         \<and> transform_real_to_unit_cell cell_2
             (second_point_large (radius_2 ms) (support_points ms (overridden_dof ms c l)))
           = Some xi"
  using assms
  by (auto simp: rewrite_row_large_def Let_def overridden_dof_def second_point_large_def
      split: sum.splits option.splits)

lemma rewrite_row_large_other_rows:
  assumes run: "rewrite_row_large ms c k l S = Inr S'"
    and a: "a \<noteq> overridden_dof ms c l"
  shows "system_matrix S' a = system_matrix S a \<and> system_rhs S' a = system_rhs S a"
proof -
  obtain cell_2 xi where
    cell_2: "stencil_cell (neighbours ms c l)
               (second_point_large (radius_2 ms) (support_points ms (overridden_dof ms c l)))
             = Inr cell_2"
    and xi: "transform_real_to_unit_cell cell_2
               (second_point_large (radius_2 ms) (support_points ms (overridden_dof ms c l)))
             = Some xi"
    using rewrite_row_large_cases [OF run] by blast
  have m: "system_matrix S' a b = system_matrix S a b" for b
    using run a unfolding rewrite_row_large_unfold [OF cell_2 xi]
    by (auto simp: add_stencil_entry mat_set_apply clear_row_entry)
  have r: "system_rhs S' a = system_rhs S a"
    using a unfolding rewrite_row_large_rhs [OF run] by simp
  from m r show ?thesis by auto
qed

lemma plate_row_large:
  assumes "l < 12"
  shows "rewrite_row_large (plate_mesh r r2 cou) plate_cell k l S =
    Inr (S\<lparr>system_matrix :=
             add_stencil (plate_mesh r r2 cou) k
               (get_dof_indices (plate_mesh r r2 cou) plate_cell)
               ((fst (second_point_large r2 (plate_vertices ! (l div 3))) - 1 / 5) / (3 / 5),
                (snd (second_point_large r2 (plate_vertices ! (l div 3))) - 1 / 4) / (11 / 20))
               (system_matrix S l l) l
               (mat_set (clear_row (plate_mesh r r2 cou) [plate_cell] l (system_matrix S))
                  l l (- 2 / (1 / system_matrix S l l))),
           system_rhs := (system_rhs S)(l := 0)\<rparr>)"
proof -
  have a: "stencil_cell (neighbours (plate_mesh r r2 cou) plate_cell l)
     (second_point_large (radius_2 (plate_mesh r r2 cou))
        (support_points (plate_mesh r r2 cou) (overridden_dof (plate_mesh r r2 cou) plate_cell l)))
     = Inr plate_cell"
    by (simp add: plate_neighbours stencil_cell_single)
  show ?thesis
    using assms
    by (simp add: rewrite_row_large_unfold [OF a plate_transform] plate_overridden plate_support
        plate_fields plate_neighbours)
qed

lemma plate_large_pass:
  assumes "r < 1 / 4" and "1 / 4 \<le> r2" and "r2 < 1"
  shows "sharp_edge_V2 (plate_mesh r r2 True) initial_step S =
     fold_err (\<lambda>k S. if k < 2
                       then fold_err (rewrite_row_large (plate_mesh r r2 True) plate_cell k)
                              (stride k 12) S
                       else Inr S) [0..<dim + 1] S"
proof -
  have small: "count_inside (plate_mesh r r2 True) r
                 (get_dof_indices (plate_mesh r r2 True) plate_cell) = 0"
    using assms(1) by (simp add: plate_count)
  have large: "count_inside (plate_mesh r r2 True) r2
                 (get_dof_indices (plate_mesh r r2 True) plate_cell) \<noteq> 0"
    "count_inside (plate_mesh r r2 True) r2
                 (get_dof_indices (plate_mesh r r2 True) plate_cell) \<noteq> 12"
    using assms(2,3) by (simp_all add: plate_count)
  have ovr: "override_cell (plate_mesh r r2 True) initial_step plate_cell S =
     fold_err (\<lambda>k S. if k < 2
                       then fold_err (rewrite_row_large (plate_mesh r r2 True) plate_cell k)
                              (stride k 12) S
                       else Inr S) [0..<dim + 1] S"
    using small large
    by (simp add: override_cell_def Let_def plate_fields length_get_dof_indices
        cong: sum.case_cong if_cong)
  show ?thesis
    by (simp only: sharp_edge_V2_def plate_fields fold_err_single ovr)
qed

lemma plate_large_pass_first_row:
  assumes "r < 1 / 4" and "1 / 4 \<le> r2" and "r2 < 1"
  shows "\<exists>L1 Lf. rewrite_row_large (plate_mesh r r2 True) plate_cell 0 0 S = Inr L1
           \<and> sharp_edge_V2 (plate_mesh r r2 True) initial_step S = Inr Lf
           \<and> system_matrix Lf 0 = system_matrix L1 0 \<and> system_rhs Lf 0 = system_rhs L1 0"
proof -
  let ?ms = "plate_mesh r r2 True"
  let ?g = "\<lambda>S. (system_matrix S 0, system_rhs S 0)"
  obtain L1 where L1: "rewrite_row_large ?ms plate_cell 0 0 S = Inr L1"
    by (simp add: plate_row_large)
  have total: "\<exists>S'. rewrite_row_large ?ms plate_cell k l S = Inr S'"
    if "l < 12" for k l S
    using that by (simp add: plate_row_large)
  have keeps: "?g S' = ?g S"
    if "rewrite_row_large ?ms plate_cell k l S = Inr S'" "l < 12" "l \<noteq> 0"
    for k l S S'
    using rewrite_row_large_other_rows [OF that(1), of 0] that(2,3)
    by (simp add: plate_overridden)
  have "\<exists>Sa. fold_err (rewrite_row_large ?ms plate_cell 0) [3, 6, 9] L1 = Inr Sa"
    by (rule fold_err_total, rule total) auto
  then obtain Sa where
    Sa: "fold_err (rewrite_row_large ?ms plate_cell 0) [3, 6, 9] L1 = Inr Sa" ..
  have "\<exists>Sb. fold_err (rewrite_row_large ?ms plate_cell (Suc 0)) [1, 4, 7, 10] Sa = Inr Sb"
    by (rule fold_err_total, rule total) auto
  then obtain Sb where
    Sb: "fold_err (rewrite_row_large ?ms plate_cell (Suc 0)) [1, 4, 7, 10] Sa = Inr Sb" ..
  have ga: "?g Sa = ?g L1"
  proof (rule fold_err_invariant [OF _ Sa])
    fix x S S'
    assume x: "x \<in> set [3, 6, 9]"
      and run: "rewrite_row_large ?ms plate_cell 0 x S = Inr S'"
    from x show "?g S' = ?g S" by (intro keeps [OF run]) auto
  qed
  have gb: "?g Sb = ?g Sa"
  proof (rule fold_err_invariant [OF _ Sb])
    fix x S S'
    assume x: "x \<in> set [1, 4, 7, 10]"
      and run: "rewrite_row_large ?ms plate_cell (Suc 0) x S = Inr S'"
    from x show "?g S' = ?g S" by (intro keeps [OF run]) auto
  qed
  have k0: "fold_err (rewrite_row_large ?ms plate_cell 0) (stride 0 12) S = Inr Sa"
    by (simp only: stride_0_12 fold_err.simps(2) [of _ 0] L1 sum.case Sa)
  have k1: "fold_err (rewrite_row_large ?ms plate_cell (Suc 0)) (stride (Suc 0) 12) Sa = Inr Sb"
    by (simp only: stride_Suc0_12 Sb)
  have ks: "[0..<dim + 1] = [0, Suc 0, 2]" by (simp add: dim_def upt_rec)
  have "sharp_edge_V2 ?ms initial_step S = Inr Sb"
    unfolding plate_large_pass [OF assms] ks by (simp add: k0 k1)
  with L1 ga gb show ?thesis by auto
qed

lemma sector_weight_O:
  "stencil_weight sector_mesh sector_cell_O 0 xi m
     = (if m = 6 then q1_shape_value 0 xi else 0) + (if m = 4 then q1_shape_value 3 xi else 0)
       + (if m = 14 then q1_shape_value 6 xi else 0) + (if m = 12 then q1_shape_value 9 xi else 0)"
  by (simp add: stencil_weight_def sector_fields stride_0_12 sector_cell_O_def sector_cell_def)

lemma sector_range:
  "\<forall>n < dofs_per_cell sector_mesh. dof_index sector_cell_O n < n_dofs sector_mesh"
proof (intro allI impI)
  fix n assume "n < dofs_per_cell sector_mesh"
  then have n: "n < 12" by (simp add: sector_fields)
  have "dof_index sector_cell_O n = get_dof_indices sector_mesh sector_cell_O ! n"
    using n by (simp add: get_dof_indices_nth sector_fields)
  also have "\<dots> < 24"
    using n unfolding sector_dofs by (simp add: nth_Cons' )
  finally show "dof_index sector_cell_O n < n_dofs sector_mesh" by (simp add: sector_fields)
qed

lemma demo_cleared_4: "4 \<in> cleared_columns (demo_mesh r cou) [demo_cell_A, demo_cell_B]"
proof -
  have "dof_index demo_cell_B 3 \<in> dof_index demo_cell_B ` {0..<dofs_per_cell (demo_mesh r cou)}"
    by (rule imageI) (simp add: demo_dpc)
  moreover have "dof_index demo_cell_B 3 = 4" by (simp add: demo_cell_B_def)
  ultimately show ?thesis by (simp add: cleared_columns_def)
qed

lemma demo_pass_row_2:
  "matrix_entry_of (sharp_edge_V2 (demo_mesh (21 / 100) False) False S) 2 2
     = Some (- 2 * system_matrix S 2 2 + system_matrix S 2 2 * (5 / 7))"
  "matrix_entry_of (sharp_edge_V2 (demo_mesh (21 / 100) False) False S) 2 4
     = Some (system_matrix S 2 2 * (2 / 7))"
  by (simp_all add: sharp_edge_V2_def demo_active_cells demo_override_cell_A demo_override_cell_B
      dim_def upt_rec stride_0_12 stride_Suc0_12 demo_rows matrix_entry_of_def
      add_stencil_entry mat_set_apply clear_row_entry demo_weight_A demo_weight_B q1_values
      demo_cleared_4)

lemma sector_pass_entries:
  "matrix_entry_of (direct_sharp_edge_V2 sector_mesh h S) 4 b
     = matrix_entry_of (direct_rewrite_row_small sector_mesh sector_cell_A 0 0 S) 4 b"
  "rhs_entry_of (direct_sharp_edge_V2 sector_mesh h S) 4
     = rhs_entry_of (direct_rewrite_row_small sector_mesh sector_cell_A 0 0 S) 4"
  "rhs_entry_of (direct_sharp_edge_V2 sector_mesh h S) 23 = Some 0"
  using sector_pass_first_row [of S h]
  by (auto simp: matrix_entry_of_def rhs_entry_of_def)

lemma sector_first_row:
  "direct_rewrite_row_small sector_mesh sector_cell_A 0 0 S =
     Inr (S\<lparr>system_matrix :=
              direct_add_stencil sector_mesh 0 (get_dof_indices sector_mesh sector_cell_O)
                (5 / 7, 0) (3 / 50) 4
                (mat_set (clear_whole_row sector_mesh 4 (system_matrix S)) 4 4
                   (- 2 / (3 / 50 * (3 / 50)))),
            system_rhs := (system_rhs S)(4 := 1 / (3 / 50 * (3 / 50)))\<rparr>)"
  unfolding direct_rewrite_row_small_unfold [OF sector_stencil_0(1,2)] sector_stencil_0(3)
  by (simp add: sector_geometry boundary_value_def unit_normal_def direct_center_immersed_def
      point_ops pnorm_on_y_axis)

lemma demo_inj_A: "inj_on (dof_index demo_cell_A) {0..<dofs_per_cell (demo_mesh r cou)}"
  by (simp add: demo_cell_A_def demo_dpc inj_on_nth)

lemma boundary_value_surface_velocity:
  "boundary_value k (cos t, sin t)
     = - (if k = 0 then fst (surface_velocity t) else snd (surface_velocity t))"
  by (simp add: boundary_value_def surface_velocity_def)

lemma direct_sharp_edge_V2_last_rhs:
  assumes "direct_sharp_edge_V2 ms h D = Inr D'"
  shows "system_rhs D' (n_dofs ms - 1) = 0"
  using assms
  by (auto simp: direct_sharp_edge_V2_def Let_def split: sum.splits if_splits)

lemma plate_first_row_two_fifths:
  "pnorm (vect_dist_small (2 / 5) (1 / 5, 1 / 4)) = 3 / 20"
  "rhs_entry_of (rewrite_row_small (plate_mesh (2 / 5) r2 cou) initial_step plate_cell 0 0 S) 0
     = Some (if cou \<and> initial_step then system_matrix S 0 0 else 0)"
proof -
  show "pnorm (vect_dist_small (2 / 5) (1 / 5, 1 / 4)) = 3 / 20"
    by (simp add: vect_dist_small_def center_immersed_def point_ops pnorm_on_y_axis)
  show "rhs_entry_of (rewrite_row_small (plate_mesh (2 / 5) r2 cou) initial_step plate_cell 0 0 S) 0
     = Some (if cou \<and> initial_step then system_matrix S 0 0 else 0)"
    using plate_on_surface(3)
    by (simp add: plate_row_small rhs_entry_of_def plate_vertices_def boundary_value_def)
qed

section \<open>Theorems\<close>

text \<open>
  C9, as amended. In \<^verbatim>\<open>torque\<close> of the GLS solver the sampling step along the normal is
  twice \<open>h_min / \<surd>2\<close>, that is \<open>\<surd>2 h_min\<close>: line 1237 computes \<open>h_min / \<surd>2\<close> and
  line 1238 doubles it before any use. The direct solver uses \<open>h_min / \<surd>2\<close> itself.
\<close>

theorem torque_dr_doubled:
  assumes "0 < h_min"
  shows "torque_dr h_min = 2 * (h_min / sqrt 2) \<and> torque_dr h_min = sqrt 2 * h_min
         \<and> direct_torque_dr h_min = h_min / sqrt 2"
proof -
  have q: "(h_min * h_min) / sqrt (2 * (h_min * h_min)) = h_min / sqrt 2"
    using assms by (rule quotient_by_sqrt_two)
  have "torque_dr h_min = ((h_min * h_min) / sqrt (2 * (h_min * h_min))) * 2"
    by (simp add: torque_dr_def Let_def)
  also have "\<dots> = (h_min / sqrt 2) * 2" by (simp only: q)
  finally have t: "torque_dr h_min = 2 * (h_min / sqrt 2)" by simp
  have "2 * (h_min / sqrt 2) = (2 / sqrt 2) * h_min" by simp
  also have "\<dots> = sqrt 2 * h_min" by (simp only: two_over_sqrt_two)
  finally have d: "2 * (h_min / sqrt 2) = sqrt 2 * h_min" .
  have e: "direct_torque_dr h_min = h_min / sqrt 2"
    unfolding direct_torque_dr_def by (rule q)
  from t d e show ?thesis by (simp only: simp_thms)
qed

theorem torque_dr_doubled_witness:
  "(0::real) < 1 \<and> torque_dr 1 = 2 * (1 / sqrt 2) \<and> torque_dr 1 = sqrt 2 * 1
   \<and> direct_torque_dr 1 = 1 / sqrt 2"
  using torque_dr_doubled [of 1] by simp

text \<open>
  C9, as stated, fails: for a minimum cell diameter of \<open>1\<close> the step is \<open>\<surd>2\<close>, not
  \<open>1 / \<surd>2\<close>.
\<close>

theorem torque_dr_counterexample: "torque_dr 1 \<noteq> 1 / sqrt 2"
proof
  assume a: "torque_dr 1 = 1 / sqrt 2"
  have "torque_dr 1 = 2 / sqrt 2" by (simp add: torque_dr_def Let_def)
  with a have "2 / sqrt 2 = 1 / sqrt (2::real)" by simp
  then show False by simp
qed

text \<open>
  C10. \<^verbatim>\<open>assemble(initial_step, false)\<close> leaves the system matrix, and every member
  other than \<^verbatim>\<open>system_rhs\<close>, as it found them, whatever the iterate and the constraints.
\<close>

theorem assemble_rhs_leaves_matrix:
  "system_matrix (assemble ms ex initial_step False S) = system_matrix S
   \<and> assemble ms ex initial_step False S
       = S\<lparr>system_rhs := system_rhs (assemble ms ex initial_step False S)\<rparr>"
proof -
  obtain r where r: "fold (assemble_cell ms ex initial_step False) (active_cells ms)
                       (S\<lparr>system_rhs := (\<lambda>i. 0)\<rparr>) = S\<lparr>system_rhs := (\<lambda>i. 0)\<rparr>\<lparr>system_rhs := r\<rparr>"
    using fold_assemble_cell_frame by blast
  then have "assemble ms ex initial_step False S = S\<lparr>system_rhs := r\<rparr>"
    by (simp add: assemble_def)
  then show ?thesis by simp
qed

text \<open>
  C8. \<^verbatim>\<open>newton_iteration\<close> terminates: the model is a total function, its outer loop
  defined with the measure \<open>max_iteration - outer_iteration\<close> and the loop over \<^verbatim>\<open>alpha\<close>
  with a measure of its own; an exception of the override or of the linear solver ends
  it as well. When it returns normally, \<^verbatim>\<open>outer_iteration\<close>, which counts the passes of
  the outer loop from zero, is at most \<^verbatim>\<open>max_iteration\<close>, and either the first step is
  done and \<^verbatim>\<open>current_res \<le> tolerance\<close>, or the cap is reached.
\<close>

theorem newton_iteration_exits:
  assumes "newton_iteration ms ex tolerance max_iteration is_initial_step S = Inr r"
  shows "unat (fst r) \<le> unat max_iteration
         \<and> ((\<not> first_step (fst (snd r)) \<and> current_res (fst (snd r)) \<le> tolerance)
            \<or> fst r = max_iteration)"
proof -
  obtain it v S' where r: "r = (it, v, S')" by (cases r) auto
  have "newton_loop ms ex tolerance max_iteration
          (0, \<lparr>first_step = is_initial_step, current_res = 1, last_res = 1\<rparr>, S) = Inr (it, v, S')"
    using assms by (simp add: newton_iteration_def r)
  from newton_loop_exit [OF this]
  have le: "it \<le> max_iteration"
    and ex: "\<not> ((first_step v \<or> current_res v > tolerance) \<and> it < max_iteration)"
    by simp_all
  from le have a: "unat it \<le> unat max_iteration" by (simp add: word_le_nat_alt)
  from le ex have b: "(\<not> first_step v \<and> current_res v \<le> tolerance) \<or> it = max_iteration"
    by auto
  from a b show ?thesis by (simp add: r)
qed

theorem newton_iteration_exits_witness:
  "newton_iteration toy_mesh (toy_externals 1) (1 / 10 ^ 6) 3 True toy_solver
     = Inr (1, \<lparr>first_step = False, current_res = 0, last_res = 0\<rparr>,
          \<lparr>system_matrix = mat_add (\<lambda>i j. 0) 0 0 1, system_rhs = (\<lambda>i. 0)(0 := 0),
           present_solution = (\<lambda>i. 2 / 5), newton_update = (\<lambda>i. 2 / 5),
           evaluation_point = (\<lambda>i. 2 / 5), last_vect = (\<lambda>i. 2 / 5)\<rparr>)
   \<and> unat (1 :: 32 word) \<le> unat (3 :: 32 word)
   \<and> (0 :: real) \<le> 1 / 10 ^ 6"
  using newton_iteration_exits [OF toy_newton_iteration] toy_newton_iteration by simp

text \<open>
  C4, as amended. When \<^verbatim>\<open>initial_step\<close> is false or \<^verbatim>\<open>couette\<close> is false, running
  \<^verbatim>\<open>sharp_edge_V2\<close> a second time with the same argument succeeds whenever the first run
  did and leaves the right-hand side of the first run as it is. Nothing of the kind holds
  for the matrix: every rewrite reads the current diagonal entry as \<open>\<alpha>\<close>, so the second run
  scales the rewritten rows again.
\<close>

theorem override_twice_rhs:
  assumes "\<not> (couette ms \<and> initial_step)"
    and "sharp_edge_V2 ms initial_step S = Inr S1"
  shows "\<exists>S2. sharp_edge_V2 ms initial_step S1 = Inr S2 \<and> system_rhs S2 = system_rhs S1"
  using rhs_zeroing_sharp_edge_V2 [OF assms(1)] assms(2) by (rule rhs_zeroing_twice)

theorem override_twice_rhs_witness:
  "\<not> (couette (demo_mesh (21 / 100) False) \<and> False)
   \<and> (\<exists>S1 S2. sharp_edge_V2 (demo_mesh (21 / 100) False) False demo_solver = Inr S1
         \<and> sharp_edge_V2 (demo_mesh (21 / 100) False) False S1 = Inr S2
         \<and> system_rhs S2 = system_rhs S1)"
proof -
  have c: "\<not> (couette (demo_mesh (21 / 100) False) \<and> False)" by simp
  obtain S1 where S1: "sharp_edge_V2 (demo_mesh (21 / 100) False) False demo_solver = Inr S1"
    using matrix_entry_of_Some [OF demo_pass_entry [of demo_solver]] by blast
  from override_twice_rhs [OF c S1] S1 show ?thesis by blast
qed

text \<open>
  C4, as stated, fails. On the two-cell mesh with the identity matrix the entry \<open>(0, 0)\<close>
  is \<open>-1/2\<close> after one run of \<^verbatim>\<open>sharp_edge_V2(false)\<close> and \<open>1/4\<close> after two.
\<close>

theorem override_twice_counterexample:
  "matrix_entry_of (sharp_edge_V2 (demo_mesh (21 / 100) False) False demo_solver) 0 0
     = Some (- 1 / 2)
   \<and> matrix_entry_of (sharp_edge_V2_twice (demo_mesh (21 / 100) False) False demo_solver) 0 0
     = Some (1 / 4)"
proof -
  have one: "matrix_entry_of (sharp_edge_V2 (demo_mesh (21 / 100) False) False demo_solver) 0 0
     = Some (- 1 / 2)"
    by (simp add: demo_pass_entry demo_solver_def)
  then obtain S1 where S1: "sharp_edge_V2 (demo_mesh (21 / 100) False) False demo_solver = Inr S1"
    and e: "system_matrix S1 0 0 = - 1 / 2"
    using matrix_entry_of_Some by blast
  have "matrix_entry_of (sharp_edge_V2_twice (demo_mesh (21 / 100) False) False demo_solver) 0 0
     = matrix_entry_of (sharp_edge_V2 (demo_mesh (21 / 100) False) False S1) 0 0"
    by (simp add: sharp_edge_V2_twice_def S1)
  also have "\<dots> = Some (1 / 4)" by (simp add: demo_pass_entry e)
  finally show ?thesis using one by simp
qed

text \<open>
  C6. At a quadrature point \<^verbatim>\<open>assemble\<close> of the GLS solver computes
  \<open>\<tau> = 1 / \<surd>((2 \<parallel>v\<parallel> / h)\<^sup>2 + 9 (4 \<nu> / h\<^sup>2)\<^sup>2)\<close>, where \<open>\<parallel>v\<parallel>\<close> is the Euclidean norm of the
  interpolated velocity, \<open>\<surd>(v\<^sub>x\<^sup>2 + v\<^sub>y\<^sup>2)\<close> in two and \<open>\<surd>(v\<^sub>x\<^sup>2 + v\<^sub>y\<^sup>2 + v\<^sub>z\<^sup>2)\<close> in three
  dimensions, floored at \<open>10\<^sup>-\<^sup>1\<^sup>2\<close>, and \<open>h\<close> is the diameter of the disc (\<open>dim = 2\<close>) or ball
  (\<open>dim = 3\<close>) whose measure is the cell's.
\<close>

theorem assemble_tau_formula:
  assumes "0 < cell_measure"
  shows "quadrature_point_tau 2 cell_measure h_prev [vx, vy] viscosity
           = 1 / sqrt ((2 * max (sqrt (vx\<^sup>2 + vy\<^sup>2)) (1 / 10 ^ 12)
                          / element_size 2 cell_measure h_prev)\<^sup>2
                       + 9 * (4 * viscosity / (element_size 2 cell_measure h_prev)\<^sup>2)\<^sup>2)
    \<and> pi * (element_size 2 cell_measure h_prev / 2)\<^sup>2 = cell_measure
    \<and> quadrature_point_tau 3 cell_measure h_prev [vx, vy, vz] viscosity
           = 1 / sqrt ((2 * max (sqrt (vx\<^sup>2 + vy\<^sup>2 + vz\<^sup>2)) (1 / 10 ^ 12)
                          / element_size 3 cell_measure h_prev)\<^sup>2
                       + 9 * (4 * viscosity / (element_size 3 cell_measure h_prev)\<^sup>2)\<^sup>2)
    \<and> 4 / 3 * pi * (element_size 3 cell_measure h_prev / 2) ^ 3 = cell_measure"
proof -
  have t2: "quadrature_point_tau 2 cell_measure h_prev [vx, vy] viscosity
           = 1 / sqrt ((2 * max (sqrt (vx\<^sup>2 + vy\<^sup>2)) (1 / 10 ^ 12)
                          / element_size 2 cell_measure h_prev)\<^sup>2
                       + 9 * (4 * viscosity / (element_size 2 cell_measure h_prev)\<^sup>2)\<^sup>2)"
    by (simp add: quadrature_point_tau_def stabilization_tau_def Let_def tensor_norm_2
        power2_eq_square)
  have t3: "quadrature_point_tau 3 cell_measure h_prev [vx, vy, vz] viscosity
           = 1 / sqrt ((2 * max (sqrt (vx\<^sup>2 + vy\<^sup>2 + vz\<^sup>2)) (1 / 10 ^ 12)
                          / element_size 3 cell_measure h_prev)\<^sup>2
                       + 9 * (4 * viscosity / (element_size 3 cell_measure h_prev)\<^sup>2)\<^sup>2)"
    by (simp add: quadrature_point_tau_def stabilization_tau_def Let_def tensor_norm_3
        power2_eq_square)
  have a: "pi * (element_size 2 cell_measure h_prev / 2)\<^sup>2 = cell_measure"
    using assms equal_area_disc [of cell_measure h_prev] by simp
  have b: "4 / 3 * pi * (element_size 3 cell_measure h_prev / 2) ^ 3 = cell_measure"
    using assms equal_volume_ball [of cell_measure h_prev] by simp
  show ?thesis
    by (intro conjI) (rule t2 a t3 b)+
qed

theorem assemble_tau_formula_witness:
  "0 < pi
   \<and> element_size 2 pi 0 = 2
   \<and> quadrature_point_tau 2 pi 0 [3, 4] 1 = 1 / sqrt 34
   \<and> quadrature_point_tau 2 pi 0 [0, 0] 1 = 1 / sqrt (1 / 10 ^ 24 + 9)
   \<and> pi * (element_size 2 pi 0 / 2)\<^sup>2 = pi"
proof -
  have h: "element_size 2 pi 0 = 2" by (simp add: element_size_def sqrt_4)
  have m: "max (5::real) (1 / 10 ^ 12) = 5" by simp
  have a: "quadrature_point_tau 2 pi 0 [3, 4] 1 = 1 / sqrt 34"
    using assemble_tau_formula [of pi 0 3 4 1 0, THEN conjunct1]
    by (simp add: h sqrt_25 power2_eq_square)
  have b: "quadrature_point_tau 2 pi 0 [0, 0] 1 = 1 / sqrt (1 / 10 ^ 24 + 9)"
    using assemble_tau_formula [of pi 0 0 0 1 0, THEN conjunct1]
    by (simp add: h power2_eq_square)
  have c: "pi * (element_size 2 pi 0 / 2)\<^sup>2 = pi"
    using assemble_tau_formula [of pi 0 0 0 1 0] by simp
  from h a b c show ?thesis by simp
qed

text \<open>
  C2, as amended. The second stencil point is \<open>x\<^sub>i + (x\<^sub>i - x_proj)\<close>: the support
  point is the midpoint of its projection onto the circle and the second point, which
  lies on the far side of the support point as seen from the circle. This holds in the
  pass over the circle of radius \<^verbatim>\<open>radius\<close> of the GLS solver for every support point other
  than the centre \<open>(0.2, 0)\<close> of its circles, and in both passes of the direct solver for
  every support point other than the centre of its circles, the origin.
\<close>

theorem second_point_extrapolates:
  "(x \<noteq> center_immersed \<longrightarrow>
      second_point_small r x = padd x (psub x (spec_projection center_immersed r x)))
   \<and> (y \<noteq> direct_center_immersed \<longrightarrow>
      direct_second_point s y = padd y (psub y (spec_projection direct_center_immersed s y)))"
  by (simp add: second_point_small_def vect_dist_small_def direct_second_point_def
      direct_vect_dist_def direct_center_immersed_def spec_projection_def point_ops)

theorem second_point_extrapolates_witness:
  "(0, 0) \<noteq> center_immersed
   \<and> spec_projection center_immersed (21 / 100) (0, 0) = (- (1 / 100), 0)
   \<and> second_point_small (21 / 100) (0, 0) = (1 / 100, 0)
   \<and> (7 / 10, 0) \<noteq> direct_center_immersed
   \<and> spec_projection direct_center_immersed (21 / 100) (7 / 10, 0) = (21 / 100, 0)
   \<and> direct_second_point (21 / 100) (7 / 10, 0) = (119 / 100, 0)"
  using second_point_extrapolates [of "(0, 0)" "21 / 100" "(7 / 10, 0)" "21 / 100"]
  by (simp add: center_immersed_def direct_center_immersed_def spec_projection_def
      point_ops pnorm_on_axis)

text \<open>
  C2, as stated, fails: for the support point \<open>(0.7, 0)\<close> and radius \<open>0.21\<close> the
  projection is \<open>(0.41, 0)\<close>, the reflection through it is \<open>(0.12, 0)\<close>, and the code's
  second point is \<open>(0.99, 0)\<close>.
\<close>

theorem second_point_counterexample:
  "second_point_small (21 / 100) (7 / 10, 0) = (99 / 100, 0)
   \<and> spec_mirror_point center_immersed (21 / 100) (7 / 10, 0) = (12 / 100, 0)
   \<and> second_point_small (21 / 100) (7 / 10, 0)
        \<noteq> spec_mirror_point center_immersed (21 / 100) (7 / 10, 0)"
  by (simp add: second_point_small_def vect_dist_small_def spec_mirror_point_def
      spec_projection_def center_immersed_def point_ops pnorm_on_axis)

text \<open>
  C5. What the line search of \<^verbatim>\<open>newton_iteration\<close> in the GLS solver does of the claim: a
  trial with the step length \<open>alpha > 10\<^sup>-\<^sup>3\<close> forms
  \<open>distribute (present_solution + alpha * newton_update)\<close> as \<^verbatim>\<open>evaluation_point\<close>, leaves
  the Newton update as it is, reassembles the residual there and applies the override to
  it; when the norm \<open>res\<close> of that residual is below \<^verbatim>\<open>last_res\<close> the search returns with
  the trial as iterate and \<open>current_res = res\<close>, and otherwise it goes on with
  \<open>alpha / 2\<close>. Nothing is tried at \<open>alpha = 10\<^sup>-\<^sup>3\<close> or below: the smallest step length tried
  is \<open>2\<^sup>-\<^sup>9\<close>, and no step of length \<open>10\<^sup>-\<^sup>3\<close> is taken when every trial is rejected.
\<close>

theorem line_search_steps:
  assumes trial: "line_search_trial ms ex (first_step v) alpha S = Inr S1"
    and alpha: "alpha > 1 / 1000"
    and res: "res = l2_norm (n_dofs ms) (system_rhs S1)"
    and run: "line_search ms ex alpha (v, S) = Inr st'"
  shows "evaluation_point S1
           = constraints_distribute ex True (\<lambda>i. present_solution S i + alpha * newton_update S i)
    \<and> newton_update S1 = newton_update S
    \<and> (\<exists>S5. sharp_edge_V2 ms (first_step v)
                 (assemble_rhs ms ex (first_step v)
                    (S\<lparr>evaluation_point :=
                         constraints_distribute ex True
                           (\<lambda>i. present_solution S i + alpha * newton_update S i)\<rparr>))
               = Inr S5
             \<and> system_rhs S1 = system_rhs S5 \<and> system_matrix S1 = system_matrix S5)
    \<and> (res < last_res v \<longrightarrow>
         snd st' = S1 \<and> current_res (fst st') = res
         \<and> present_solution S1 = evaluation_point S1)
    \<and> (\<not> res < last_res v \<longrightarrow> (\<exists>st1. line_search ms ex (alpha / 2) st1 = Inr st'))
    \<and> line_search ms ex (1 / 1000) (v, S) = Inr (v, S)
    \<and> line_search ms ex (1 / 1024) (v, S) = Inr (v, S)"
proof -
  have a: "evaluation_point S1
           = constraints_distribute ex True (\<lambda>i. present_solution S i + alpha * newton_update S i)"
    using line_search_trial_frame(1,3) [OF trial] by simp
  have b: "newton_update S1 = newton_update S"
    using trial by (rule line_search_trial_frame)
  have o: "\<exists>S5. sharp_edge_V2 ms (first_step v)
                 (assemble_rhs ms ex (first_step v)
                    (S\<lparr>evaluation_point :=
                         constraints_distribute ex True
                           (\<lambda>i. present_solution S i + alpha * newton_update S i)\<rparr>))
               = Inr S5
             \<and> system_rhs S1 = system_rhs S5 \<and> system_matrix S1 = system_matrix S5"
    using trial by (rule line_search_trial_override)
  have c: "res < last_res v \<longrightarrow>
         snd st' = S1 \<and> current_res (fst st') = res
         \<and> present_solution S1 = evaluation_point S1"
    using run line_search_accept [OF alpha trial] line_search_trial_frame(3) [OF trial]
    unfolding res by auto
  have d: "\<not> res < last_res v \<longrightarrow> (\<exists>st1. line_search ms ex (alpha / 2) st1 = Inr st')"
    using run line_search_reject [OF alpha trial] unfolding res by auto
  have e: "line_search ms ex (1 / 1000) (v, S) = Inr (v, S)"
    by (rule line_search_stop) simp
  have f: "line_search ms ex (1 / 1024) (v, S) = Inr (v, S)"
    by (rule line_search_stop) simp
  show ?thesis
    by (intro conjI) (rule a b o c d e f)+
qed

theorem line_search_steps_witness:
  "line_search_trial toy_mesh (toy_externals (2 / 5)) False (1 / 2) toy_search_entry
     = Inr (toy_search_entry\<lparr>evaluation_point := (\<lambda>i. 1 / 4),
              system_rhs := (\<lambda>i. 0)(0 := 3 / 20), present_solution := (\<lambda>i. 1 / 4),
              last_vect := (\<lambda>i. 1 / 4)\<rparr>)
   \<and> (1 / 2 :: real) > 1 / 1000
   \<and> l2_norm (n_dofs toy_mesh) ((\<lambda>i. 0)(0 := 3 / 20)) = 3 / 20
   \<and> (3 / 20 :: real) < 3 / 5
   \<and> line_search toy_mesh (toy_externals (2 / 5)) (1 / 2)
        (\<lparr>first_step = False, current_res = 3 / 5, last_res = 3 / 5\<rparr>, toy_search_entry)
      = Inr (\<lparr>first_step = False, current_res = 3 / 20, last_res = 3 / 5\<rparr>,
             toy_search_entry\<lparr>evaluation_point := (\<lambda>i. 1 / 4),
              system_rhs := (\<lambda>i. 0)(0 := 3 / 20), present_solution := (\<lambda>i. 1 / 4),
              last_vect := (\<lambda>i. 1 / 4)\<rparr>)
   \<and> line_search_trial toy_mesh (toy_externals (2 / 5)) False 1 toy_search_entry
     = Inr (toy_search_entry\<lparr>evaluation_point := (\<lambda>i. - (1 / 2)),
              system_rhs := (\<lambda>i. 0)(0 := 9 / 10), present_solution := (\<lambda>i. - (1 / 2)),
              last_vect := (\<lambda>i. - (1 / 2))\<rparr>)
   \<and> l2_norm (n_dofs toy_mesh) ((\<lambda>i. 0)(0 := 9 / 10)) = 9 / 10
   \<and> \<not> (9 / 10 :: real) < 3 / 5
   \<and> (\<exists>st1 st'. line_search toy_mesh (toy_externals (2 / 5)) 1
          (\<lparr>first_step = False, current_res = 3 / 5, last_res = 3 / 5\<rparr>, toy_search_entry)
          = Inr st'
        \<and> line_search toy_mesh (toy_externals (2 / 5)) (1 / 2) st1 = Inr st')"
proof -
  let ?v = "\<lparr>first_step = False, current_res = 3 / 5, last_res = 3 / 5\<rparr>"
  let ?A = "toy_search_entry\<lparr>evaluation_point := (\<lambda>i. 1 / 4),
              system_rhs := (\<lambda>i. 0)(0 := 3 / 20), present_solution := (\<lambda>i. 1 / 4),
              last_vect := (\<lambda>i. 1 / 4)\<rparr>"
  let ?B = "toy_search_entry\<lparr>evaluation_point := (\<lambda>i. - (1 / 2)),
              system_rhs := (\<lambda>i. 0)(0 := 9 / 10), present_solution := (\<lambda>i. - (1 / 2)),
              last_vect := (\<lambda>i. - (1 / 2))\<rparr>"
  have tA: "line_search_trial toy_mesh (toy_externals (2 / 5)) (first_step ?v) (1 / 2)
              toy_search_entry = Inr ?A"
    by (simp add: toy_trial toy_search_entry_def)
  have tB: "line_search_trial toy_mesh (toy_externals (2 / 5)) (first_step ?v) 1
              toy_search_entry = Inr ?B"
    by (simp add: toy_trial toy_search_entry_def)
  have aA: "(1 / 2 :: real) > 1 / 1000" and aB: "(1 :: real) > 1 / 1000" by simp_all
  have rA: "3 / 20 = l2_norm (n_dofs toy_mesh) (system_rhs ?A)" by (simp add: toy_norm)
  have rB: "9 / 10 = l2_norm (n_dofs toy_mesh) (system_rhs ?B)" by (simp add: toy_norm)
  note accepted = line_search_steps [OF tA aA rA toy_line_search_half]
  note rejected = line_search_steps [OF tB aB rB toy_line_search]
  have lA: "line_search toy_mesh (toy_externals (2 / 5)) (1 / 2) (?v, toy_search_entry)
      = Inr (\<lparr>first_step = False, current_res = 3 / 20, last_res = 3 / 5\<rparr>, ?A)"
    unfolding toy_line_search_half by (simp add: toy_search_entry_def)
  have cA: "(3 / 20 :: real) < 3 / 5 \<longrightarrow> present_solution ?A = evaluation_point ?A"
    using accepted [THEN conjunct2, THEN conjunct2, THEN conjunct2, THEN conjunct1] by simp
  have "\<exists>st1. line_search toy_mesh (toy_externals (2 / 5)) (1 / 2) st1
           = Inr (\<lparr>first_step = False, current_res = 12273 / 5120, last_res = 12273 / 5120\<rparr>,
          \<lparr>system_matrix = mat_add (\<lambda>i j. 0) 0 0 (2 / 5),
           system_rhs = (\<lambda>i. 0)(0 := 12273 / 5120),
           present_solution = (\<lambda>i. - (2045 / 1024)), newton_update = (\<lambda>i. - (3 / 2)),
           evaluation_point = (\<lambda>i. - (2045 / 1024)), last_vect = (\<lambda>i. - (2045 / 1024))\<rparr>)"
    using rejected by simp
  then have lB: "\<exists>st1 st'. line_search toy_mesh (toy_externals (2 / 5)) 1 (?v, toy_search_entry)
          = Inr st'
        \<and> line_search toy_mesh (toy_externals (2 / 5)) (1 / 2) st1 = Inr st'"
    using toy_line_search by blast
  from tA tB lA lB show ?thesis by (simp add: toy_norm)
qed

text \<open>
  C5, the defect. The loop stores every trial in \<^verbatim>\<open>present_solution\<close> and the residual
  norm of every rejected trial in \<^verbatim>\<open>last_res\<close>, so that a rejected trial is the starting
  point and the yardstick of the next. For the one-unknown problem with residual
  \<open>2/5 - u\<close> and matrix \<open>2/5\<close>, the second Newton step starts at \<open>u = 1\<close> with update \<open>-3/2\<close>
  and residual norm \<open>3/5\<close>. Trials from that iterate give the norms \<open>9/10\<close> at \<open>alpha = 1\<close>
  and \<open>3/20\<close> at \<open>alpha = 1/2\<close>: the search of the claim accepts \<open>alpha = 1/2\<close> and the
  iterate \<open>1/4\<close>. \<^verbatim>\<open>newton_iteration\<close> accepts no trial and ends at \<open>u = -2045/1024\<close> with
  residual norm \<open>12273/5120\<close>, all ten trial steps added up. The loop of the direct solver
  starts every trial from the unchanged iterate and ends at \<open>1021/1024\<close>.
\<close>

theorem line_search_counterexample:
  "newton_iteration toy_mesh (toy_externals (2 / 5)) (1 / 10 ^ 6) 2 True toy_solver
     = Inr (2, \<lparr>first_step = False, current_res = 12273 / 5120, last_res = 12273 / 5120\<rparr>,
          \<lparr>system_matrix = mat_add (\<lambda>i j. 0) 0 0 (2 / 5),
           system_rhs = (\<lambda>i. 0)(0 := 12273 / 5120),
           present_solution = (\<lambda>i. - (2045 / 1024)), newton_update = (\<lambda>i. - (3 / 2)),
           evaluation_point = (\<lambda>i. - (2045 / 1024)), last_vect = (\<lambda>i. - (2045 / 1024))\<rparr>)
   \<and> line_search toy_mesh (toy_externals (2 / 5)) 1
       (\<lparr>first_step = False, current_res = 3 / 5, last_res = 3 / 5\<rparr>, toy_search_entry)
     = Inr (\<lparr>first_step = False, current_res = 12273 / 5120, last_res = 12273 / 5120\<rparr>,
          \<lparr>system_matrix = mat_add (\<lambda>i j. 0) 0 0 (2 / 5),
           system_rhs = (\<lambda>i. 0)(0 := 12273 / 5120),
           present_solution = (\<lambda>i. - (2045 / 1024)), newton_update = (\<lambda>i. - (3 / 2)),
           evaluation_point = (\<lambda>i. - (2045 / 1024)), last_vect = (\<lambda>i. - (2045 / 1024))\<rparr>)
   \<and> spec_trial_residual toy_mesh (toy_externals (2 / 5)) toy_search_entry 1 = 9 / 10
   \<and> spec_trial_residual toy_mesh (toy_externals (2 / 5)) toy_search_entry (1 / 2) = 3 / 20
   \<and> spec_accepted_alpha (spec_trial_residual toy_mesh (toy_externals (2 / 5)) toy_search_entry)
        (3 / 5) 1 = 1 / 2
   \<and> present_solution toy_search_entry 0 + 1 / 2 * newton_update toy_search_entry 0 = 1 / 4
   \<and> present_solution
        (snd (direct_line_search_commit
           (direct_line_search toy_mesh (toy_externals (2 / 5)) 1
              (\<lparr>first_step = False, current_res = 3 / 5, last_res = 3 / 5\<rparr>, toy_search_entry)))) 0
      = 1021 / 1024"
proof -
  have n: "newton_iteration toy_mesh (toy_externals (2 / 5)) (1 / 10 ^ 6) 2 True toy_solver
     = Inr (2, \<lparr>first_step = False, current_res = 12273 / 5120, last_res = 12273 / 5120\<rparr>,
          \<lparr>system_matrix = mat_add (\<lambda>i j. 0) 0 0 (2 / 5),
           system_rhs = (\<lambda>i. 0)(0 := 12273 / 5120),
           present_solution = (\<lambda>i. - (2045 / 1024)), newton_update = (\<lambda>i. - (3 / 2)),
           evaluation_point = (\<lambda>i. - (2045 / 1024)), last_vect = (\<lambda>i. - (2045 / 1024))\<rparr>)"
    unfolding newton_iteration_def
    by (subst newton_loop.simps, simp add: toy_first_step_overshoot,
        subst newton_loop.simps, simp add: toy_later_step_overshoot toy_line_search,
        subst newton_loop.simps, simp)
  have r: "spec_trial_residual toy_mesh (toy_externals (2 / 5)) toy_search_entry 1 = 9 / 10"
    "spec_trial_residual toy_mesh (toy_externals (2 / 5)) toy_search_entry (1 / 2) = 3 / 20"
    by (simp_all add: toy_spec_residual toy_search_entry_def)
  have s: "spec_accepted_alpha (spec_trial_residual toy_mesh (toy_externals (2 / 5)) toy_search_entry)
        (3 / 5) 1 = 1 / 2"
    by (subst spec_accepted_alpha.simps, simp add: r, subst spec_accepted_alpha.simps, simp add: r)
  have p: "present_solution toy_search_entry 0 + 1 / 2 * newton_update toy_search_entry 0 = 1 / 4"
    by (simp add: toy_search_entry_def)
  have d: "present_solution
        (snd (direct_line_search_commit
           (direct_line_search toy_mesh (toy_externals (2 / 5)) 1
              (\<lparr>first_step = False, current_res = 3 / 5, last_res = 3 / 5\<rparr>, toy_search_entry)))) 0
      = 1021 / 1024"
    using direct_line_search_takes_last [of toy_mesh "toy_externals (2 / 5)"
        "(\<lparr>first_step = False, current_res = 3 / 5, last_res = 3 / 5\<rparr>, toy_search_entry)"]
    by (simp add: direct_line_search_commit_def toy_distribute toy_search_entry_def)
  show ?thesis
    by (intro conjI) (rule n toy_line_search r s p d)+
qed

text \<open>
  C7, as amended. In the pass over the circle of radius \<^verbatim>\<open>radius\<close> of the GLS solver, an
  execution of the loop body for a row whose support point is at distance zero from the
  circle leaves on the diagonal the entry \<open>\<alpha>\<close> it found there, zeros in all other columns
  of the cells around its vertex and, on every step but the initial step of a Couette
  run, the right-hand side \<open>0\<close>. None of these values holds a division by the distance.
\<close>

theorem on_surface_row:
  assumes run: "rewrite_row_small ms initial_step c k l S = Inr S'"
    and i: "i = overridden_dof ms c l" and x: "x = support_points ms i"
    and alpha: "\<alpha> = system_matrix S i i"
    and d0: "pnorm (vect_dist_small (radius ms) x) = 0"
    and off_centre: "x \<noteq> center_immersed"
  shows "system_matrix S' i i = \<alpha>
    \<and> (\<forall>m \<in> cleared_columns ms (neighbours ms c l). m \<noteq> i \<longrightarrow> system_matrix S' i m = 0)
    \<and> (\<not> (couette ms \<and> initial_step) \<longrightarrow> system_rhs S' i = 0)"
proof -
  obtain cell_2 xi where
    cell_2: "stencil_cell (neighbours ms c l)
               (second_point_small (radius ms) (support_points ms (overridden_dof ms c l)))
             = Inr cell_2"
    and xi: "transform_real_to_unit_cell cell_2
               (second_point_small (radius ms) (support_points ms (overridden_dof ms c l)))
             = Some xi"
    using rewrite_row_small_cases [OF run] by blast
  have M: "system_matrix S'
           = mat_set (clear_row ms (neighbours ms c l) i (system_matrix S)) i i \<alpha>"
    using run d0 unfolding rewrite_row_small_unfold [OF cell_2 xi] i x alpha by auto
  have a: "system_matrix S' i i = \<alpha>" by (simp add: M mat_set_apply)
  have b: "\<forall>m \<in> cleared_columns ms (neighbours ms c l). m \<noteq> i \<longrightarrow> system_matrix S' i m = 0"
    by (simp add: M mat_set_apply clear_row_entry)
  have r: "\<not> (couette ms \<and> initial_step) \<longrightarrow> system_rhs S' i = 0"
    unfolding rewrite_row_small_rhs [OF run] i by simp
  show ?thesis
    by (intro conjI) (rule a b r)+
qed

theorem on_surface_row_witness:
  "\<exists>S1 Sf. rewrite_row_small (plate_mesh (1 / 4) 2 True) False plate_cell 0 0 demo_solver = Inr S1
     \<and> sharp_edge_V2 (plate_mesh (1 / 4) 2 True) False demo_solver = Inr Sf
     \<and> count_inside (plate_mesh (1 / 4) 2 True) (1 / 4)
         (get_dof_indices (plate_mesh (1 / 4) 2 True) plate_cell) = 3
     \<and> support_points (plate_mesh (1 / 4) 2 True) 0 = (1 / 5, 1 / 4)
     \<and> pnorm (vect_dist_small (radius (plate_mesh (1 / 4) 2 True)) (1 / 5, 1 / 4)) = 0
     \<and> (1 / 5, 1 / 4) \<noteq> center_immersed
     \<and> system_matrix demo_solver 0 0 = 1
     \<and> system_matrix S1 0 0 = 1 \<and> system_matrix S1 0 3 = 0 \<and> system_rhs S1 0 = 0
     \<and> system_matrix Sf 0 0 = 1 \<and> system_matrix Sf 0 3 = 0 \<and> system_rhs Sf 0 = 0"
proof -
  let ?ms = "plate_mesh (1 / 4) 2 True"
  obtain S1 Sf where S1: "rewrite_row_small ?ms False plate_cell 0 0 demo_solver = Inr S1"
    and Sf: "sharp_edge_V2 ?ms False demo_solver = Inr Sf"
    and same: "system_matrix Sf 0 = system_matrix S1 0" "system_rhs Sf 0 = system_rhs S1 0"
    using plate_small_pass_first_row [of "1 / 4" True 2 False demo_solver] by auto
  have i: "0 = overridden_dof ?ms plate_cell 0" by (simp add: plate_overridden)
  have x: "(1 / 5, 1 / 4) = support_points ?ms 0" by (simp add: plate_on_surface)
  have alpha: "1 = system_matrix demo_solver 0 0" by (simp add: demo_solver_def)
  have d0: "pnorm (vect_dist_small (radius ?ms) (1 / 5, 1 / 4)) = 0"
    by (simp add: plate_fields plate_on_surface)
  have oc: "(1 / 5, 1 / 4) \<noteq> center_immersed" by (simp add: center_immersed_def)
  have cnt: "count_inside ?ms (1 / 4) (get_dof_indices ?ms plate_cell) = 3"
    by (simp add: plate_count)
  note facts = on_surface_row [OF S1 i x alpha d0 oc]
  have a: "system_matrix S1 0 0 = 1" using facts by simp
  have "3 \<in> cleared_columns ?ms (neighbours ?ms plate_cell 0)"
    by (simp add: plate_neighbours plate_cleared)
  with facts [THEN conjunct2, THEN conjunct1] have "(3::nat) \<noteq> 0 \<longrightarrow> system_matrix S1 0 3 = 0"
    by (rule bspec)
  then have b: "system_matrix S1 0 3 = 0" by simp
  have r: "system_rhs S1 0 = 0"
    using facts [THEN conjunct2, THEN conjunct2] by simp
  from S1 Sf same x d0 oc alpha cnt a b r show ?thesis by (auto simp: plate_on_surface)
qed

text \<open>
  C7, as stated, fails. Couette run on the one-cell mesh, circle of radius \<open>0.25\<close> through
  the vertex \<open>(0.2, 0.25)\<close>, x-velocity there (global dof \<open>0\<close>), \<open>\<alpha> = 1\<close>: the velocity of
  the surface at that point is \<open>(-1, 0)\<close>, so that \<open>\<alpha> g\<^sub>0(x\<^sub>0) = -1\<close>, and
  \<^verbatim>\<open>sharp_edge_V2(false)\<close> leaves \<open>r\<^sub>0 = 0\<close>. \<^verbatim>\<open>sharp_edge_V2(true)\<close> leaves \<open>r\<^sub>0 = 1\<close>, the value
  \<open>\<alpha> b\<^sub>0\<close> with the sign of the rows at a nonzero distance.
\<close>

theorem on_surface_row_counterexample:
  "pnorm (vect_dist_small (radius (plate_mesh (1 / 4) 2 True))
            (support_points (plate_mesh (1 / 4) 2 True) 0)) = 0
   \<and> system_matrix demo_solver 0 0 = 1
   \<and> unit_normal center_immersed (support_points (plate_mesh (1 / 4) 2 True) 0)
       = (cos (pi / 2), sin (pi / 2))
   \<and> system_matrix demo_solver 0 0 * fst (surface_velocity (pi / 2)) = - 1
   \<and> rhs_entry_of (sharp_edge_V2 (plate_mesh (1 / 4) 2 True) False demo_solver) 0 = Some 0
   \<and> rhs_entry_of (sharp_edge_V2 (plate_mesh (1 / 4) 2 True) True demo_solver) 0 = Some 1"
proof -
  have q: "(1 / 4 :: real) \<le> 1 / 4" "(1 / 4 :: real) < 1" "\<not> True \<or> (2::real) < 1 / 4 \<or> (1::real) \<le> 2"
    by simp_all
  have a: "rhs_entry_of (sharp_edge_V2 (plate_mesh (1 / 4) 2 True) False demo_solver) 0 = Some 0"
    unfolding plate_small_pass_entries(2) [OF q]
    by (simp add: plate_first_row_quarter rhs_entry_of_def)
  have b: "rhs_entry_of (sharp_edge_V2 (plate_mesh (1 / 4) 2 True) True demo_solver) 0 = Some 1"
    unfolding plate_small_pass_entries(2) [OF q]
    by (simp add: plate_first_row_quarter rhs_entry_of_def demo_solver_def)
  show ?thesis
    using a b by (simp add: plate_fields plate_on_surface surface_velocity_def demo_solver_def)
qed

text \<open>
  C1, as amended. Take one execution of the loop body that rewrites row \<open>i\<close> with distance
  \<open>d \<noteq> 0\<close>, let \<open>\<alpha>\<close> be the diagonal entry of row \<open>i\<close> when the execution starts (the entry
  that an earlier rewrite of the row left, where there was one), and let \<open>w(m)\<close> be the sum
  of the shape functions \<open>N\<^sub>n(\<xi>\<^sup>*)\<close> of the stencil cell over its component-\<open>k\<close> local dofs
  \<open>n\<close> with global number \<open>m\<close> (the single value \<open>N\<^sub>n(\<xi>\<^sup>*)\<close> when the cell's global dofs are
  distinct).
  \<^item> In the GLS solver, pass over the circle of radius \<^verbatim>\<open>radius\<close>: the new diagonal entry is
    \<open>-2 \<alpha> + \<alpha> w(i)\<close>, and the entry in column \<open>m \<noteq> i\<close> of the stencil is \<open>\<alpha> w(m)\<close>. Nothing
    is divided by \<open>d\<^sup>2\<close>.
  \<^item> In the direct solver, same pass: the new diagonal entry is \<open>-2 / d\<^sup>2 + w(i) / d\<^sup>2\<close>,
    and the entry in column \<open>m \<noteq> i\<close> of the stencil is \<open>w(m) / d\<^sup>2\<close>. Nothing is multiplied
    by \<open>\<alpha>\<close>.
  In both the execution leaves every other row of the matrix as it is.
\<close>

theorem override_row_entries:
  "(rewrite_row_small ms initial_step c k l S = Inr S'
      \<and> stencil_cell (neighbours ms c l)
            (second_point_small (radius ms) (support_points ms (overridden_dof ms c l)))
          = Inr cell_s
      \<and> transform_real_to_unit_cell cell_s
            (second_point_small (radius ms) (support_points ms (overridden_dof ms c l)))
          = Some xi
      \<and> pnorm (vect_dist_small (radius ms) (support_points ms (overridden_dof ms c l))) \<noteq> 0
      \<and> i = overridden_dof ms c l \<and> \<alpha> = system_matrix S i i
    \<longrightarrow> system_matrix S' i i = - 2 * \<alpha> + \<alpha> * stencil_weight ms cell_s k xi i
      \<and> (\<forall>n \<in> set (stride k (dofs_per_cell ms)).
            dof_index cell_s n \<noteq> i \<longrightarrow>
            system_matrix S' i (dof_index cell_s n)
              = \<alpha> * stencil_weight ms cell_s k xi (dof_index cell_s n))
      \<and> (inj_on (dof_index cell_s) {0..<dofs_per_cell ms} \<longrightarrow>
           (\<forall>n \<in> set (stride k (dofs_per_cell ms)).
              stencil_weight ms cell_s k xi (dof_index cell_s n) = shape_value ms n xi))
      \<and> (\<forall>a. a \<noteq> i \<longrightarrow> system_matrix S' a = system_matrix S a))
   \<and> (direct_rewrite_row_small dms dc dk dl D = Inr D'
      \<and> find_active_cell_around_point dms
            (direct_second_point direct_radius (support_points dms (overridden_dof dms dc dl)))
          = Some dcell_s
      \<and> transform_real_to_unit_cell dcell_s
            (direct_second_point direct_radius (support_points dms (overridden_dof dms dc dl)))
          = Some dxi
      \<and> pnorm (direct_vect_dist direct_radius (support_points dms (overridden_dof dms dc dl)))
          = dist'
      \<and> dist' \<noteq> 0
      \<and> (\<forall>n < dofs_per_cell dms. dof_index dcell_s n < n_dofs dms)
      \<and> di = overridden_dof dms dc dl
    \<longrightarrow> system_matrix D' di di
          = - 2 / dist'\<^sup>2 + stencil_weight dms dcell_s dk dxi di / dist'\<^sup>2
      \<and> (\<forall>n \<in> set (stride dk (dofs_per_cell dms)).
            dof_index dcell_s n \<noteq> di \<longrightarrow>
            system_matrix D' di (dof_index dcell_s n)
              = stencil_weight dms dcell_s dk dxi (dof_index dcell_s n) / dist'\<^sup>2)
      \<and> (\<forall>a. a \<noteq> di \<longrightarrow> system_matrix D' a = system_matrix D a))"
proof (intro conjI impI; elim conjE)
  assume run: "rewrite_row_small ms initial_step c k l S = Inr S'"
    and cell_s: "stencil_cell (neighbours ms c l)
                   (second_point_small (radius ms) (support_points ms (overridden_dof ms c l)))
                 = Inr cell_s"
    and xi: "transform_real_to_unit_cell cell_s
               (second_point_small (radius ms) (support_points ms (overridden_dof ms c l)))
             = Some xi"
    and d: "pnorm (vect_dist_small (radius ms) (support_points ms (overridden_dof ms c l))) \<noteq> 0"
    and i: "i = overridden_dof ms c l" and alpha: "\<alpha> = system_matrix S i i"
  have member: "cell_s \<in> set (neighbours ms c l)"
    using cell_s by (rule stencil_cell_member)
  have row: "\<And>b. system_matrix S' i b
         = (if b = i then - 2 * \<alpha>
            else if b \<in> cleared_columns ms (neighbours ms c l) then 0
            else system_matrix S i b)
           + \<alpha> * stencil_weight ms cell_s k xi b"
    unfolding i alpha by (rule small_matrix_row [OF run cell_s xi d])
  show "system_matrix S' i i = - 2 * \<alpha> + \<alpha> * stencil_weight ms cell_s k xi i"
    by (simp add: row)
  show "\<forall>n \<in> set (stride k (dofs_per_cell ms)).
          dof_index cell_s n \<noteq> i \<longrightarrow>
          system_matrix S' i (dof_index cell_s n)
            = \<alpha> * stencil_weight ms cell_s k xi (dof_index cell_s n)"
  proof (intro ballI impI)
    fix n assume n: "n \<in> set (stride k (dofs_per_cell ms))" and ne: "dof_index cell_s n \<noteq> i"
    from n have "n < dofs_per_cell ms" by (rule stride_below)
    with member have "dof_index cell_s n \<in> cleared_columns ms (neighbours ms c l)"
      by (rule stencil_dofs_cleared)
    with ne show "system_matrix S' i (dof_index cell_s n)
            = \<alpha> * stencil_weight ms cell_s k xi (dof_index cell_s n)"
      by (simp add: row)
  qed
  show "\<forall>a. a \<noteq> i \<longrightarrow> system_matrix S' a = system_matrix S a"
    using rewrite_row_small_other_rows [OF run] unfolding i by blast
next
  show "inj_on (dof_index cell_s) {0..<dofs_per_cell ms} \<Longrightarrow>
         (\<forall>n \<in> set (stride k (dofs_per_cell ms)).
            stencil_weight ms cell_s k xi (dof_index cell_s n) = shape_value ms n xi)"
    by (auto intro: stencil_weight_single)
next
  assume drun: "direct_rewrite_row_small dms dc dk dl D = Inr D'"
    and dcell_s: "find_active_cell_around_point dms
                   (direct_second_point direct_radius (support_points dms (overridden_dof dms dc dl)))
                 = Some dcell_s"
    and dxi: "transform_real_to_unit_cell dcell_s
               (direct_second_point direct_radius (support_points dms (overridden_dof dms dc dl)))
             = Some dxi"
    and dd: "pnorm (direct_vect_dist direct_radius (support_points dms (overridden_dof dms dc dl)))
             = dist'"
    and range: "\<forall>n < dofs_per_cell dms. dof_index dcell_s n < n_dofs dms"
    and di: "di = overridden_dof dms dc dl"
  have drow: "\<And>b. system_matrix D' di b
         = (if b = di then - 2 / dist'\<^sup>2
            else if b < n_dofs dms then 0
            else system_matrix D di b)
           + stencil_weight dms dcell_s dk dxi b / dist'\<^sup>2"
    unfolding di dd [symmetric] by (rule direct_matrix_row [OF drun dcell_s dxi])
  show "system_matrix D' di di
          = - 2 / dist'\<^sup>2 + stencil_weight dms dcell_s dk dxi di / dist'\<^sup>2"
    by (simp add: drow)
  show "\<forall>n \<in> set (stride dk (dofs_per_cell dms)).
          dof_index dcell_s n \<noteq> di \<longrightarrow>
          system_matrix D' di (dof_index dcell_s n)
            = stencil_weight dms dcell_s dk dxi (dof_index dcell_s n) / dist'\<^sup>2"
  proof (intro ballI impI)
    fix n assume n: "n \<in> set (stride dk (dofs_per_cell dms))" and ne: "dof_index dcell_s n \<noteq> di"
    from n have "n < dofs_per_cell dms" by (rule stride_below)
    with range have "dof_index dcell_s n < n_dofs dms" by simp
    with ne show "system_matrix D' di (dof_index dcell_s n)
            = stencil_weight dms dcell_s dk dxi (dof_index dcell_s n) / dist'\<^sup>2"
      by (simp add: drow)
  qed
  show "\<forall>a. a \<noteq> di \<longrightarrow> system_matrix D' a = system_matrix D a"
    using direct_rewrite_row_small_other_rows [OF drun] unfolding di by blast
qed

theorem override_row_entries_witness:
  "\<exists>S' D' Df.
     rewrite_row_small (demo_mesh (21 / 100) False) False demo_cell_A 0 0 demo_solver = Inr S'
     \<and> pnorm (vect_dist_small (radius (demo_mesh (21 / 100) False))
                 (support_points (demo_mesh (21 / 100) False) 0)) = 3 / 50
     \<and> system_matrix demo_solver 0 0 = 1
     \<and> system_matrix S' 0 0 = - 2 + 3 / 2
     \<and> system_matrix S' 0 2 = - 1 / 2
     \<and> stencil_weight (demo_mesh (21 / 100) False) demo_cell_A 0 (- (1 / 2), 0) 2
         = q1_shape_value 3 (- (1 / 2), 0)
     \<and> system_matrix S' 2 2 = 1
     \<and> direct_count_inside sector_mesh direct_radius
           (get_dof_indices sector_mesh sector_cell_A) = 6
     \<and> direct_rewrite_row_small sector_mesh sector_cell_A 0 0 demo_solver = Inr D'
     \<and> direct_sharp_edge_V2 sector_mesh (sqrt (1 / 40)) demo_solver = Inr Df
     \<and> pnorm (direct_vect_dist direct_radius (support_points sector_mesh 4)) = 3 / 50
     \<and> system_matrix D' 4 4 = - 2 / (3 / 50)\<^sup>2 + (5 / 7) / (3 / 50)\<^sup>2
     \<and> system_matrix D' 4 6 = (2 / 7) / (3 / 50)\<^sup>2
     \<and> system_matrix D' 6 6 = 1
     \<and> system_matrix Df 4 4 = system_matrix D' 4 4
     \<and> system_matrix Df 4 6 = system_matrix D' 4 6"
proof -
  let ?ms = "demo_mesh (21 / 100) False"
  obtain S' where S': "rewrite_row_small ?ms False demo_cell_A 0 0 demo_solver = Inr S'"
    using demo_row_small_0 by blast
  obtain D' Df where D': "direct_rewrite_row_small sector_mesh sector_cell_A 0 0 demo_solver = Inr D'"
    and Df: "direct_sharp_edge_V2 sector_mesh (sqrt (1 / 40)) demo_solver = Inr Df"
    and same: "system_matrix Df 4 = system_matrix D' 4"
    using sector_pass_first_row [of demo_solver "sqrt (1 / 40)"] by auto
  have i: "0 = overridden_dof ?ms demo_cell_A 0" by (simp add: demo_geometry)
  have alpha: "1 = system_matrix demo_solver 0 0" by (simp add: demo_solver_def)
  have di: "4 = overridden_dof sector_mesh sector_cell_A 0" by (simp add: sector_geometry)
  have dnz: "(3 / 50 :: real) \<noteq> 0" by simp
  note facts = override_row_entries [where ms = ?ms and initial_step = False
      and c = demo_cell_A and k = 0 and l = 0 and S = demo_solver and S' = S'
      and cell_s = demo_cell_A and xi = "(- (1 / 2), 0)" and i = 0 and \<alpha> = 1
      and dms = sector_mesh and dc = sector_cell_A and dk = 0 and dl = 0 and D = demo_solver
      and D' = D' and dcell_s = sector_cell_O and dxi = "(5 / 7, 0)" and dist' = "3 / 50"
      and di = 4]
  have gls: "system_matrix S' 0 0
        = - 2 * 1 + 1 * stencil_weight ?ms demo_cell_A 0 (- (1 / 2), 0) 0
      \<and> (\<forall>n \<in> set (stride 0 (dofs_per_cell ?ms)).
            dof_index demo_cell_A n \<noteq> 0 \<longrightarrow>
            system_matrix S' 0 (dof_index demo_cell_A n)
              = 1 * stencil_weight ?ms demo_cell_A 0 (- (1 / 2), 0) (dof_index demo_cell_A n))
      \<and> (inj_on (dof_index demo_cell_A) {0..<dofs_per_cell ?ms} \<longrightarrow>
           (\<forall>n \<in> set (stride 0 (dofs_per_cell ?ms)).
              stencil_weight ?ms demo_cell_A 0 (- (1 / 2), 0) (dof_index demo_cell_A n)
                = shape_value ?ms n (- (1 / 2), 0)))
      \<and> (\<forall>a. a \<noteq> 0 \<longrightarrow> system_matrix S' a = system_matrix demo_solver a)"
    using facts [THEN conjunct1] S' demo_stencil_0 [of False] i alpha by blast
  have direct: "system_matrix D' 4 4
          = - 2 / (3 / 50)\<^sup>2 + stencil_weight sector_mesh sector_cell_O 0 (5 / 7, 0) 4 / (3 / 50)\<^sup>2
      \<and> (\<forall>n \<in> set (stride 0 (dofs_per_cell sector_mesh)).
            dof_index sector_cell_O n \<noteq> 4 \<longrightarrow>
            system_matrix D' 4 (dof_index sector_cell_O n)
              = stencil_weight sector_mesh sector_cell_O 0 (5 / 7, 0) (dof_index sector_cell_O n)
                / (3 / 50)\<^sup>2)
      \<and> (\<forall>a. a \<noteq> 4 \<longrightarrow> system_matrix D' a = system_matrix demo_solver a)"
    using facts [THEN conjunct2] D' sector_stencil_0 sector_range di dnz by blast
  have three: "(3::nat) \<in> set (stride 0 (dofs_per_cell ?ms))"
    by (simp add: demo_dpc stride_0_12)
  have zero: "(0::nat) \<in> set (stride 0 (dofs_per_cell sector_mesh))"
    by (simp add: sector_fields stride_0_12)
  have dofs: "dof_index demo_cell_A 3 = 2" "dof_index sector_cell_O 0 = 6"
    by (simp_all add: demo_cell_A_def sector_cell_O_def sector_cell_def)
  have a: "system_matrix S' 0 0 = - 2 + 3 / 2"
    using gls [THEN conjunct1] by (simp add: demo_weight_A q1_values)
  have "dof_index demo_cell_A 3 \<noteq> 0 \<longrightarrow>
        system_matrix S' 0 (dof_index demo_cell_A 3)
          = 1 * stencil_weight ?ms demo_cell_A 0 (- (1 / 2), 0) (dof_index demo_cell_A 3)"
    using gls [THEN conjunct2, THEN conjunct1] three by (rule bspec)
  then have b: "system_matrix S' 0 2 = - 1 / 2"
    by (simp add: dofs demo_weight_A q1_values)
  have "stencil_weight ?ms demo_cell_A 0 (- (1 / 2), 0) (dof_index demo_cell_A 3)
          = shape_value ?ms 3 (- (1 / 2), 0)"
    using gls [THEN conjunct2, THEN conjunct2, THEN conjunct1] demo_inj_A [of "21 / 100" False]
      three by blast
  then have w: "stencil_weight ?ms demo_cell_A 0 (- (1 / 2), 0) 2 = q1_shape_value 3 (- (1 / 2), 0)"
    by (simp add: dofs demo_mesh_def)
  have c: "system_matrix D' 4 4 = - 2 / (3 / 50)\<^sup>2 + (5 / 7) / (3 / 50)\<^sup>2"
    using direct [THEN conjunct1] by (simp add: sector_weight_O q1_values)
  have "dof_index sector_cell_O 0 \<noteq> 4 \<longrightarrow>
        system_matrix D' 4 (dof_index sector_cell_O 0)
          = stencil_weight sector_mesh sector_cell_O 0 (5 / 7, 0) (dof_index sector_cell_O 0)
            / (3 / 50)\<^sup>2"
    using direct [THEN conjunct2, THEN conjunct1] zero by (rule bspec)
  then have e: "system_matrix D' 4 6 = (2 / 7) / (3 / 50)\<^sup>2"
    by (simp add: dofs sector_weight_O q1_values)
  have f: "system_matrix S' 2 2 = 1"
    using gls [THEN conjunct2, THEN conjunct2, THEN conjunct2] by (simp add: demo_solver_def)
  have df: "system_matrix D' 6 6 = 1"
    using direct [THEN conjunct2, THEN conjunct2] by (simp add: demo_solver_def)
  have d: "pnorm (vect_dist_small (radius ?ms) (support_points ?ms 0)) = 3 / 50"
    by (simp add: demo_geometry pnorm_on_axis)
  have dd: "pnorm (direct_vect_dist direct_radius (support_points sector_mesh 4)) = 3 / 50"
    by (simp add: sector_geometry pnorm_on_y_axis)
  have cnt: "direct_count_inside sector_mesh direct_radius
           (get_dof_indices sector_mesh sector_cell_A) = 6"
    by (rule sector_count)
  from S' D' Df same a b w c e d dd cnt alpha f df show ?thesis by auto
qed

text \<open>
  C1, as stated, fails. On the two-cell mesh with the identity matrix, \<^verbatim>\<open>sharp_edge_V2\<close> of
  the GLS solver leaves in the row of the x-velocity at the vertex \<open>(0.47, 0)\<close> (global dof
  \<open>2\<close>, \<open>d = 0.06\<close>, \<open>\<alpha> = 1\<close>) the diagonal entry \<open>-9/7\<close>, not \<open>-2 \<alpha> / d\<^sup>2 = -5000/9\<close>, and the
  entry \<open>2/7 = \<alpha> N\<close> in the column of the x-velocity at \<open>(0.68, 0)\<close>, not
  \<open>\<alpha> N / d\<^sup>2 = 5000/63\<close>. On the three-cell mesh with \<open>3\<close> on the diagonal,
  \<^verbatim>\<open>sharp_edge_V2\<close> of the direct solver leaves in the row of the x-velocity at the vertex
  \<open>(0, 0.27)\<close> (global dof \<open>4\<close>, \<open>d = 0.06\<close>, \<open>\<alpha> = 3\<close>) the entry \<open>5000/63 = N / d\<^sup>2\<close> in the
  column of the x-velocity at \<open>(0, 0.48)\<close>, not \<open>\<alpha> N / d\<^sup>2 = 5000/21\<close>.
\<close>

theorem override_row_entries_counterexample:
  "pnorm (vect_dist_small (radius (demo_mesh (21 / 100) False))
            (support_points (demo_mesh (21 / 100) False) 2)) = 3 / 50
   \<and> system_matrix demo_solver 2 2 = 1
   \<and> matrix_entry_of (sharp_edge_V2 (demo_mesh (21 / 100) False) False demo_solver) 2 2
       = Some (- 9 / 7)
   \<and> - 2 * (1::real) / (3 / 50)\<^sup>2 = - 5000 / 9
   \<and> matrix_entry_of (sharp_edge_V2 (demo_mesh (21 / 100) False) False demo_solver) 2 4
       = Some (2 / 7)
   \<and> 1 * q1_shape_value 3 (2 / 7, 0) / (3 / 50)\<^sup>2 = 5000 / 63
   \<and> pnorm (direct_vect_dist direct_radius (support_points sector_mesh 4)) = 3 / 50
   \<and> system_matrix (scaled_solver 3) 4 4 = 3
   \<and> matrix_entry_of (direct_sharp_edge_V2 sector_mesh (sqrt (1 / 40)) (scaled_solver 3)) 4 6
       = Some (5000 / 63)
   \<and> 3 * q1_shape_value 0 (5 / 7, 0) / (3 / 50)\<^sup>2 = 5000 / 21"
proof -
  have g: "pnorm (vect_dist_small (radius (demo_mesh (21 / 100) False))
            (support_points (demo_mesh (21 / 100) False) 2)) = 3 / 50"
    by (simp add: demo_geometry pnorm_on_axis)
  have m: "matrix_entry_of (sharp_edge_V2 (demo_mesh (21 / 100) False) False demo_solver) 2 2
       = Some (- 9 / 7)"
    "matrix_entry_of (sharp_edge_V2 (demo_mesh (21 / 100) False) False demo_solver) 2 4
       = Some (2 / 7)"
    by (simp_all add: demo_pass_row_2 demo_solver_def)
  have d: "pnorm (direct_vect_dist direct_radius (support_points sector_mesh 4)) = 3 / 50"
    by (simp add: sector_geometry pnorm_on_y_axis)
  have e: "matrix_entry_of (direct_sharp_edge_V2 sector_mesh (sqrt (1 / 40)) (scaled_solver 3)) 4 6
       = Some (5000 / 63)"
    unfolding sector_pass_entries(1) sector_first_row
    by (simp add: matrix_entry_of_def direct_add_stencil_entry mat_set_apply
        clear_whole_row_entry sector_fields sector_weight_O q1_values)
  from g m d e show ?thesis
    by (simp add: demo_solver_def scaled_solver_def q1_values power2_eq_square)
qed

text \<open>
  C3, as amended. Let \<open>b\<^sub>k\<close> be the value of lines 1084 to 1093, \<open>n\<^sub>y\<close> for \<open>k = 0\<close> and \<open>-n\<^sub>x\<close>
  otherwise, with \<open>n\<close> the unit normal at the projection point: it is minus the velocity
  \<open>(-n\<^sub>y, n\<^sub>x)\<close> of the rotating surface, as the stencil with the second point on the far
  side takes it. Take one execution of the loop body that rewrites row \<open>i\<close>, and let \<open>\<alpha>\<close>
  be the diagonal entry of row \<open>i\<close> when it starts.
  \<^item> GLS solver, circle of radius \<^verbatim>\<open>radius\<close>: \<open>r\<^sub>i = \<alpha> b\<^sub>k\<close> on the initial Newton step of a
    Couette run, and \<open>r\<^sub>i = 0\<close> on every later step and whenever \<^verbatim>\<open>couette\<close> is false;
    nothing is divided by \<open>d\<^sup>2\<close>;
  \<^item> GLS solver, circle of radius \<^verbatim>\<open>radius_2\<close>: \<open>r\<^sub>i = 0\<close>;
  \<^item> direct solver, circle of radius \<^verbatim>\<open>radius\<close>: \<open>r\<^sub>i = b\<^sub>k / d\<^sup>2\<close> at every call, without
    \<open>\<alpha>\<close> and without a test of the step.
  The execution changes no other entry of the right-hand side. \<^verbatim>\<open>sharp_edge_V2\<close> of the
  direct solver ends by setting the entry of the last dof to zero.
\<close>

theorem override_rhs_entry:
  "(rewrite_row_small ms initial_step c k l S = Inr S'
      \<and> i = overridden_dof ms c l \<and> x = support_points ms i \<and> x \<noteq> center_immersed
      \<and> \<alpha> = system_matrix S i i
    \<longrightarrow> system_rhs S' i
          = (if couette ms \<and> initial_step
             then \<alpha> * boundary_value k (unit_normal center_immersed x) else 0)
      \<and> (\<forall>j. j \<noteq> i \<longrightarrow> system_rhs S' j = system_rhs S j))
   \<and> (rewrite_row_large lms lc lk ll L = Inr L' \<and> li = overridden_dof lms lc ll
    \<longrightarrow> system_rhs L' li = 0 \<and> (\<forall>j. j \<noteq> li \<longrightarrow> system_rhs L' j = system_rhs L j))
   \<and> (direct_rewrite_row_small dms dc dk dl D = Inr D'
      \<and> di = overridden_dof dms dc dl \<and> dx = support_points dms di
      \<and> dx \<noteq> direct_center_immersed
      \<and> pnorm (direct_vect_dist direct_radius dx) \<noteq> 0
    \<longrightarrow> system_rhs D' di
          = boundary_value dk (unit_normal direct_center_immersed dx)
              / (pnorm (direct_vect_dist direct_radius dx))\<^sup>2
      \<and> (\<forall>j. j \<noteq> di \<longrightarrow> system_rhs D' j = system_rhs D j))
   \<and> (direct_sharp_edge_V2 ems h E = Inr E' \<longrightarrow> system_rhs E' (n_dofs ems - 1) = 0)
   \<and> boundary_value k (cos t, sin t)
       = - (if k = 0 then fst (surface_velocity t) else snd (surface_velocity t))"
proof (intro conjI impI; (elim conjE)?)
  assume run: "rewrite_row_small ms initial_step c k l S = Inr S'"
    and i: "i = overridden_dof ms c l" and x: "x = support_points ms i"
    and alpha: "\<alpha> = system_matrix S i i"
  show "system_rhs S' i
          = (if couette ms \<and> initial_step
             then \<alpha> * boundary_value k (unit_normal center_immersed x) else 0)"
    unfolding rewrite_row_small_rhs [OF run] i x alpha by simp
  show "\<forall>j. j \<noteq> i \<longrightarrow> system_rhs S' j = system_rhs S j"
    unfolding rewrite_row_small_rhs [OF run] i by simp
next
  assume lrun: "rewrite_row_large lms lc lk ll L = Inr L'"
    and li: "li = overridden_dof lms lc ll"
  show "system_rhs L' li = 0"
    unfolding rewrite_row_large_rhs [OF lrun] li by simp
  show "\<forall>j. j \<noteq> li \<longrightarrow> system_rhs L' j = system_rhs L j"
    unfolding rewrite_row_large_rhs [OF lrun] li by simp
next
  assume drun: "direct_rewrite_row_small dms dc dk dl D = Inr D'"
    and di: "di = overridden_dof dms dc dl" and dx: "dx = support_points dms di"
  show "system_rhs D' di
          = boundary_value dk (unit_normal direct_center_immersed dx)
              / (pnorm (direct_vect_dist direct_radius dx))\<^sup>2"
    unfolding direct_rewrite_row_small_rhs [OF drun] di dx by simp
  show "\<forall>j. j \<noteq> di \<longrightarrow> system_rhs D' j = system_rhs D j"
    unfolding direct_rewrite_row_small_rhs [OF drun] di by simp
next
  assume "direct_sharp_edge_V2 ems h E = Inr E'"
  then show "system_rhs E' (n_dofs ems - 1) = 0"
    by (rule direct_sharp_edge_V2_last_rhs)
next
  show "boundary_value k (cos t, sin t)
       = - (if k = 0 then fst (surface_velocity t) else snd (surface_velocity t))"
    by (rule boundary_value_surface_velocity)
qed

theorem override_rhs_entry_witness:
  "\<exists>S1 Sf L1 Lf D1 Df.
     rewrite_row_small (plate_mesh (2 / 5) 2 True) True plate_cell 0 0 (scaled_solver 3) = Inr S1
     \<and> sharp_edge_V2 (plate_mesh (2 / 5) 2 True) True (scaled_solver 3) = Inr Sf
     \<and> support_points (plate_mesh (2 / 5) 2 True) 0 = (1 / 5, 1 / 4)
     \<and> (1 / 5, 1 / 4) \<noteq> center_immersed
     \<and> unit_normal center_immersed (1 / 5, 1 / 4) = (0, 1)
     \<and> system_matrix (scaled_solver 3) 0 0 = 3
     \<and> system_rhs S1 0 = 3 \<and> system_rhs S1 3 = 1 \<and> system_rhs Sf 0 = 3
     \<and> rewrite_row_large (plate_mesh (1 / 10) (2 / 5) True) plate_cell 0 0 (scaled_solver 3)
           = Inr L1
     \<and> sharp_edge_V2 (plate_mesh (1 / 10) (2 / 5) True) True (scaled_solver 3) = Inr Lf
     \<and> system_rhs L1 0 = 0 \<and> system_rhs L1 3 = 1 \<and> system_rhs Lf 0 = 0
     \<and> direct_rewrite_row_small sector_mesh sector_cell_A 0 0 (scaled_solver 3) = Inr D1
     \<and> direct_sharp_edge_V2 sector_mesh (sqrt (1 / 40)) (scaled_solver 3) = Inr Df
     \<and> support_points sector_mesh 4 = (0, 27 / 100)
     \<and> (0, 27 / 100) \<noteq> direct_center_immersed
     \<and> unit_normal direct_center_immersed (0, 27 / 100) = (0, 1)
     \<and> pnorm (direct_vect_dist direct_radius (0, 27 / 100)) = 3 / 50
     \<and> system_rhs D1 4 = 1 / (3 / 50)\<^sup>2 \<and> system_rhs D1 5 = 1
     \<and> system_rhs Df 4 = 1 / (3 / 50)\<^sup>2
     \<and> system_rhs Df (n_dofs sector_mesh - 1) = 0
     \<and> boundary_value 0 (cos (pi / 2), sin (pi / 2)) = 1
     \<and> fst (surface_velocity (pi / 2)) = - 1"
proof -
  let ?P = "plate_mesh (2 / 5) 2 True"
  let ?Q = "plate_mesh (1 / 10) (2 / 5) True"
  let ?S = "scaled_solver 3"
  obtain S1 Sf where S1: "rewrite_row_small ?P True plate_cell 0 0 ?S = Inr S1"
    and Sf: "sharp_edge_V2 ?P True ?S = Inr Sf"
    and sameS: "system_rhs Sf 0 = system_rhs S1 0"
    using plate_small_pass_first_row [of "2 / 5" True 2 True ?S] by auto
  obtain L1 Lf where L1: "rewrite_row_large ?Q plate_cell 0 0 ?S = Inr L1"
    and Lf: "sharp_edge_V2 ?Q True ?S = Inr Lf"
    and sameL: "system_rhs Lf 0 = system_rhs L1 0"
    using plate_large_pass_first_row [of "1 / 10" "2 / 5" ?S True] by auto
  obtain D1 Df where D1: "direct_rewrite_row_small sector_mesh sector_cell_A 0 0 ?S = Inr D1"
    and Df: "direct_sharp_edge_V2 sector_mesh (sqrt (1 / 40)) ?S = Inr Df"
    and sameD: "system_rhs Df 4 = system_rhs D1 4"
    using sector_pass_first_row [of ?S "sqrt (1 / 40)"] by auto
  have i: "0 = overridden_dof ?P plate_cell 0" by (simp add: plate_overridden)
  have x: "(1 / 5, 1 / 4) = support_points ?P 0" by (simp add: plate_on_surface)
  have oc: "(1 / 5, 1 / 4) \<noteq> center_immersed" by (simp add: center_immersed_def)
  have alpha: "3 = system_matrix ?S 0 0" by (simp add: scaled_solver_def)
  have li: "0 = overridden_dof ?Q plate_cell 0" by (simp add: plate_overridden)
  have di: "4 = overridden_dof sector_mesh sector_cell_A 0" by (simp add: sector_geometry)
  have dx: "(0, 27 / 100) = support_points sector_mesh 4" by (simp add: sector_geometry)
  have doc: "(0, 27 / 100) \<noteq> direct_center_immersed" by (simp add: direct_center_immersed_def)
  have dv: "pnorm (direct_vect_dist direct_radius (0, 27 / 100)) = 3 / 50"
    by (simp add: sector_geometry pnorm_on_y_axis)
  then have dnz: "pnorm (direct_vect_dist direct_radius (0, 27 / 100)) \<noteq> 0" by simp
  have dn: "unit_normal direct_center_immersed (0, 27 / 100) = (0, 1)"
    by (simp add: unit_normal_def direct_center_immersed_def point_ops pnorm_on_y_axis)
  note facts = override_rhs_entry [where ms = ?P and initial_step = True and c = plate_cell
      and k = 0 and l = 0 and S = ?S and S' = S1 and i = 0 and x = "(1 / 5, 1 / 4)" and \<alpha> = 3
      and lms = ?Q and lc = plate_cell and lk = 0 and ll = 0 and L = ?S and L' = L1 and li = 0
      and dms = sector_mesh and dc = sector_cell_A and dk = 0 and dl = 0 and D = ?S and D' = D1
      and di = 4 and dx = "(0, 27 / 100)"
      and ems = sector_mesh and h = "sqrt (1 / 40)" and E = ?S and E' = Df and t = "pi / 2"]
  have small: "system_rhs S1 0
          = (if couette ?P \<and> True
             then 3 * boundary_value 0 (unit_normal center_immersed (1 / 5, 1 / 4)) else 0)
      \<and> (\<forall>j. j \<noteq> 0 \<longrightarrow> system_rhs S1 j = system_rhs ?S j)"
    using facts [THEN conjunct1] S1 i x oc alpha by blast
  have large: "system_rhs L1 0 = 0 \<and> (\<forall>j. j \<noteq> 0 \<longrightarrow> system_rhs L1 j = system_rhs ?S j)"
    using facts [THEN conjunct2, THEN conjunct1] L1 li by blast
  have direct: "system_rhs D1 4
          = boundary_value 0 (unit_normal direct_center_immersed (0, 27 / 100))
              / (pnorm (direct_vect_dist direct_radius (0, 27 / 100)))\<^sup>2
      \<and> (\<forall>j. j \<noteq> 4 \<longrightarrow> system_rhs D1 j = system_rhs ?S j)"
    using facts [THEN conjunct2, THEN conjunct2, THEN conjunct1] D1 di dx doc dnz by blast
  have last: "system_rhs Df (n_dofs sector_mesh - 1) = 0"
    using facts [THEN conjunct2, THEN conjunct2, THEN conjunct2, THEN conjunct1] Df by blast
  have bv: "boundary_value 0 (cos (pi / 2), sin (pi / 2)) = 1"
    "fst (surface_velocity (pi / 2)) = - 1"
    using facts [THEN conjunct2, THEN conjunct2, THEN conjunct2, THEN conjunct2]
    by (simp_all add: surface_velocity_def)
  have s0: "system_rhs S1 0 = 3"
    using small by (simp add: plate_fields plate_on_surface boundary_value_def)
  have s3: "system_rhs S1 3 = 1" using small by (simp add: scaled_solver_def)
  have l0: "system_rhs L1 0 = 0" using large by simp
  have l3: "system_rhs L1 3 = 1" using large by (simp add: scaled_solver_def)
  have d4: "system_rhs D1 4 = 1 / (3 / 50)\<^sup>2"
    using direct by (simp add: dn dv boundary_value_def)
  have d5: "system_rhs D1 5 = 1" using direct by (simp add: scaled_solver_def)
  from S1 Sf sameS L1 Lf sameL D1 Df sameD x oc alpha dx doc dn dv s0 s3 l0 l3 d4 d5 last bv
  show ?thesis
    by (auto simp: plate_on_surface)
qed

text \<open>
  C3, as stated, fails. Initial step of a Couette run on the one-cell mesh, radius \<open>0.4\<close>,
  \<open>3\<close> on the diagonal: for the x-velocity at the vertex \<open>(0.2, 0.25)\<close> (global dof \<open>0\<close>,
  \<open>d = 0.15\<close>, \<open>\<alpha> = 3\<close>, velocity of the surface \<open>(-1, 0)\<close>) \<^verbatim>\<open>sharp_edge_V2(true)\<close> leaves
  \<open>r\<^sub>0 = 3\<close>, the claim gives \<open>\<alpha> g\<^sub>0 / d\<^sup>2 = -400/3\<close>. Direct solver on the three-cell mesh:
  for the x-velocity at the vertex \<open>(0, 0.27)\<close> (global dof \<open>4\<close>, \<open>d = 0.06\<close>, \<open>\<alpha> = 3\<close>)
  \<^verbatim>\<open>sharp_edge_V2()\<close> leaves \<open>r\<^sub>4 = 2500/9\<close> at every call, the claim gives \<open>-2500/3\<close> at the
  first call and \<open>0\<close> later.
\<close>

theorem override_rhs_entry_counterexample:
  "pnorm (vect_dist_small (radius (plate_mesh (2 / 5) 2 True))
            (support_points (plate_mesh (2 / 5) 2 True) 0)) = 3 / 20
   \<and> system_matrix (scaled_solver 3) 0 0 = 3
   \<and> unit_normal center_immersed (support_points (plate_mesh (2 / 5) 2 True) 0)
       = (cos (pi / 2), sin (pi / 2))
   \<and> fst (surface_velocity (pi / 2)) = - 1
   \<and> rhs_entry_of (sharp_edge_V2 (plate_mesh (2 / 5) 2 True) True (scaled_solver 3)) 0 = Some 3
   \<and> 3 * (- 1 :: real) / (3 / 20)\<^sup>2 = - 400 / 3
   \<and> pnorm (direct_vect_dist direct_radius (support_points sector_mesh 4)) = 3 / 50
   \<and> system_matrix (scaled_solver 3) 4 4 = 3
   \<and> unit_normal direct_center_immersed (support_points sector_mesh 4)
       = (cos (pi / 2), sin (pi / 2))
   \<and> rhs_entry_of (direct_sharp_edge_V2 sector_mesh (sqrt (1 / 40)) (scaled_solver 3)) 4
       = Some (2500 / 9)
   \<and> 3 * (- 1 :: real) / (3 / 50)\<^sup>2 = - 2500 / 3"
proof -
  have q: "(1 / 4 :: real) \<le> 2 / 5" "(2 / 5 :: real) < 1"
    "\<not> True \<or> (2::real) < 1 / 4 \<or> (1::real) \<le> 2"
    by simp_all
  have a: "rhs_entry_of (sharp_edge_V2 (plate_mesh (2 / 5) 2 True) True (scaled_solver 3)) 0
           = Some 3"
    unfolding plate_small_pass_entries(2) [OF q] plate_first_row_two_fifths(2)
    by (simp add: scaled_solver_def)
  have b: "rhs_entry_of (direct_sharp_edge_V2 sector_mesh (sqrt (1 / 40)) (scaled_solver 3)) 4
       = Some (2500 / 9)"
    unfolding sector_pass_entries(2) sector_first_row
    by (simp add: rhs_entry_of_def)
  have n: "unit_normal direct_center_immersed (0, 27 / 100) = (0, 1)"
    by (simp add: unit_normal_def direct_center_immersed_def point_ops pnorm_on_y_axis)
  show ?thesis
    using a b
    by (simp add: plate_fields plate_on_surface plate_first_row_two_fifths(1) sector_geometry
        pnorm_on_y_axis n surface_velocity_def scaled_solver_def power2_eq_square)
qed

end
